(* ===== verification/Sql_Table.thy ===== *)
theory Sql_Table
  imports Main
begin

text \<open>
  The SQLite tables behind the stores, as lists of rows in row-id order, and the handful
  of statements the code issues against them. A row is a pair of its INTEGER PRIMARY KEY
  (the row id) and the record of its other columns. A UNIQUE or PRIMARY KEY constraint
  over columns is a key function on rows; the locale \<open>keyed_table\<close> states what an upsert
  on such a key promises, once for every table of the program. \<open>table_ok\<close> is the
  constraint itself: no two rows share a key and no two share a row id.
\<close>

type_synonym 'r table = "(int \<times> 'r) list"

named_theorems table_simps

section \<open>SQL values\<close>

text \<open>\<^verbatim>\<open>COALESCE(a, b)\<close> of two nullable columns.\<close>

definition coalesce :: "'a option \<Rightarrow> 'a option \<Rightarrow> 'a option" where
  "coalesce a b = (case a of None \<Rightarrow> b | Some x \<Rightarrow> Some x)"

lemma coalesce_simps [simp]:
  "coalesce None b = b"
  "coalesce (Some x) b = Some x"
  "coalesce a None = a"
  by (simp_all add: coalesce_def split: option.split)

section \<open>Statements\<close>

text \<open>Without AUTOINCREMENT a new row id is one more than the largest in use.\<close>

definition next_rowid :: "'r table \<Rightarrow> int" where
  "next_rowid t = (if t = [] then 1 else Max (set (map fst t)) + 1)"

definition rows_of :: "'r table \<Rightarrow> 'r list" where
  "rows_of t = map snd t"

definition select_where :: "('r \<Rightarrow> bool) \<Rightarrow> 'r table \<Rightarrow> 'r list" where
  "select_where P t = filter P (rows_of t)"

definition delete_where :: "('r \<Rightarrow> bool) \<Rightarrow> 'r table \<Rightarrow> 'r table" where
  "delete_where P t = filter (\<lambda>(i, r). \<not> P r) t"

definition update_where :: "('r \<Rightarrow> bool) \<Rightarrow> ('r \<Rightarrow> 'r) \<Rightarrow> 'r table \<Rightarrow> 'r table" where
  "update_where P f t = map (\<lambda>(i, r). (i, if P r then f r else r)) t"

definition insert_row :: "'r \<Rightarrow> 'r table \<Rightarrow> 'r table" where
  "insert_row r t = t @ [(next_rowid t, r)]"

definition lookup_key :: "('r \<Rightarrow> 'k) \<Rightarrow> 'k \<Rightarrow> 'r table \<Rightarrow> 'r option" where
  "lookup_key key k t = map_option snd (List.find (\<lambda>(i, r). key r = k) t)"

text \<open>
  \<^verbatim>\<open>INSERT ... ON CONFLICT(key) DO UPDATE SET ...\<close>: \<open>merge excluded existing\<close> is the
  row that the SET clause leaves. \<^verbatim>\<open>DO NOTHING\<close> is \<open>merge = (\<lambda>_ old. old)\<close>.
\<close>

definition upsert ::
  "('r \<Rightarrow> 'k) \<Rightarrow> ('r \<Rightarrow> 'r \<Rightarrow> 'r) \<Rightarrow> 'r \<Rightarrow> 'r table \<Rightarrow> 'r table" where
  "upsert key merge new t =
     (if \<exists>r \<in> set (rows_of t). key r = key new
      then update_where (\<lambda>r. key r = key new) (merge new) t
      else insert_row new t)"

definition keys_of :: "('r \<Rightarrow> 'k) \<Rightarrow> 'r table \<Rightarrow> 'k set" where
  "keys_of key t = key ` set (rows_of t)"

definition table_ok :: "('r \<Rightarrow> 'k) \<Rightarrow> 'r table \<Rightarrow> bool" where
  "table_ok key t \<longleftrightarrow> distinct (map key (rows_of t)) \<and> distinct (map fst t)"

text \<open>
  An UPDATE that changes the key columns of the rows matching \<open>P\<close> is refused by SQLite
  (the statement fails, \<open>None\<close>) when it would break the UNIQUE constraint.
\<close>

definition update_unique ::
  "('r \<Rightarrow> 'k) \<Rightarrow> ('r \<Rightarrow> bool) \<Rightarrow> ('r \<Rightarrow> 'r) \<Rightarrow> 'r table \<Rightarrow> 'r table option" where
  "update_unique key P f t =
     (let t' = update_where P f t in
      if distinct (map key (rows_of t')) then Some t' else None)"

section \<open>General lemmas\<close>

lemma find_SomeD: "List.find P xs = Some x \<Longrightarrow> x \<in> set xs \<and> P x"
  by (induction xs) (auto split: if_splits)

lemma rows_of_simps [simp]:
  "rows_of [] = []"
  "rows_of ((i, r) # t) = r # rows_of t"
  "rows_of (t @ u) = rows_of t @ rows_of u"
  by (simp_all add: rows_of_def)

lemma rows_of_delete_where [simp]: "rows_of (delete_where P t) = filter (\<lambda>r. \<not> P r) (rows_of t)"
  by (induction t) (auto simp: delete_where_def)

lemma rows_of_update_where [simp]:
  "rows_of (update_where P f t) = map (\<lambda>r. if P r then f r else r) (rows_of t)"
  by (induction t) (auto simp: update_where_def)

lemma rows_of_insert_row [simp]: "rows_of (insert_row r t) = rows_of t @ [r]"
  by (simp add: insert_row_def)

lemma ids_update_where [simp]: "map fst (update_where P f t) = map fst t"
  by (induction t) (auto simp: update_where_def)

lemma ids_delete_where: "distinct (map fst t) \<Longrightarrow> distinct (map fst (delete_where P t))"
  by (induction t) (auto simp: delete_where_def)

lemma next_rowid_fresh: "next_rowid t \<notin> set (map fst t)"
proof
  assume a: "next_rowid t \<in> set (map fst t)"
  then have "t \<noteq> []" by auto
  from a have "next_rowid t \<le> Max (set (map fst t))"
    by (intro Max_ge) auto
  with \<open>t \<noteq> []\<close> show False by (simp add: next_rowid_def)
qed

lemma ids_insert_row: "distinct (map fst t) \<Longrightarrow> distinct (map fst (insert_row r t))"
  using next_rowid_fresh [of t] by (simp add: insert_row_def)

lemma select_where_iff [simp]: "r \<in> set (select_where P t) \<longleftrightarrow> r \<in> set (rows_of t) \<and> P r"
  by (auto simp: select_where_def)

lemma lookup_key_Nil [simp]: "lookup_key key k [] = None"
  by (simp add: lookup_key_def)

lemma lookup_key_Cons [simp]:
  "lookup_key key k ((i, r) # t) = (if key r = k then Some r else lookup_key key k t)"
  by (simp add: lookup_key_def)

lemma lookup_key_append [simp]:
  "lookup_key key k (t @ u) =
     (case lookup_key key k t of None \<Rightarrow> lookup_key key k u | Some r \<Rightarrow> Some r)"
  by (induction t) auto

lemma keys_of_simps [simp]:
  "keys_of key [] = {}"
  "keys_of key ((i, r) # t) = insert (key r) (keys_of key t)"
  "keys_of key (t @ u) = keys_of key t \<union> keys_of key u"
  by (auto simp: keys_of_def)

lemma keys_ofI: "r \<in> set (rows_of t) \<Longrightarrow> key r \<in> keys_of key t"
  by (simp add: keys_of_def)

lemma ex_key_iff: "(\<exists>r \<in> set (rows_of t). key r = k) \<longleftrightarrow> k \<in> keys_of key t"
  by (auto simp: keys_of_def)

lemma lookup_key_None: "lookup_key key k t = None \<longleftrightarrow> k \<notin> keys_of key t"
  by (induction t) (auto split: if_splits)

lemma lookup_key_SomeD: "lookup_key key k t = Some r \<Longrightarrow> r \<in> set (rows_of t) \<and> key r = k"
  by (induction t) (auto split: if_splits)

lemma lookup_key_Some_keys: "lookup_key key k t = Some r \<Longrightarrow> k \<in> keys_of key t"
  by (auto simp: keys_of_def dest: lookup_key_SomeD)

lemma lookup_key_unique:
  "distinct (map key (rows_of t)) \<Longrightarrow> r \<in> set (rows_of t) \<Longrightarrow> lookup_key key (key r) t = Some r"
proof (induction t)
  case Nil
  then show ?case by simp
next
  case (Cons a t)
  obtain i x where a: "a = (i, x)" by (cases a)
  show ?case
  proof (cases "key x = key r")
    case True
    have "key x \<notin> key ` set (rows_of t)"
      using Cons.prems a by simp
    with True have "r \<notin> set (rows_of t)" by (metis imageI)
    with Cons.prems a have "r = x" by simp
    then show ?thesis by (simp add: a)
  next
    case False
    then have "r \<in> set (rows_of t)" using Cons.prems a by auto
    then have "lookup_key key (key r) t = Some r"
      using Cons.IH Cons.prems a by simp
    with False show ?thesis by (simp add: a)
  qed
qed

lemma keys_of_delete_where:
  "keys_of key (delete_where P t) = key ` {r \<in> set (rows_of t). \<not> P r}"
  by (auto simp: keys_of_def)

lemma table_ok_Nil [simp]: "table_ok key []"
  by (simp add: table_ok_def)

lemma table_ok_delete_where [simp, intro]: "table_ok key t \<Longrightarrow> table_ok key (delete_where P t)"
  by (auto simp: table_ok_def ids_delete_where intro: distinct_map_filter)

lemma map_key_update_where:
  assumes "\<And>r. r \<in> set (rows_of t) \<Longrightarrow> P r \<Longrightarrow> key (f r) = key r"
  shows "map key (rows_of (update_where P f t)) = map key (rows_of t)"
  using assms by auto

lemma table_ok_update_where [intro]:
  assumes "table_ok key t" and "\<And>r. r \<in> set (rows_of t) \<Longrightarrow> P r \<Longrightarrow> key (f r) = key r"
  shows "table_ok key (update_where P f t)"
  using assms map_key_update_where [of t P key f] by (simp add: table_ok_def del: rows_of_update_where)

lemma table_ok_update_unique:
  "table_ok key t \<Longrightarrow> update_unique key P f t = Some t' \<Longrightarrow> table_ok key t'"
  by (auto simp: update_unique_def table_ok_def Let_def split: if_splits)

lemma lookup_key_update_where:
  assumes "\<And>r. P r \<Longrightarrow> key (f r) = key r"
  shows "lookup_key key k (update_where P f t) =
           map_option (\<lambda>r. if P r then f r else r) (lookup_key key k t)"
proof (induction t)
  case Nil
  then show ?case by (simp add: update_where_def)
next
  case (Cons a t)
  obtain i x where a: "a = (i, x)" by (cases a)
  have "update_where P f (a # t) = (i, if P x then f x else x) # update_where P f t"
    by (simp add: a update_where_def)
  with Cons assms show ?case by (simp add: a)
qed

lemma keys_of_update_where:
  assumes "\<And>r. P r \<Longrightarrow> key (f r) = key r"
  shows "keys_of key (update_where P f t) = keys_of key t"
proof -
  have "key ` set (rows_of (update_where P f t)) = (\<lambda>r. key (if P r then f r else r)) ` set (rows_of t)"
    by (simp only: rows_of_update_where set_map image_image)
  also have "\<dots> = key ` set (rows_of t)"
    using assms by (intro image_cong) auto
  finally show ?thesis by (simp only: keys_of_def)
qed

lemma lookup_key_delete_where:
  assumes "table_ok key t"
  shows "lookup_key key k (delete_where P t) =
           (case lookup_key key k t of None \<Rightarrow> None | Some r \<Rightarrow> if P r then None else Some r)"
proof (cases "lookup_key key k (delete_where P t)")
  case (Some r)
  then have r: "r \<in> set (rows_of t)" "\<not> P r" "key r = k"
    by (auto dest: lookup_key_SomeD)
  with assms have "lookup_key key k t = Some r"
    using lookup_key_unique [of key t r] by (simp add: table_ok_def)
  with Some r show ?thesis by simp
next
  case None
  show ?thesis
  proof (cases "lookup_key key k t")
    case (Some r)
    then have "r \<in> set (rows_of t)" "key r = k" by (auto dest: lookup_key_SomeD)
    with None have "P r" by (auto simp: lookup_key_None keys_of_delete_where)
    with None Some show ?thesis by simp
  qed (use None in simp)
qed

lemma delete_where_delete_where:
  "delete_where Q (delete_where P t) = delete_where (\<lambda>r. P r \<or> Q r) t"
  by (induction t) (auto simp: delete_where_def)

lemma delete_where_False [simp]: "delete_where (\<lambda>r. False) t = t"
  by (simp add: delete_where_def)

lemma lookup_key_iff_row:
  "table_ok key t \<Longrightarrow> lookup_key key k t = Some r \<longleftrightarrow> r \<in> set (rows_of t) \<and> key r = k"
  by (auto simp: table_ok_def dest: lookup_key_SomeD intro: lookup_key_unique)

section \<open>The interface of a table with a unique key\<close>

text \<open>
  A client of such a table names the key columns and the SET clause of its upsert; the
  law it must keep is that the SET clause leaves the key columns alone. The facts proved
  here hold for every table of the program through its interpretation.
\<close>

locale keyed_table =
  fixes key :: "'r \<Rightarrow> 'k"
    and merge :: "'r \<Rightarrow> 'r \<Rightarrow> 'r"
  assumes merge_key: "key new = key old \<Longrightarrow> key (merge new old) = key old"
begin

lemma upsert_ok: "table_ok key t \<Longrightarrow> table_ok key (upsert key merge new t)"
proof (cases "\<exists>r \<in> set (rows_of t). key r = key new")
  case True
  assume "table_ok key t"
  then have "table_ok key (update_where (\<lambda>r. key r = key new) (merge new) t)"
    by (rule table_ok_update_where) (simp add: merge_key)
  with True show ?thesis by (simp add: upsert_def)
next
  case False
  assume "table_ok key t"
  with False show ?thesis
    using ids_insert_row [of t new] by (auto simp: upsert_def table_ok_def)
qed

lemma keys_upsert: "keys_of key (upsert key merge new t) = insert (key new) (keys_of key t)"
proof (cases "\<exists>r \<in> set (rows_of t). key r = key new")
  case True
  have "keys_of key (update_where (\<lambda>r. key r = key new) (merge new) t) = keys_of key t"
    by (rule keys_of_update_where) (simp add: merge_key)
  with True show ?thesis by (simp add: upsert_def ex_key_iff insert_absorb)
next
  case False
  then show ?thesis by (simp add: upsert_def insert_row_def)
qed

lemma lookup_upsert:
  "lookup_key key k (upsert key merge new t) =
     (if k = key new
      then Some (case lookup_key key k t of None \<Rightarrow> new | Some old \<Rightarrow> merge new old)
      else lookup_key key k t)"
proof (cases "\<exists>r \<in> set (rows_of t). key r = key new")
  case True
  then have "key new \<in> keys_of key t" by (simp add: ex_key_iff)
  then obtain old where old: "lookup_key key (key new) t = Some old"
    using lookup_key_None [of key "key new" t] by auto
  have "lookup_key key k (update_where (\<lambda>r. key r = key new) (merge new) t) =
      map_option (\<lambda>r. if key r = key new then merge new r else r) (lookup_key key k t)"
    by (rule lookup_key_update_where) (simp add: merge_key)
  with True old show ?thesis
    by (cases "lookup_key key k t") (auto simp: upsert_def dest: lookup_key_SomeD)
next
  case False
  then have "lookup_key key (key new) t = None"
    by (auto simp: lookup_key_None keys_of_def)
  with False show ?thesis
    by (auto simp: upsert_def insert_row_def split: option.splits)
qed

lemma lookup_upsert_same:
  "\<exists>r. lookup_key key (key new) (upsert key merge new t) = Some r"
  by (simp add: lookup_upsert)

lemma lookup_upsert_other:
  "k \<noteq> key new \<Longrightarrow> lookup_key key k (upsert key merge new t) = lookup_key key k t"
  by (simp add: lookup_upsert)

lemma upsert_keeps_ids: "fst ` set t \<subseteq> fst ` set (upsert key merge new t)"
  using ids_update_where [of "\<lambda>r. key r = key new" "merge new" t]
  by (auto simp: upsert_def insert_row_def simp flip: set_map)

end

text \<open>
  Most SET clauses are idempotent: writing the same values again changes nothing. Their
  tables can repeat an upsert that was interrupted.
\<close>

lemma update_where_idem:
  assumes "\<And>r. P r \<Longrightarrow> P (f r) \<and> f (f r) = f r"
  shows "update_where P f (update_where P f t) = update_where P f t"
  using assms by (auto simp: update_where_def)

lemma update_where_none: "(\<And>r. r \<in> set (rows_of t) \<Longrightarrow> \<not> P r) \<Longrightarrow> update_where P f t = t"
  by (force simp: update_where_def rows_of_def intro: map_idI)

locale repeatable_table = keyed_table +
  assumes merge_twice: "key new = key old \<Longrightarrow> merge new (merge new old) = merge new old"
    and merge_self: "merge new new = new"
begin

lemma upsert_twice: "upsert key merge new (upsert key merge new t) = upsert key merge new t"
proof (cases "key new \<in> keys_of key t")
  case True
  let ?t = "update_where (\<lambda>r. key r = key new) (merge new) t"
  have "keys_of key ?t = keys_of key t"
    by (rule keys_of_update_where) (simp add: merge_key)
  then have "upsert key merge new ?t = update_where (\<lambda>r. key r = key new) (merge new) ?t"
    using True by (simp only: upsert_def ex_key_iff if_True)
  also have "\<dots> = ?t"
    by (rule update_where_idem) (simp add: merge_key merge_twice)
  finally show ?thesis
    using True by (simp only: upsert_def ex_key_iff if_True)
next
  case False
  then have "update_where (\<lambda>r. key r = key new) (merge new) t = t"
    by (intro update_where_none) (metis keys_ofI)
  with False show ?thesis
    by (simp add: upsert_def ex_key_iff insert_row_def update_where_def merge_self)
qed

end

lemma filter_key_singleton:
  assumes "distinct (map key xs)" and "k \<in> set xs" and "Q k"
    and "\<And>r. r \<in> set xs \<Longrightarrow> Q r \<Longrightarrow> key r = key k"
  shows "filter Q xs = [k]"
  using assms
proof (induction xs)
  case (Cons a xs)
  show ?case
  proof (cases "k = a")
    case True
    have "\<not> Q r" if r: "r \<in> set xs" for r
    proof
      assume "Q r"
      with r have "key r = key a" using Cons.prems(4) [of r] True by simp
      then have "key a \<in> key ` set xs" using r by (metis imageI)
      then show False using Cons.prems(1) by simp
    qed
    then have "filter Q xs = []" by (simp add: filter_empty_conv)
    with True Cons.prems(3) show ?thesis by simp
  next
    case False
    then have "k \<in> set xs" using Cons.prems(2) by simp
    have "\<not> Q a"
    proof
      assume "Q a"
      then have "key a = key k" using Cons.prems(4) [of a] by simp
      then have "key a \<in> key ` set xs" using \<open>k \<in> set xs\<close> by (metis imageI)
      then show False using Cons.prems(1) by simp
    qed
    moreover have "filter Q xs = [k]"
    proof (rule Cons.IH)
      show "distinct (map key xs)" using Cons.prems(1) by simp
      show "key r = key k" if "r \<in> set xs" "Q r" for r
        using that by (intro Cons.prems(4)) simp_all
    qed (fact \<open>k \<in> set xs\<close>, fact Cons.prems(3))
    ultimately show ?thesis by simp
  qed
qed simp

lemmas table_defs = upsert_def insert_row_def update_where_def delete_where_def
  select_where_def lookup_key_def update_unique_def

end
