(* ===== verification/Rust_Str.thy ===== *)
theory Rust_Str
  imports Main "HOL-Library.Sublist" "HOL-Library.Char_ord"
begin

text \<open>
  The parts of Rust's string and slice library that the modelled code calls.
  A Rust \<^verbatim>\<open>str\<close> and a \<^verbatim>\<open>[u8]\<close> are both a list of bytes here: a \<open>char\<close> of HOL is one of
  256 bytes, so a \<open>string\<close> is the UTF-8 encoding that Rust's own \<^verbatim>\<open>str\<close> stores, its
  \<open>length\<close> is \<^verbatim>\<open>str::len\<close>, and an index into it is a byte offset as in Rust.
  The ASCII operations act on single bytes. The operations that Rust defines on Unicode
  white space (\<^verbatim>\<open>trim\<close>, \<^verbatim>\<open>split_whitespace\<close>) recognise the encoded characters with
  the White\_Space property, of one, two and three bytes.
\<close>

section \<open>ASCII classes and case\<close>

definition byte :: "char \<Rightarrow> nat" where
  "byte c = of_char c"

definition is_ascii_upper :: "char \<Rightarrow> bool" where
  "is_ascii_upper c \<longleftrightarrow> 65 \<le> byte c \<and> byte c \<le> 90"

definition is_ascii_lower :: "char \<Rightarrow> bool" where
  "is_ascii_lower c \<longleftrightarrow> 97 \<le> byte c \<and> byte c \<le> 122"

definition is_ascii_digit :: "char \<Rightarrow> bool" where
  "is_ascii_digit c \<longleftrightarrow> 48 \<le> byte c \<and> byte c \<le> 57"

definition is_ascii_alphabetic :: "char \<Rightarrow> bool" where
  "is_ascii_alphabetic c \<longleftrightarrow> is_ascii_upper c \<or> is_ascii_lower c"

definition is_ascii_alphanumeric :: "char \<Rightarrow> bool" where
  "is_ascii_alphanumeric c \<longleftrightarrow> is_ascii_alphabetic c \<or> is_ascii_digit c"

definition lower_char :: "char \<Rightarrow> char" where
  "lower_char c = (if is_ascii_upper c then char_of (byte c + 32) else c)"

definition upper_char :: "char \<Rightarrow> char" where
  "upper_char c = (if is_ascii_lower c then char_of (byte c - 32) else c)"

definition to_ascii_lowercase :: "string \<Rightarrow> string" where
  "to_ascii_lowercase = map lower_char"

definition to_ascii_uppercase :: "string \<Rightarrow> string" where
  "to_ascii_uppercase = map upper_char"

definition eq_ignore_ascii_case :: "string \<Rightarrow> string \<Rightarrow> bool" where
  "eq_ignore_ascii_case a b \<longleftrightarrow> to_ascii_lowercase a = to_ascii_lowercase b"

lemma byte_char_of [simp]: "n < 256 \<Longrightarrow> byte (char_of n) = n"
  by (simp add: byte_def)

lemma lower_char_idem [simp]: "lower_char (lower_char c) = lower_char c"
  by (auto simp: lower_char_def is_ascii_upper_def)

lemma to_ascii_lowercase_idem [simp]:
  "to_ascii_lowercase (to_ascii_lowercase s) = to_ascii_lowercase s"
  by (simp add: to_ascii_lowercase_def)

lemma length_to_ascii_lowercase [simp]: "length (to_ascii_lowercase s) = length s"
  by (simp add: to_ascii_lowercase_def)

lemma length_to_ascii_uppercase [simp]: "length (to_ascii_uppercase s) = length s"
  by (simp add: to_ascii_uppercase_def)

lemma to_ascii_lowercase_append [simp]:
  "to_ascii_lowercase (a @ b) = to_ascii_lowercase a @ to_ascii_lowercase b"
  by (simp add: to_ascii_lowercase_def)

lemma to_ascii_lowercase_Nil [simp]: "to_ascii_lowercase [] = []"
  by (simp add: to_ascii_lowercase_def)

lemma to_ascii_lowercase_eq_Nil [simp]: "to_ascii_lowercase s = [] \<longleftrightarrow> s = []"
  by (simp add: to_ascii_lowercase_def)

lemma to_ascii_lowercase_take: "to_ascii_lowercase (take n s) = take n (to_ascii_lowercase s)"
  by (simp add: to_ascii_lowercase_def take_map)

lemma to_ascii_lowercase_drop: "to_ascii_lowercase (drop n s) = drop n (to_ascii_lowercase s)"
  by (simp add: to_ascii_lowercase_def drop_map)

lemma eq_ignore_ascii_case_refl [simp]: "eq_ignore_ascii_case a a"
  by (simp add: eq_ignore_ascii_case_def)

lemma eq_ignore_ascii_case_sym: "eq_ignore_ascii_case a b = eq_ignore_ascii_case b a"
  by (auto simp: eq_ignore_ascii_case_def)

lemma eq_ignore_ascii_case_trans [trans]:
  "eq_ignore_ascii_case a b \<Longrightarrow> eq_ignore_ascii_case b c \<Longrightarrow> eq_ignore_ascii_case a c"
  by (simp add: eq_ignore_ascii_case_def)

section \<open>Searching and splitting\<close>

text \<open>\<^verbatim>\<open>str::find\<close> of a string pattern: the byte offset of its first occurrence.\<close>

fun find_sub :: "'a list \<Rightarrow> 'a list \<Rightarrow> nat option" where
  "find_sub p [] = (if p = [] then Some 0 else None)"
| "find_sub p (c # s) = (if prefix p (c # s) then Some 0 else map_option Suc (find_sub p s))"

definition contains :: "'a list \<Rightarrow> 'a list \<Rightarrow> bool" where
  "contains s p \<longleftrightarrow> find_sub p s \<noteq> None"

text \<open>\<^verbatim>\<open>str::find\<close> of a character test, and \<^verbatim>\<open>str::rfind\<close>.\<close>

fun find_idx :: "('a \<Rightarrow> bool) \<Rightarrow> 'a list \<Rightarrow> nat option" where
  "find_idx P [] = None"
| "find_idx P (c # s) = (if P c then Some 0 else map_option Suc (find_idx P s))"

fun rfind_idx :: "('a \<Rightarrow> bool) \<Rightarrow> 'a list \<Rightarrow> nat option" where
  "rfind_idx P [] = None"
| "rfind_idx P (c # s) =
     (case rfind_idx P s of Some i \<Rightarrow> Some (Suc i) | None \<Rightarrow> if P c then Some 0 else None)"

lemma find_sub_Some:
  "find_sub p s = Some i \<Longrightarrow> i \<le> length s \<and> prefix p (drop i s)"
proof (induction s arbitrary: i)
  case Nil
  then show ?case by (auto split: if_splits)
next
  case (Cons c s)
  then show ?case by (auto split: if_splits)
qed

lemma find_sub_bound: "find_sub p s = Some i \<Longrightarrow> i + length p \<le> length s"
  using find_sub_Some [of p s i] by (auto dest!: prefix_length_le)

lemma find_sub_None: "find_sub p s = None \<longleftrightarrow> \<not> sublist p s"
  by (induction s) (auto simp: sublist_Cons_right)

lemma contains_iff: "contains s p \<longleftrightarrow> sublist p s"
  using find_sub_None [of p s] by (auto simp: contains_def)

lemma find_idx_Some:
  "find_idx P s = Some i \<longleftrightarrow> i < length s \<and> P (s ! i) \<and> (\<forall>j<i. \<not> P (s ! j))"
proof (induction s arbitrary: i)
  case Nil
  then show ?case by simp
next
  case (Cons c s)
  show ?case
  proof (cases i)
    case 0
    then show ?thesis by auto
  next
    case (Suc k)
    then show ?thesis
      using Cons [of k] by (auto simp: nth_Cons less_Suc_eq_0_disj split: nat.splits)
  qed
qed

lemma find_idx_None: "find_idx P s = None \<longleftrightarrow> (\<forall>c \<in> set s. \<not> P c)"
  by (induction s) auto

lemma find_idx_append_free:
  "\<forall>c \<in> set a. \<not> P c \<Longrightarrow> P x \<Longrightarrow> find_idx P (a @ x # b) = Some (length a)"
  by (induction a) auto

lemma rfind_idx_None: "rfind_idx P s = None \<longleftrightarrow> (\<forall>c \<in> set s. \<not> P c)"
  by (induction s) (auto split: option.splits)

lemma rfind_idx_bound: "rfind_idx P s = Some i \<Longrightarrow> i < length s \<and> P (s ! i)"
  by (induction s arbitrary: i) (auto split: option.splits if_splits)

lemma rfind_idx_append_free:
  "\<forall>c \<in> set b. \<not> P c \<Longrightarrow> P x \<Longrightarrow> rfind_idx P (a @ x # b) = Some (length a)"
proof (induction a)
  case Nil
  then have "rfind_idx P b = None" by (simp add: rfind_idx_None)
  with Nil show ?case by simp
next
  case (Cons y a)
  then show ?case by simp
qed

text \<open>\<^verbatim>\<open>split\<close> on a separator: always at least one piece; \<^verbatim>\<open>join\<close> puts it back.\<close>

fun split_on :: "'a \<Rightarrow> 'a list \<Rightarrow> 'a list list" where
  "split_on x [] = [[]]"
| "split_on x (c # s) =
     (if c = x then [] # split_on x s
      else (case split_on x s of [] \<Rightarrow> [[c]] | p # ps \<Rightarrow> (c # p) # ps))"

fun join :: "'a list \<Rightarrow> 'a list list \<Rightarrow> 'a list" where
  "join sep [] = []"
| "join sep [s] = s"
| "join sep (s # t # ts) = s @ sep @ join sep (t # ts)"

lemma split_on_not_Nil [simp]: "split_on x s \<noteq> []"
  by (induction s) (auto split: list.splits)

lemma split_on_Cons_sep [simp]: "split_on x (x # s) = [] # split_on x s"
  by simp

lemma join_Cons: "ts \<noteq> [] \<Longrightarrow> join sep (t # ts) = t @ sep @ join sep ts"
  by (cases ts) auto

lemma join_split_on: "join [x] (split_on x s) = s"
proof (induction s)
  case Nil
  then show ?case by simp
next
  case (Cons c s)
  obtain p ps where eq: "split_on x s = p # ps"
    by (cases "split_on x s") auto
  with Cons show ?case
    by (cases ps) (auto simp: join_Cons)
qed

lemma split_on_free: "x \<notin> set s \<Longrightarrow> split_on x s = [s]"
  by (induction s) auto

lemma split_on_append: "x \<notin> set a \<Longrightarrow> split_on x (a @ x # b) = a # split_on x b"
  by (induction a) auto

lemma split_on_pieces: "p \<in> set (split_on x s) \<Longrightarrow> x \<notin> set p"
proof (induction s arbitrary: p)
  case Nil
  then show ?case by simp
next
  case (Cons c s)
  obtain q qs where eq: "split_on x s = q # qs"
    by (cases "split_on x s") auto
  with Cons.IH have "x \<notin> set q" "\<forall>p \<in> set qs. x \<notin> set p"
    by simp_all
  with Cons.prems eq show ?case
    by (auto split: if_splits)
qed

lemma split_on_join:
  "ps \<noteq> [] \<Longrightarrow> \<forall>p \<in> set ps. x \<notin> set p \<Longrightarrow> split_on x (join [x] ps) = ps"
proof (induction ps)
  case Nil
  then show ?case by simp
next
  case (Cons p ps)
  then show ?case
    by (cases "ps = []") (auto simp: split_on_free split_on_append join_Cons)
qed

text \<open>\<^verbatim>\<open>rsplit_once\<close> and \<^verbatim>\<open>split_once\<close> on one character.\<close>

definition rsplit_once :: "char \<Rightarrow> string \<Rightarrow> (string \<times> string) option" where
  "rsplit_once c s =
     map_option (\<lambda>i. (take i s, drop (Suc i) s)) (rfind_idx (\<lambda>x. x = c) s)"

definition split_once :: "char \<Rightarrow> string \<Rightarrow> (string \<times> string) option" where
  "split_once c s =
     map_option (\<lambda>i. (take i s, drop (Suc i) s)) (find_idx (\<lambda>x. x = c) s)"

lemma rsplit_once_append:
  "c \<notin> set b \<Longrightarrow> rsplit_once c (a @ c # b) = Some (a, b)"
  by (subst rsplit_once_def, subst rfind_idx_append_free) auto

lemma split_once_append:
  "c \<notin> set a \<Longrightarrow> split_once c (a @ c # b) = Some (a, b)"
  by (subst split_once_def, subst find_idx_append_free) auto

section \<open>Trimming\<close>

definition trim_start_matches :: "('a \<Rightarrow> bool) \<Rightarrow> 'a list \<Rightarrow> 'a list" where
  "trim_start_matches P s = dropWhile P s"

definition trim_end_matches :: "('a \<Rightarrow> bool) \<Rightarrow> 'a list \<Rightarrow> 'a list" where
  "trim_end_matches P s = rev (dropWhile P (rev s))"

definition trim_matches :: "('a \<Rightarrow> bool) \<Rightarrow> 'a list \<Rightarrow> 'a list" where
  "trim_matches P s = trim_end_matches P (trim_start_matches P s)"

lemma trim_end_matches_id: "s = [] \<or> \<not> P (last s) \<Longrightarrow> trim_end_matches P s = s"
  by (cases s rule: rev_cases) (auto simp: trim_end_matches_def)

lemma trim_start_matches_id: "s = [] \<or> \<not> P (hd s) \<Longrightarrow> trim_start_matches P s = s"
  by (cases s) (auto simp: trim_start_matches_def)

lemma trim_end_matches_last: "trim_end_matches P s = [] \<or> \<not> P (last (trim_end_matches P s))"
proof (cases "dropWhile P (rev s) = []")
  case True
  then show ?thesis by (simp add: trim_end_matches_def)
next
  case False
  then have "\<not> P (hd (dropWhile P (rev s)))" by (rule hd_dropWhile)
  with False show ?thesis by (simp add: trim_end_matches_def last_rev)
qed

text \<open>
  \<^verbatim>\<open>u8::trim_ascii\<close> uses ASCII white space: tab, line feed, form feed, carriage
  return and space.
\<close>

definition is_ascii_whitespace :: "char \<Rightarrow> bool" where
  "is_ascii_whitespace c \<longleftrightarrow> byte c \<in> {9, 10, 12, 13, 32}"

definition trim_ascii :: "string \<Rightarrow> string" where
  "trim_ascii = trim_matches is_ascii_whitespace"

text \<open>
  The UTF-8 encodings of the 25 characters with White\_Space: U+0009 to U+000D, U+0020,
  U+0085, U+00A0, U+1680, U+2000 to U+200A, U+2028, U+2029, U+202F, U+205F and U+3000.
\<close>

definition ascii_ws :: "string" where
  "ascii_ws = map char_of [9, 10, 11, 12, 13, 32 :: nat]"

definition wide_ws :: "string list" where
  "wide_ws = map (map char_of)
     [[0xC2, 0x85 :: nat], [0xC2, 0xA0], [0xE1, 0x9A, 0x80],
      [0xE2, 0x80, 0x80], [0xE2, 0x80, 0x81], [0xE2, 0x80, 0x82], [0xE2, 0x80, 0x83],
      [0xE2, 0x80, 0x84], [0xE2, 0x80, 0x85], [0xE2, 0x80, 0x86], [0xE2, 0x80, 0x87],
      [0xE2, 0x80, 0x88], [0xE2, 0x80, 0x89], [0xE2, 0x80, 0x8A],
      [0xE2, 0x80, 0xA8], [0xE2, 0x80, 0xA9], [0xE2, 0x80, 0xAF],
      [0xE2, 0x81, 0x9F], [0xE3, 0x80, 0x80]]"

definition ws_seqs :: "string list" where
  "ws_seqs = map (\<lambda>c. [c]) ascii_ws @ wide_ws"

text \<open>The sequences written out, for evaluation.\<close>

lemma ws_seqs_code [code]: "ws_seqs =
  [[CHR 0x09], [CHR 0x0A], [CHR 0x0B],
   [CHR 0x0C], [CHR 0x0D], [CHR '' ''],
   [CHR 0xC2, CHR 0x85], [CHR 0xC2, CHR 0xA0], [CHR 0xE1, CHR 0x9A, CHR 0x80],
   [CHR 0xE2, CHR 0x80, CHR 0x80], [CHR 0xE2, CHR 0x80, CHR 0x81], [CHR 0xE2, CHR 0x80, CHR 0x82],
   [CHR 0xE2, CHR 0x80, CHR 0x83], [CHR 0xE2, CHR 0x80, CHR 0x84], [CHR 0xE2, CHR 0x80, CHR 0x85],
   [CHR 0xE2, CHR 0x80, CHR 0x86], [CHR 0xE2, CHR 0x80, CHR 0x87], [CHR 0xE2, CHR 0x80, CHR 0x88],
   [CHR 0xE2, CHR 0x80, CHR 0x89], [CHR 0xE2, CHR 0x80, CHR 0x8A], [CHR 0xE2, CHR 0x80, CHR 0xA8],
   [CHR 0xE2, CHR 0x80, CHR 0xA9], [CHR 0xE2, CHR 0x80, CHR 0xAF], [CHR 0xE2, CHR 0x81, CHR 0x9F],
   [CHR 0xE3, CHR 0x80, CHR 0x80]]"
  by code_simp

text \<open>Length in bytes of the white space character that starts \<open>s\<close>, 0 if there is none.\<close>

definition ws_at :: "string list \<Rightarrow> string \<Rightarrow> nat" where
  "ws_at ws s = (case List.find (\<lambda>w. prefix w s) ws of None \<Rightarrow> 0 | Some w \<Rightarrow> length w)"

fun strip_ws :: "string list \<Rightarrow> string \<Rightarrow> string" where
  "strip_ws ws [] = []"
| "strip_ws ws (c # s) =
     (let n = ws_at ws (c # s) in if n = 0 then c # s else strip_ws ws (drop (n - 1) s))"

definition trim_start :: "string \<Rightarrow> string" where
  "trim_start s = strip_ws ws_seqs s"

definition trim_end :: "string \<Rightarrow> string" where
  "trim_end s = rev (strip_ws (map rev ws_seqs) (rev s))"

definition trim :: "string \<Rightarrow> string" where
  "trim s = trim_end (trim_start s)"

fun split_ws_from :: "string \<Rightarrow> string \<Rightarrow> string list" where
  "split_ws_from acc [] = (if acc = [] then [] else [rev acc])"
| "split_ws_from acc (c # s) =
     (let n = ws_at ws_seqs (c # s) in
      if n = 0 then split_ws_from (c # acc) s
      else (if acc = [] then [] else [rev acc]) @ split_ws_from [] (drop (n - 1) s))"

definition split_whitespace :: "string \<Rightarrow> string list" where
  "split_whitespace s = split_ws_from [] s"

lemma length_strip_ws: "length (strip_ws ws s) \<le> length s"
proof (induction ws s rule: strip_ws.induct)
  case (1 ws)
  then show ?case by simp
next
  case (2 ws c s)
  show ?case
  proof (cases "ws_at ws (c # s) = 0")
    case True
    then show ?thesis by simp
  next
    case False
    have "length (strip_ws ws (drop (ws_at ws (c # s) - 1) s))
        \<le> length (drop (ws_at ws (c # s) - 1) s)"
      using "2" False by simp
    also have "\<dots> \<le> length s" by simp
    finally show ?thesis using False by simp
  qed
qed

lemma length_trim_start: "length (trim_start s) \<le> length s"
  by (simp add: trim_start_def length_strip_ws)

lemma length_trim_end: "length (trim_end s) \<le> length s"
  using length_strip_ws [of "map rev ws_seqs" "rev s"] by (simp add: trim_end_def)

lemma length_trim [simp]: "length (trim s) \<le> length s"
  using length_trim_end [of "trim_start s"] length_trim_start [of s] by (simp add: trim_def)

lemma length_trim_drop: "0 < n \<Longrightarrow> s \<noteq> [] \<Longrightarrow> length (trim (drop n s)) < length s"
  by (rule le_less_trans [OF length_trim]) simp

lemma strip_ws_no_ws: "ws_at ws (strip_ws ws s) = 0 \<or> strip_ws ws s = []"
  by (induction ws s rule: strip_ws.induct) (auto simp: Let_def)

lemma strip_ws_id: "s = [] \<or> ws_at ws s = 0 \<Longrightarrow> strip_ws ws s = s"
  by (cases s) auto

lemma strip_ws_idem [simp]: "strip_ws ws (strip_ws ws s) = strip_ws ws s"
  using strip_ws_no_ws [of ws s] by (intro strip_ws_id) auto

lemma strip_ws_suffix: "suffix (strip_ws ws s) s"
proof (induction ws s rule: strip_ws.induct)
  case (1 ws)
  then show ?case by simp
next
  case (2 ws c s)
  show ?case
  proof (cases "ws_at ws (c # s) = 0")
    case False
    have "suffix (strip_ws ws (drop (ws_at ws (c # s) - 1) s)) (drop (ws_at ws (c # s) - 1) s)"
      using "2" False by simp
    then have "suffix (strip_ws ws (drop (ws_at ws (c # s) - 1) s)) s"
      using suffix_drop suffix_order.trans by blast
    with False show ?thesis by (simp add: suffix_ConsI)
  qed simp
qed

text \<open>\<open>trimmed s\<close>: no white space character at either end.\<close>

definition trimmed :: "string \<Rightarrow> bool" where
  "trimmed s \<longleftrightarrow> s = [] \<or> (ws_at ws_seqs s = 0 \<and> ws_at (map rev ws_seqs) (rev s) = 0)"

lemma ws_at_0_iff: "[] \<notin> set ws \<Longrightarrow> ws_at ws s = 0 \<longleftrightarrow> (\<forall>w \<in> set ws. \<not> prefix w s)"
  by (auto simp: ws_at_def find_None_iff find_Some_iff split: option.splits)
    (metis length_0_conv nth_mem)+

lemma ws_seqs_not_Nil [simp]: "[] \<notin> set ws_seqs"
  by (auto simp: ws_seqs_def wide_ws_def)

lemma rev_ws_seqs_not_Nil [simp]: "[] \<notin> set (map rev ws_seqs)"
  by (auto simp: ws_seqs_def wide_ws_def)

lemma trimmed_trim [simp]: "trimmed (trim s)"
proof (cases "trim s = []")
  case True
  then show ?thesis by (simp add: trimmed_def)
next
  case False
  let ?a = "trim_start s"
  have suf: "prefix (trim s) ?a"
    using strip_ws_suffix [of "map rev ws_seqs" "rev ?a"]
    by (simp add: trim_def trim_end_def suffix_to_prefix)
  have "ws_at ws_seqs ?a = 0 \<or> ?a = []"
    unfolding trim_start_def by (rule strip_ws_no_ws)
  with suf False have "ws_at ws_seqs ?a = 0" by auto
  with suf have "ws_at ws_seqs (trim s) = 0"
    by (auto simp: ws_at_0_iff dest: prefix_order.trans)
  moreover have "ws_at (map rev ws_seqs) (rev (trim s)) = 0"
    using strip_ws_no_ws [of "map rev ws_seqs" "rev ?a"] False
    by (auto simp: trim_def trim_end_def)
  ultimately show ?thesis by (simp add: trimmed_def)
qed

lemma trim_id: "trimmed s \<Longrightarrow> trim s = s"
  by (auto simp: trimmed_def trim_def trim_start_def trim_end_def strip_ws_id)

lemma trim_idem [simp]: "trim (trim s) = trim s"
  by (simp add: trim_id)

lemma trim_Nil [simp]: "trim [] = []"
  by (simp add: trim_def trim_start_def trim_end_def)

text \<open>No white space character contains an ASCII letter, so case does not matter.\<close>

lemma lower_char_non_letter: "\<not> is_ascii_upper x \<Longrightarrow> \<not> is_ascii_lower x \<Longrightarrow> lower_char c = x \<longleftrightarrow> c = x"
  by (auto simp: lower_char_def is_ascii_upper_def is_ascii_lower_def)

lemma prefix_lowercase:
  assumes "\<forall>x \<in> set w. \<not> is_ascii_upper x \<and> \<not> is_ascii_lower x"
  shows "prefix w (to_ascii_lowercase s) \<longleftrightarrow> prefix w s"
  using assms
proof (induction w arbitrary: s)
  case Nil
  then show ?case by simp
next
  case (Cons x w)
  then have "x = lower_char c \<longleftrightarrow> x = c" for c
    using lower_char_non_letter [of x c] by auto
  with Cons show ?case
    by (cases s) (simp_all add: to_ascii_lowercase_def)
qed

lemma ws_seqs_non_letter:
  "w \<in> set ws_seqs \<Longrightarrow> x \<in> set w \<Longrightarrow> \<not> is_ascii_upper x \<and> \<not> is_ascii_lower x"
  by (auto simp: ws_seqs_def ascii_ws_def wide_ws_def is_ascii_upper_def is_ascii_lower_def)

lemma trimmed_lowercase: "trimmed s \<Longrightarrow> trimmed (to_ascii_lowercase s)"
proof -
  assume t: "trimmed s"
  have "prefix w (to_ascii_lowercase r) \<longleftrightarrow> prefix w r" if "w \<in> set ws_seqs \<or> rev w \<in> set ws_seqs" for w r
    using that ws_seqs_non_letter [of w] ws_seqs_non_letter [of "rev w"]
    by (intro prefix_lowercase) auto
  moreover have "rev (to_ascii_lowercase s) = to_ascii_lowercase (rev s)"
    by (simp add: to_ascii_lowercase_def rev_map)
  ultimately show ?thesis
    using t ws_at_0_iff [OF ws_seqs_not_Nil] ws_at_0_iff [OF rev_ws_seqs_not_Nil]
    by (auto simp: trimmed_def)
qed

subsection \<open>Tokens\<close>

text \<open>
  The words \<open>split_whitespace\<close> gives back hold no white space character at any position,
  and such words joined by single spaces are split into themselves.
\<close>

definition no_ws :: "string \<Rightarrow> string \<Rightarrow> bool" where
  "no_ws s r \<longleftrightarrow> (\<forall>i < length s. ws_at ws_seqs (drop i s @ r) = 0)"

definition token :: "string \<Rightarrow> bool" where
  "token s \<longleftrightarrow> s \<noteq> [] \<and> no_ws s []"

lemma no_ws_Nil [simp]: "no_ws [] r"
  by (simp add: no_ws_def)

lemma no_ws_Cons: "no_ws (c # s) r \<longleftrightarrow> ws_at ws_seqs (c # s @ r) = 0 \<and> no_ws s r"
  by (auto simp: no_ws_def less_Suc_eq_0_disj)

lemma no_ws_snoc: "no_ws s (c # r) \<Longrightarrow> ws_at ws_seqs (c # r) = 0 \<Longrightarrow> no_ws (s @ [c]) r"
  by (induction s) (auto simp: no_ws_Cons)

lemma no_ws_drop_rest: "no_ws s r \<Longrightarrow> no_ws s []"
  unfolding no_ws_def ws_at_0_iff [OF ws_seqs_not_Nil]
  by (metis append.right_neutral prefixI prefix_order.trans)

lemma split_ws_from_append: "no_ws s r \<Longrightarrow> split_ws_from acc (s @ r) = split_ws_from (rev s @ acc) r"
  by (induction s arbitrary: acc) (simp_all add: no_ws_Cons)

lemma wide_ws_no_space: "w \<in> set wide_ws \<Longrightarrow> CHR '' '' \<notin> set w"
proof -
  have "list_all (\<lambda>w. CHR '' '' \<notin> set w) wide_ws" by code_simp
  then show "w \<in> set wide_ws \<Longrightarrow> CHR '' '' \<notin> set w" by (simp add: list_all_iff)
qed

lemma ascii_ws_eq: "ascii_ws = [CHR 0x09, CHR 0x0A, CHR 0x0B, CHR 0x0C, CHR 0x0D, CHR '' '']"
  by code_simp

lemma no_ws_space: "no_ws s [] \<Longrightarrow> no_ws s (CHR '' '' # r)"
  unfolding no_ws_def ws_at_0_iff [OF ws_seqs_not_Nil]
proof (intro allI impI ballI)
  fix i w assume n: "\<forall>i<length s. \<forall>w\<in>set ws_seqs. \<not> prefix w (drop i s @ [])"
    and i: "i < length s" and w: "w \<in> set ws_seqs"
  show "\<not> prefix w (drop i s @ CHR '' '' # r)"
  proof
    assume p: "prefix w (drop i s @ CHR '' '' # r)"
    have "prefix w (drop i s)"
    proof (cases "length w \<le> length (drop i s)")
      case True
      show ?thesis
        by (rule prefix_length_prefix [OF p, of "drop i s"]) (use True in simp_all)
    next
      case False
      then have "w \<in> set wide_ws" using w i by (auto simp: ws_seqs_def)
      moreover have "prefix (drop i s @ [CHR '' '']) w"
        by (rule prefix_length_prefix [of _ "drop i s @ CHR '' '' # r", OF _ p]) (use False in simp_all)
      then have "CHR '' '' \<in> set w" by (auto simp: prefix_def)
      ultimately show ?thesis using wide_ws_no_space by blast
    qed
    with n i w show False by simp
  qed
qed

lemma split_ws_from_tokens: "no_ws (rev acc) s \<Longrightarrow> t \<in> set (split_ws_from acc s) \<Longrightarrow> token t"
proof (induction acc s rule: split_ws_from.induct)
  case (1 acc)
  then show ?case by (auto simp: token_def split: if_splits)
next
  case (2 acc c s)
  show ?case
  proof (cases "ws_at ws_seqs (c # s) = 0")
    case True
    with 2 no_ws_snoc [of "rev acc" c s] show ?thesis by simp
  next
    case False
    show ?thesis
    proof (cases "acc \<noteq> [] \<and> t = rev acc")
      case True
      then show ?thesis using no_ws_drop_rest [OF "2.prems"(1)] by (simp add: token_def)
    next
      case no: False
      then have "t \<in> set (split_ws_from [] (drop (ws_at ws_seqs (c # s) - 1) s))"
        using "2.prems"(2) False by (auto simp: Let_def split: if_splits)
      with "2.IH"(2) [OF refl False] show ?thesis by simp
    qed
  qed
qed

lemma split_whitespace_tokens: "t \<in> set (split_whitespace s) \<Longrightarrow> token t"
  unfolding split_whitespace_def by (rule split_ws_from_tokens) auto

lemma ws_at_space: "ws_at ws_seqs (CHR '' '' # r) = 1"
  by (simp add: ws_at_def ws_seqs_def ascii_ws_eq)

lemma split_ws_from_token: "token t \<Longrightarrow> split_ws_from [] (t @ CHR '' '' # r) = t # split_ws_from [] r"
  using split_ws_from_append [of t "CHR '' '' # r" "[]"] no_ws_space [of t r]
  by (simp add: token_def ws_at_space)

lemma split_whitespace_join:
  "\<forall>t \<in> set ts. token t \<Longrightarrow> split_whitespace (join '' '' ts) = ts"
proof (induction ts rule: induct_list012)
  case (2 t)
  then show ?case
    using split_ws_from_append [of t "[]" "[]"] by (simp add: split_whitespace_def token_def)
next
  case (3 t u ts)
  then show ?case using split_ws_from_token [of t] by (simp add: split_whitespace_def)
qed (simp add: split_whitespace_def)

section \<open>Characters of a valid UTF-8 string\<close>

text \<open>
  \<^verbatim>\<open>str::chars\<close>: a lead byte with the continuation bytes (128 to 191) that follow it.
  On the valid UTF-8 that a Rust \<^verbatim>\<open>str\<close> holds, each element is one character.
\<close>

definition is_cont :: "char \<Rightarrow> bool" where
  "is_cont c \<longleftrightarrow> 128 \<le> byte c \<and> byte c < 192"

function chars :: "string \<Rightarrow> string list" where
  "chars [] = []"
| "chars (c # s) = (c # takeWhile is_cont s) # chars (dropWhile is_cont s)"
  by pat_completeness auto
termination
  by (relation "measure length") (auto simp: le_imp_less_Suc length_dropWhile_le)

lemma concat_chars [simp]: "concat (chars s) = s"
  by (induction s rule: chars.induct) auto

text \<open>\<^verbatim>\<open>replace\<close> of one byte by a string, as \<^verbatim>\<open>str::replace\<close> with a one-character pattern.\<close>

definition replace_char :: "char \<Rightarrow> string \<Rightarrow> string \<Rightarrow> string" where
  "replace_char c r s = concat (map (\<lambda>x. if x = c then r else [x]) s)"

section \<open>Decimal numbers\<close>

text \<open>\<^verbatim>\<open>{}\<close> on an unsigned integer, and \<^verbatim>\<open>{:02}\<close>, \<^verbatim>\<open>{:2}\<close>.\<close>

definition digit_char :: "nat \<Rightarrow> char" where
  "digit_char d = char_of (48 + d)"

fun show_nat :: "nat \<Rightarrow> string" where
  "show_nat n = (if n < 10 then [digit_char n] else show_nat (n div 10) @ [digit_char (n mod 10)])"

declare show_nat.simps [simp del]

definition show_int :: "int \<Rightarrow> string" where
  "show_int i = (if i < 0 then CHR ''-'' # show_nat (nat (- i)) else show_nat (nat i))"

definition pad_left :: "char \<Rightarrow> nat \<Rightarrow> string \<Rightarrow> string" where
  "pad_left c w s = replicate (w - length s) c @ s"

text \<open>\<^verbatim>\<open>usize::from_str\<close>: digits with an optional plus sign, within 64 bits.\<close>

fun digits_value :: "nat \<Rightarrow> string \<Rightarrow> nat option" where
  "digits_value acc [] = Some acc"
| "digits_value acc (c # s) =
     (if is_ascii_digit c then digits_value (10 * acc + (byte c - 48)) s else None)"

definition parse_usize :: "string \<Rightarrow> nat option" where
  "parse_usize s =
     (let d = (case s of c # r \<Rightarrow> if c = CHR ''+'' then r else s | [] \<Rightarrow> []) in
      if d = [] then None
      else (case digits_value 0 d of
              Some n \<Rightarrow> if n < 2 ^ 64 then Some n else None
            | None \<Rightarrow> None))"

lemma digits_value_append:
  "digits_value acc (a @ b) = (case digits_value acc a of Some n \<Rightarrow> digits_value n b | None \<Rightarrow> None)"
  by (induction a arbitrary: acc) auto

lemma is_ascii_digit_digit_char [simp]: "d < 10 \<Longrightarrow> is_ascii_digit (digit_char d)"
  by (simp add: is_ascii_digit_def digit_char_def)

lemma byte_digit_char [simp]: "d < 10 \<Longrightarrow> byte (digit_char d) = 48 + d"
  by (simp add: digit_char_def)

lemma show_nat_not_Nil [simp]: "show_nat n \<noteq> []"
  by (subst show_nat.simps) simp

lemma digits_value_show_nat: "digits_value 0 (show_nat n) = Some n"
proof (induction n rule: show_nat.induct)
  case (1 n)
  show ?case
  proof (cases "n < 10")
    case True
    then show ?thesis by (subst show_nat.simps) simp
  next
    case False
    with "1" show ?thesis
      by (subst show_nat.simps) (simp add: digits_value_append)
  qed
qed

lemma show_nat_digits: "c \<in> set (show_nat n) \<Longrightarrow> is_ascii_digit c"
proof (induction n rule: show_nat.induct)
  case (1 n)
  then show ?case
    by (cases "n < 10") (auto simp: show_nat.simps [of n])
qed

lemma show_nat_inj [simp]: "show_nat m = show_nat n \<longleftrightarrow> m = n"
proof
  assume "show_nat m = show_nat n"
  then have "digits_value 0 (show_nat m) = digits_value 0 (show_nat n)" by simp
  then show "m = n" by (simp add: digits_value_show_nat)
qed simp

lemma parse_usize_show_nat: "n < 2 ^ 64 \<Longrightarrow> parse_usize (show_nat n) = Some n"
proof -
  assume n: "n < 2 ^ 64"
  obtain c r where eq: "show_nat n = c # r"
    by (cases "show_nat n") auto
  then have "is_ascii_digit c"
    using show_nat_digits [of c n] by simp
  then have "c \<noteq> CHR ''+''"
    by (auto simp: is_ascii_digit_def byte_def)
  with n eq digits_value_show_nat [of n] show ?thesis
    by (simp add: parse_usize_def)
qed

section \<open>Substring replacement and lines\<close>

text \<open>\<^verbatim>\<open>str::replace\<close> with a non-empty pattern.\<close>

fun replace_sub :: "string \<Rightarrow> string \<Rightarrow> string \<Rightarrow> string" where
  "replace_sub p r [] = []"
| "replace_sub p r (c # s) =
     (if p \<noteq> [] \<and> prefix p (c # s) then r @ replace_sub p r (drop (length p - 1) s)
      else c # replace_sub p r s)"

text \<open>
  \<^verbatim>\<open>str::lines\<close>: a line feed ends a line and takes a carriage return before it along; the
  text after the last line feed is a line when it is not empty.
\<close>

definition strip_cr :: "string \<Rightarrow> string" where
  "strip_cr s = (if s \<noteq> [] \<and> last s = CHR 0x0D then butlast s else s)"

definition lines :: "string \<Rightarrow> string list" where
  "lines s =
     (let ps = split_on (CHR 0x0A) s
      in map strip_cr (butlast ps) @ (if last ps = [] then [] else [last ps]))"

lemma strip_cr_snoc [simp]: "strip_cr (s @ [CHR 0x0D]) = s"
  by (simp add: strip_cr_def)

lemma lines_Nil [simp]: "lines [] = []"
  by (simp add: lines_def)

lemma lines_Cons:
  assumes "CHR 0x0A \<notin> set a"
  shows "lines (a @ CHR 0x0A # s) = strip_cr a # lines s"
  using assms by (simp add: lines_def Let_def split_on_append)

lemma lines_crlf:
  assumes "CHR 0x0A \<notin> set a"
  shows "lines (a @ CHR 0x0D # CHR 0x0A # s) = a # lines s"
  using assms lines_Cons [of "a @ [CHR 0x0D]" s] by simp

lemma lines_last: "CHR 0x0A \<notin> set a \<Longrightarrow> a \<noteq> [] \<Longrightarrow> lines a = [a]"
  by (simp add: lines_def split_on_free)

text \<open>Printable ASCII in front of a text that ends without white space ends without it too.\<close>

definition plain_char :: "char \<Rightarrow> bool" where
  "plain_char c \<longleftrightarrow> 32 < byte c \<and> byte c < 127"

lemma plain_char_ws:
  assumes "plain_char c" "w \<in> set ws_seqs"
  shows "c \<notin> set w"
proof
  assume c: "c \<in> set w"
  have "list_all (\<lambda>w. list_all (\<lambda>c. byte c \<le> 32 \<or> 127 \<le> byte c) w) ws_seqs"
    by code_simp
  then have "byte c \<le> 32 \<or> 127 \<le> byte c"
    using c assms(2) by (fastforce simp: list_all_iff)
  with assms(1) show False by (auto simp: plain_char_def)
qed

lemma ws_at_plain: "plain_char c \<Longrightarrow> ws_at ws_seqs (c # s) = 0"
proof -
  assume c: "plain_char c"
  have "\<not> prefix w (c # s)" if w: "w \<in> set ws_seqs" for w
  proof
    assume "prefix w (c # s)"
    with w have "w \<noteq> []" using ws_seqs_not_Nil by metis
    with \<open>prefix w (c # s)\<close> have "c \<in> set w" by (cases w) auto
    with plain_char_ws [OF c w] show False ..
  qed
  then show ?thesis by (simp add: ws_at_0_iff)
qed

lemma trimmed_plain_prefix:
  assumes "a \<noteq> []" "\<forall>c \<in> set a. plain_char c" and "ws_at (map rev ws_seqs) (rev b) = 0 \<or> b = []"
  shows "trimmed (a @ b)"
proof -
  have "ws_at ws_seqs (a @ b) = 0"
    using assms(1,2) ws_at_plain [of "hd a" "tl a @ b"] by (cases a) auto
  moreover have "\<not> prefix (rev w) (rev b @ rev a)" if w: "w \<in> set ws_seqs" for w
  proof
    assume p: "prefix (rev w) (rev b @ rev a)"
    have "w \<noteq> []" using w ws_seqs_not_Nil by metis
    show False
    proof (cases "length w \<le> length b")
      case True
      have "prefix (rev w) (rev b)"
        by (rule prefix_length_prefix [OF p]) (use True in simp_all)
      with assms(3) w \<open>w \<noteq> []\<close> show False
        using ws_at_0_iff [OF rev_ws_seqs_not_Nil] by auto
    next
      case False
      have "prefix (rev b @ [last a]) (rev w)"
      proof (rule prefix_length_prefix [OF _ p])
        show "prefix (rev b @ [last a]) (rev b @ rev a)"
          using assms(1) by (cases a rule: rev_cases) simp_all
      qed (use False in simp)
      then have "set (rev b @ [last a]) \<subseteq> set (rev w)" by (rule set_mono_prefix)
      then have "last a \<in> set w" by simp
      with plain_char_ws [OF _ w] assms(1,2) show False by simp
    qed
  qed
  ultimately show ?thesis
    using ws_at_0_iff [OF rev_ws_seqs_not_Nil] by (auto simp: trimmed_def)
qed

lemma trim_plain_prefix:
  "a \<noteq> [] \<Longrightarrow> \<forall>c \<in> set a. plain_char c \<Longrightarrow> trimmed b \<Longrightarrow> trim (a @ b) = a @ b"
  by (rule trim_id, rule trimmed_plain_prefix) (auto simp: trimmed_def)

section \<open>Batches and punctuation\<close>

text \<open>\<^verbatim>\<open>slice::chunks\<close>, with a size of at least one.\<close>

function chunks :: "nat \<Rightarrow> 'a list \<Rightarrow> 'a list list" where
  "chunks n xs = (if xs = [] then [] else take (max n 1) xs # chunks n (drop (max n 1) xs))"
  by pat_completeness auto
termination
  by (relation "measure (length \<circ> snd)") (auto simp: less_diff_conv)

declare chunks.simps [simp del]

lemma concat_chunks: "concat (chunks n xs) = xs"
proof (induction n xs rule: chunks.induct)
  case (1 n xs)
  then show ?case by (subst chunks.simps) (auto simp: append_take_drop_id)
qed

lemma length_chunks: "b \<in> set (chunks n xs) \<Longrightarrow> length b \<le> max n 1"
proof (induction n xs rule: chunks.induct)
  case (1 n xs)
  then show ?case
    by (cases "xs = []") (auto simp: chunks.simps [of n xs] chunks.simps [of n "[]"])
qed

definition crlf :: string where
  "crlf = [CHR 0x0D, CHR 0x0A]"

definition dquote :: "string \<Rightarrow> string" where
  "dquote s = [CHR 0x22] @ s @ [CHR 0x22]"

definition backslash :: char where
  "backslash = CHR 0x5C"

lemma length_show_nat: "n < 10 ^ Suc k \<Longrightarrow> length (show_nat n) \<le> Suc k"
proof (induction k arbitrary: n)
  case (Suc k)
  then show ?case by (cases "n < 10") (auto simp: show_nat.simps [of n])
qed (simp add: show_nat.simps)

end
