(* ===== verification/Store_Schema.thy ===== *)
theory Store_Schema
  imports Sql_Table Rust_Str
begin

text \<open>
  The rows and errors of crates/inbx-store: the structs of src/lib.rs and the tables its
  migrations create. An \<^verbatim>\<open>i64\<close> column is an \<open>int\<close>; a nullable column is an \<open>option\<close>.
  A \<open>message_row\<close> is the Rust struct \<^verbatim>\<open>MessageRow\<close>; the table adds the row id (column
  \<^verbatim>\<open>id\<close>), the first component of a row of \<open>messages\<close>. The record \<open>db\<close> is one account's
  index.sqlite.
\<close>

datatype store_error =
    Io
  | ThreadRoot string
  | Sqlx
  | InvalidSnapshot string
  | UnreservedSnapshotGeneration string int
  | FolderNotFound string

type_synonym 'a result = "store_error + 'a"

text \<open>\<^verbatim>\<open>e?\<close> followed by the rest of the function: the first error is returned.\<close>

definition and_then :: "'e + 'a \<Rightarrow> ('a \<Rightarrow> 'e + 'b) \<Rightarrow> 'e + 'b" where
  "and_then x f = (case x of Inl e \<Rightarrow> Inl e | Inr a \<Rightarrow> f a)"

lemma and_then_simps [simp]:
  "and_then (Inl e) f = Inl e"
  "and_then (Inr a) f = f a"
  by (simp_all add: and_then_def)

lemma and_then_Inr: "and_then x f = Inr b \<longleftrightarrow> (\<exists>a. x = Inr a \<and> f a = Inr b)"
  by (cases x) auto

text \<open>A \<^verbatim>\<open>for\<close> loop whose body may return an error.\<close>

fun for_each :: "('x \<Rightarrow> 's \<Rightarrow> 'e + 's) \<Rightarrow> 'x list \<Rightarrow> 's \<Rightarrow> 'e + 's" where
  "for_each f [] s = Inr s"
| "for_each f (x # xs) s = and_then (f x s) (for_each f xs)"

lemma for_each_invariant:
  assumes "for_each f xs s = Inr s'" and "I s"
    and "\<And>x s s'. x \<in> set xs \<Longrightarrow> I s \<Longrightarrow> f x s = Inr s' \<Longrightarrow> I s'"
  shows "I s'"
  using assms by (induction xs arbitrary: s) (auto simp: and_then_Inr)

record folder_row =
  fname :: string
  delim :: "string option"
  special_use :: "string option"
  attrs :: "string option"
  folder_uidvalidity :: "int option"
  uidnext :: "int option"
  delta_link :: "string option"
  last_sync_unix :: "int option"
  snapshot_generation :: int
  latest_reserved_generation :: int

record message_row =
  folder :: string
  uid :: int
  uidvalidity :: int
  message_id :: "string option"
  subject :: "string option"
  from_addr :: "string option"
  to_addrs :: "string option"
  date_unix :: "int option"
  flags :: string
  maildir_path :: "string option"
  headers_only :: int
  fetched_at_unix :: int
  in_reply_to :: "string option"
  refs :: "string option"
  thread_id :: "string option"
  provider_id :: "string option"

record outbox_row =
  enqueued_unix :: int
  raw :: string
  attempts :: int
  next_retry_unix :: int
  last_error :: "string option"

record fts_row =
  fts_rowid :: int
  fts_subject :: string
  fts_from_addr :: string
  fts_to_addrs :: string
  fts_body :: string

record container =
  cid :: string
  parent_id :: "string option"
  root_id :: string
  subject_norm :: "string option"
  has_message :: bool

record db =
  folders :: "folder_row table"
  messages :: "message_row table"
  messages_fts :: "fts_row list"
  outbox :: "outbox_row table"
  containers :: "container table"

definition empty_db :: db where
  "empty_db = \<lparr>folders = [], messages = [], messages_fts = [], outbox = [], containers = []\<rparr>"

text \<open>The UNIQUE constraint of \<open>messages\<close>.\<close>

definition message_key :: "message_row \<Rightarrow> string \<times> int \<times> int" where
  "message_key m = (folder m, uid m, uidvalidity m)"

text \<open>
  The trigger \<^verbatim>\<open>messages_delete_fts\<close> of migration 0007 drops the search entry of every
  deleted message, so a DELETE on \<open>messages\<close> is this statement.
\<close>

definition delete_messages_where :: "(message_row \<Rightarrow> bool) \<Rightarrow> db \<Rightarrow> db" where
  "delete_messages_where P d =
     (let gone = map fst (filter (\<lambda>(i, m). P m) (messages d)) in
      d\<lparr>messages := delete_where P (messages d),
        messages_fts := filter (\<lambda>f. fts_rowid f \<notin> set gone) (messages_fts d)\<rparr>)"

definition update_messages_where ::
  "(message_row \<Rightarrow> bool) \<Rightarrow> (message_row \<Rightarrow> message_row) \<Rightarrow> db \<Rightarrow> db" where
  "update_messages_where P f d = d\<lparr>messages := update_where P f (messages d)\<rparr>"

text \<open>
  What the schema itself guarantees of a database: the UNIQUE and PRIMARY KEY
  constraints, and, by the trigger, that every search entry belongs to a stored message.
\<close>

definition fts_ok :: "db \<Rightarrow> bool" where
  "fts_ok d \<longleftrightarrow> fts_rowid ` set (messages_fts d) \<subseteq> fst ` set (messages d)"

definition schema_ok :: "db \<Rightarrow> bool" where
  "schema_ok d \<longleftrightarrow>
     table_ok fname (folders d) \<and> table_ok message_key (messages d) \<and>
     table_ok cid (containers d) \<and> distinct (map fst (outbox d)) \<and> fts_ok d"

lemma messages_delete_messages_where [simp]:
  "messages (delete_messages_where P d) = delete_where P (messages d)"
  by (simp add: delete_messages_where_def Let_def)

lemma other_tables_delete_messages_where [simp]:
  "folders (delete_messages_where P d) = folders d"
  "outbox (delete_messages_where P d) = outbox d"
  "containers (delete_messages_where P d) = containers d"
  by (simp_all add: delete_messages_where_def Let_def)

lemma update_messages_where_simps [simp]:
  "messages (update_messages_where P f d) = update_where P f (messages d)"
  "folders (update_messages_where P f d) = folders d"
  "outbox (update_messages_where P f d) = outbox d"
  "containers (update_messages_where P f d) = containers d"
  "messages_fts (update_messages_where P f d) = messages_fts d"
  by (simp_all add: update_messages_where_def)

lemma fts_ok_delete [intro]:
  assumes "fts_ok d"
  shows "fts_ok (delete_messages_where P d)"
proof -
  have "fts_rowid f \<in> fst ` set (delete_where P (messages d))"
    if f: "f \<in> set (messages_fts d)"
      and g: "fts_rowid f \<notin> fst ` {x \<in> set (messages d). P (snd x)}" for f
  proof -
    from assms f obtain m where "(fts_rowid f, m) \<in> set (messages d)"
      by (force simp: fts_ok_def)
    moreover from this g have "\<not> P m" by force
    ultimately show ?thesis by (force simp: delete_where_def)
  qed
  then show ?thesis
    by (auto simp: fts_ok_def delete_messages_where_def Let_def split_beta)
qed

lemma fts_ok_same_ids:
  "fts_ok d \<Longrightarrow> messages_fts d' = messages_fts d \<Longrightarrow> fst ` set (messages d) \<subseteq> fst ` set (messages d')
    \<Longrightarrow> fts_ok d'"
  by (auto simp: fts_ok_def)

lemma schema_ok_empty [simp]: "schema_ok empty_db"
  by (simp add: schema_ok_def empty_db_def fts_ok_def)

lemma schema_ok_delete_messages [intro]: "schema_ok d \<Longrightarrow> schema_ok (delete_messages_where P d)"
  by (auto simp: schema_ok_def)

lemma fst_image_update_where [simp]: "fst ` set (update_where P f t) = fst ` set t"
  by (force simp: update_where_def)

lemma schema_ok_update_messages:
  assumes "schema_ok d" and "\<And>m. m \<in> set (rows_of (messages d)) \<Longrightarrow> P m \<Longrightarrow> message_key (f m) = message_key m"
  shows "schema_ok (update_messages_where P f d)"
  using assms by (auto simp: schema_ok_def fts_ok_def)

text \<open>The two ways a statement rewrites one table without touching the search index.\<close>

lemma schema_ok_messages:
  assumes "schema_ok d" and "table_ok message_key t" and "fst ` set (messages d) \<subseteq> fst ` set t"
  shows "schema_ok (d\<lparr>messages := t\<rparr>)"
proof -
  have "fts_rowid ` set (messages_fts d) \<subseteq> fst ` set (messages d)"
    using assms(1) by (simp add: schema_ok_def fts_ok_def)
  also note assms(3)
  finally show ?thesis using assms(1,2) by (simp add: schema_ok_def fts_ok_def)
qed

lemma schema_ok_folders:
  "schema_ok d \<Longrightarrow> table_ok fname t \<Longrightarrow> schema_ok (d\<lparr>folders := t\<rparr>)"
  by (simp add: schema_ok_def fts_ok_def)

lemma schema_ok_outbox:
  "schema_ok d \<Longrightarrow> distinct (map fst t) \<Longrightarrow> schema_ok (d\<lparr>outbox := t\<rparr>)"
  by (simp add: schema_ok_def fts_ok_def)

lemma schema_ok_containers:
  "schema_ok d \<Longrightarrow> table_ok cid t \<Longrightarrow> schema_ok (d\<lparr>containers := t\<rparr>)"
  by (simp add: schema_ok_def fts_ok_def)

lemma schema_ok_tables:
  assumes "schema_ok d"
  shows "table_ok fname (folders d)" "table_ok message_key (messages d)" "table_ok cid (containers d)"
  using assms by (simp_all add: schema_ok_def)

end
