(* ===== verification/Store_Snapshot.thy ===== *)
theory Store_Snapshot
  imports Store_Schema "HOL-Library.Product_Lexorder"
begin

unbundle bit_operations_syntax

text \<open>
  Folder snapshots (crates/inbx-store/src/lib.rs): \<^verbatim>\<open>reserve_snapshot_generation\<close> and
  \<^verbatim>\<open>apply_snapshot\<close>. A snapshot is a provider's header listing of one folder. The body of
  \<^verbatim>\<open>apply_snapshot\<close> is one transaction; its stages are one definition each, in the code's
  order, and an error at any stage gives back the database the transaction began with.
\<close>

section \<open>Types\<close>

datatype snapshot_transport = Imap int | Opaque

fun transport_uidvalidity :: "snapshot_transport \<Rightarrow> int" where
  "transport_uidvalidity (Imap uv) = uv"
| "transport_uidvalidity Opaque = 0"

record snapshot_header =
  h_uid :: int
  h_uidvalidity :: int
  h_message_id :: "string option"
  h_subject :: "string option"
  h_from_addr :: "string option"
  h_to_addrs :: "string option"
  h_date_unix :: "int option"
  h_flags :: string
  h_fetched_at_unix :: int
  h_provider_id :: "string option"

record snapshot_input =
  in_folder :: string
  generation :: int
  complete :: bool
  transport :: snapshot_transport
  in_rows :: "snapshot_header list"

record snapshot_output =
  applied :: bool
  new_rows :: "snapshot_header list"

section \<open>Reserving a generation\<close>

definition blank_folder :: "string \<Rightarrow> folder_row" where
  "blank_folder f =
     \<lparr>fname = f, delim = None, special_use = None, attrs = None, folder_uidvalidity = None,
      uidnext = None, delta_link = None, last_sync_unix = None,
      snapshot_generation = 0, latest_reserved_generation = 0\<rparr>"

definition merge_reserve :: "folder_row \<Rightarrow> folder_row \<Rightarrow> folder_row" where
  "merge_reserve new old = old\<lparr>latest_reserved_generation := latest_reserved_generation old + 1\<rparr>"

definition folder_of :: "db \<Rightarrow> string \<Rightarrow> folder_row option" where
  "folder_of d f = lookup_key fname f (folders d)"

definition reserve_snapshot_generation :: "string \<Rightarrow> db \<Rightarrow> db \<times> int" where
  "reserve_snapshot_generation f d =
     (let d' = d\<lparr>folders := upsert fname merge_reserve
                  ((blank_folder f)\<lparr>latest_reserved_generation := 1\<rparr>) (folders d)\<rparr>
      in (d', case folder_of d' f of Some r \<Rightarrow> latest_reserved_generation r | None \<Rightarrow> 0))"

section \<open>The stages of apply\_snapshot\<close>

text \<open>Validation of an opaque listing: every row has a provider id, ids and uids are distinct.\<close>

fun validate_opaque :: "string list \<Rightarrow> int list \<Rightarrow> snapshot_header list \<Rightarrow> unit result" where
  "validate_opaque ps us [] = Inr ()"
| "validate_opaque ps us (h # hs) =
     (case h_provider_id h of
        None \<Rightarrow> Inl (InvalidSnapshot ''opaque snapshot is missing a provider id'')
      | Some p \<Rightarrow>
          if p \<in> set ps then Inl (InvalidSnapshot ''opaque snapshot has duplicate provider ids'')
          else if h_uid h \<in> set us then
            Inl (InvalidSnapshot ''opaque snapshot has duplicate canonical uids'')
          else validate_opaque (p # ps) (h_uid h # us) hs)"

definition validate_rows :: "snapshot_input \<Rightarrow> unit result" where
  "validate_rows inp =
     (if transport inp = Opaque then validate_opaque [] [] (in_rows inp) else Inr ())"

definition message_id_count :: "snapshot_header list \<Rightarrow> string \<Rightarrow> nat" where
  "message_id_count hs i = length (filter (\<lambda>h. h_message_id h = Some i) hs)"

text \<open>\<open>Inr True\<close>: apply; \<open>Inr False\<close>: superseded, nothing is applied.\<close>

definition check_generation :: "string \<Rightarrow> int \<Rightarrow> db \<Rightarrow> bool result" where
  "check_generation f g d =
     (case folder_of d f of
        None \<Rightarrow> Inl (UnreservedSnapshotGeneration f g)
      | Some r \<Rightarrow>
          if g \<le> 0 then Inl (UnreservedSnapshotGeneration f g)
          else if g < latest_reserved_generation r \<or> g \<le> snapshot_generation r then Inr False
          else if g > latest_reserved_generation r then Inl (UnreservedSnapshotGeneration f g)
          else Inr True)"

definition folder_provider_ids :: "string \<Rightarrow> db \<Rightarrow> string list" where
  "folder_provider_ids f d =
     map (\<lambda>m. the (provider_id m))
       (select_where (\<lambda>m. folder m = f \<and> provider_id m \<noteq> None) (messages d))"

text \<open>\<^verbatim>\<open>COALESCE(MAX(uid), 0)\<close>.\<close>

definition folder_old_max :: "string \<Rightarrow> int \<Rightarrow> db \<Rightarrow> int" where
  "folder_old_max f uv d =
     (case map uid (select_where (\<lambda>m. folder m = f \<and> uidvalidity m = uv) (messages d)) of
        [] \<Rightarrow> 0 | u # us \<Rightarrow> fold max us u)"

text \<open>An IMAP folder whose UIDVALIDITY changed is emptied; then the folder row is written.\<close>

definition wipe_on_uidvalidity_change :: "snapshot_input \<Rightarrow> db \<Rightarrow> db" where
  "wipe_on_uidvalidity_change inp d =
     (case transport inp of
        Opaque \<Rightarrow> d
      | Imap uv \<Rightarrow>
          (case Option.bind (folder_of d (in_folder inp)) folder_uidvalidity of
             None \<Rightarrow> d
           | Some old \<Rightarrow>
               if old \<noteq> uv then delete_messages_where (\<lambda>m. folder m = in_folder inp) d else d))"

definition merge_snapshot_folder :: "folder_row \<Rightarrow> folder_row \<Rightarrow> folder_row" where
  "merge_snapshot_folder new old =
     old\<lparr>folder_uidvalidity := folder_uidvalidity new,
         snapshot_generation := snapshot_generation new\<rparr>"

definition record_generation :: "snapshot_input \<Rightarrow> db \<Rightarrow> db" where
  "record_generation inp d =
     d\<lparr>folders := upsert fname merge_snapshot_folder
        ((blank_folder (in_folder inp))
           \<lparr>folder_uidvalidity := Some (transport_uidvalidity (transport inp)),
            snapshot_generation := generation inp,
            latest_reserved_generation := generation inp\<rparr>) (folders d)\<rparr>"

subsection \<open>Opaque rows: re-keying\<close>

text \<open>
  \<^verbatim>\<open>(row.uid as u64 & u32::MAX as u64) as i64\<close> and \<^verbatim>\<open>row.uid ^ index as i64\<close>: on an
  \<^verbatim>\<open>i64\<close> the two's complement operations of \<open>int\<close> give the same value.
\<close>

definition low_uid :: "int \<Rightarrow> int" where
  "low_uid u = u AND 0xFFFFFFFF"

definition xor_uid :: "int \<Rightarrow> nat \<Rightarrow> int" where
  "xor_uid u i = u XOR int i"

definition legacy_candidates ::
  "string \<Rightarrow> snapshot_header list \<Rightarrow> nat \<Rightarrow> snapshot_header \<Rightarrow> db \<Rightarrow> message_row list" where
  "legacy_candidates f hs index h d =
     (let uid_match = (\<lambda>m. uid m = h_uid h \<or> uid m = low_uid (h_uid h) \<or> uid m = xor_uid (h_uid h) index);
          unique_id = (case h_message_id h of None \<Rightarrow> False | Some i \<Rightarrow> message_id_count hs i = 1)
      in select_where
           (\<lambda>m. folder m = f \<and> provider_id m = None \<and>
                ((unique_id \<and> message_id m = h_message_id h) \<or> uid_match m))
           (messages d))"

text \<open>
  \<^verbatim>\<open>ORDER BY (maildir_path IS NOT NULL) DESC, headers_only ASC, fetched_at_unix DESC,
  uid DESC LIMIT 1\<close>: the smallest rank.
\<close>

definition keeper_rank :: "message_row \<Rightarrow> int \<times> int \<times> int \<times> int" where
  "keeper_rank m =
     (if maildir_path m \<noteq> None then 0 else 1, headers_only m, - fetched_at_unix m, - uid m)"

definition keeper_of :: "string \<Rightarrow> string \<Rightarrow> db \<Rightarrow> message_row option" where
  "keeper_of f p d =
     (case sort_key keeper_rank
             (select_where (\<lambda>m. folder m = f \<and> provider_id m = Some p) (messages d)) of
        [] \<Rightarrow> None | m # _ \<Rightarrow> Some m)"

text \<open>\<^verbatim>\<open>UPDATE messages SET ... WHERE folder, uid and uidvalidity\<close> of one row.\<close>

definition rekey_message ::
  "string \<times> int \<times> int \<Rightarrow> (message_row \<Rightarrow> message_row) \<Rightarrow> db \<Rightarrow> db result" where
  "rekey_message k f d =
     (case update_unique message_key (\<lambda>m. message_key m = k) f (messages d) of
        None \<Rightarrow> Inl Sqlx
      | Some t \<Rightarrow> Inr (d\<lparr>messages := t\<rparr>))"

definition merge_legacy ::
  "string \<Rightarrow> snapshot_header list \<Rightarrow> nat \<Rightarrow> snapshot_header \<Rightarrow> string \<Rightarrow> db \<times> string list \<Rightarrow>
   (db \<times> string list) result" where
  "merge_legacy f hs index h p s =
     (let (d, reconciled) = s in
      case legacy_candidates f hs index h d of
        [m] \<Rightarrow>
          and_then
            (rekey_message (f, uid m, uidvalidity m)
               (\<lambda>r. r\<lparr>uid := h_uid h, uidvalidity := h_uidvalidity h, provider_id := Some p\<rparr>)
               (delete_messages_where (\<lambda>r. folder r = f \<and> provider_id r = Some p) d))
            (\<lambda>d'. Inr (d', p # reconciled))
      | _ \<Rightarrow> Inr (d, reconciled))"

definition collapse_duplicates :: "string \<Rightarrow> snapshot_header \<Rightarrow> string \<Rightarrow> db \<Rightarrow> db result" where
  "collapse_duplicates f h p d =
     (case keeper_of f p d of
        None \<Rightarrow> Inr d
      | Some k \<Rightarrow>
          let d' = delete_messages_where
                (\<lambda>r. folder r = f \<and> provider_id r = Some p \<and>
                     \<not> (uid r = uid k \<and> uidvalidity r = uidvalidity k)) d
          in if uid k \<noteq> h_uid h \<or> uidvalidity k \<noteq> h_uidvalidity h
             then rekey_message (f, uid k, uidvalidity k)
                    (\<lambda>r. r\<lparr>uid := h_uid h, uidvalidity := h_uidvalidity h\<rparr>) d'
             else Inr d')"

text \<open>
  One turn of the loop over the opaque rows. The provider id is there: the code says
  \<^verbatim>\<open>expect("validated above")\<close>, and \<open>validate_rows\<close> has returned by then.
\<close>

definition reconcile_row ::
  "string \<Rightarrow> snapshot_header list \<Rightarrow> nat \<times> snapshot_header \<Rightarrow> db \<times> string list \<Rightarrow>
   (db \<times> string list) result" where
  "reconcile_row f hs ih s =
     (let (index, h) = ih in
      case h_provider_id h of
        None \<Rightarrow> Inr s
      | Some p \<Rightarrow>
          and_then (merge_legacy f hs index h p s)
            (\<lambda>(d, reconciled). and_then (collapse_duplicates f h p d) (\<lambda>d'. Inr (d', reconciled))))"

definition reconcile_opaque :: "snapshot_input \<Rightarrow> db \<Rightarrow> (db \<times> string list) result" where
  "reconcile_opaque inp d =
     (if transport inp = Opaque
      then for_each (reconcile_row (in_folder inp) (in_rows inp)) (enumerate 0 (in_rows inp)) (d, [])
      else Inr (d, []))"

subsection \<open>Writing the headers, pruning, reporting\<close>

definition header_message :: "string \<Rightarrow> snapshot_header \<Rightarrow> message_row" where
  "header_message f h =
     \<lparr>folder = f, uid = h_uid h, uidvalidity = h_uidvalidity h, message_id = h_message_id h,
      subject = h_subject h, from_addr = h_from_addr h, to_addrs = h_to_addrs h,
      date_unix = h_date_unix h, flags = h_flags h, maildir_path = None, headers_only = 1,
      fetched_at_unix = h_fetched_at_unix h, in_reply_to = None, refs = None, thread_id = None,
      provider_id = h_provider_id h\<rparr>"

definition merge_header :: "message_row \<Rightarrow> message_row \<Rightarrow> message_row" where
  "merge_header new old =
     old\<lparr>message_id := message_id new, subject := subject new, from_addr := from_addr new,
         to_addrs := to_addrs new, date_unix := date_unix new, flags := flags new,
         headers_only := min (headers_only new) (headers_only old),
         fetched_at_unix := fetched_at_unix new,
         provider_id := coalesce (provider_id new) (provider_id old)\<rparr>"

definition upsert_header :: "string \<Rightarrow> snapshot_header \<Rightarrow> db \<Rightarrow> db" where
  "upsert_header f h d =
     d\<lparr>messages := upsert message_key merge_header (header_message f h) (messages d)\<rparr>"

definition upsert_headers :: "string \<Rightarrow> snapshot_header list \<Rightarrow> db \<Rightarrow> db" where
  "upsert_headers f hs d = fold (upsert_header f) hs d"

definition prune_imap :: "string \<Rightarrow> int \<Rightarrow> snapshot_header list \<Rightarrow> db \<Rightarrow> db" where
  "prune_imap f uv hs d =
     (let existing = map uid (select_where (\<lambda>m. folder m = f \<and> uidvalidity m = uv) (messages d));
          gone = filter (\<lambda>u. u \<notin> h_uid ` set hs) existing
      in fold (\<lambda>u. delete_messages_where (\<lambda>m. folder m = f \<and> uid m = u \<and> uidvalidity m = uv)) gone d)"

definition prune_opaque :: "string \<Rightarrow> string list \<Rightarrow> snapshot_header list \<Rightarrow> db \<Rightarrow> db" where
  "prune_opaque f old_ids hs d =
     fold (\<lambda>p. delete_messages_where (\<lambda>m. folder m = f \<and> provider_id m = Some p))
       (filter (\<lambda>p. Some p \<notin> h_provider_id ` set hs) old_ids) d"

definition prune :: "snapshot_input \<Rightarrow> string list \<Rightarrow> db \<Rightarrow> db" where
  "prune inp old_ids d =
     (if complete inp
      then (case transport inp of
              Imap uv \<Rightarrow> prune_imap (in_folder inp) uv (in_rows inp) d
            | Opaque \<Rightarrow> prune_opaque (in_folder inp) old_ids (in_rows inp) d)
      else d)"

definition rows_new :: "snapshot_input \<Rightarrow> string list \<Rightarrow> string list \<Rightarrow> int \<Rightarrow> snapshot_header list" where
  "rows_new inp old_ids reconciled old_max =
     filter
       (\<lambda>h. case transport inp of
              Imap _ \<Rightarrow> h_uid h > old_max
            | Opaque \<Rightarrow>
                (case h_provider_id h of
                   None \<Rightarrow> False | Some p \<Rightarrow> p \<notin> set old_ids \<and> p \<notin> set reconciled))
       (in_rows inp)"

definition set_last_sync :: "string \<Rightarrow> int \<Rightarrow> db \<Rightarrow> db" where
  "set_last_sync f now d =
     d\<lparr>folders := update_where (\<lambda>r. fname r = f) (\<lambda>r. r\<lparr>last_sync_unix := Some now\<rparr>) (folders d)\<rparr>"

definition write_snapshot :: "int \<Rightarrow> snapshot_input \<Rightarrow> db \<Rightarrow> (db \<times> snapshot_output) result" where
  "write_snapshot now inp d =
     (let f = in_folder inp;
          old_ids = folder_provider_ids f d;
          old_max = folder_old_max f (transport_uidvalidity (transport inp)) d;
          d1 = record_generation inp (wipe_on_uidvalidity_change inp d)
      in and_then (reconcile_opaque inp d1)
           (\<lambda>(d2, reconciled).
              let d3 = prune inp old_ids (upsert_headers f (in_rows inp) d2)
              in Inr (set_last_sync f now d3,
                      \<lparr>applied = True, new_rows = rows_new inp old_ids reconciled old_max\<rparr>)))"

text \<open>The transaction: an error or a superseded generation leaves the database alone.\<close>

definition apply_snapshot :: "int \<Rightarrow> snapshot_input \<Rightarrow> db \<Rightarrow> db \<times> snapshot_output result" where
  "apply_snapshot now inp d =
     (case and_then (validate_rows inp) (\<lambda>_. check_generation (in_folder inp) (generation inp) d) of
        Inl e \<Rightarrow> (d, Inl e)
      | Inr False \<Rightarrow> (d, Inr \<lparr>applied = False, new_rows = []\<rparr>)
      | Inr True \<Rightarrow>
          (case write_snapshot now inp d of
             Inl e \<Rightarrow> (d, Inl e)
           | Inr (d', out) \<Rightarrow> (d', Inr out)))"

end
