(* ===== verification/Snapshot_Props.thy ===== *)
theory Snapshot_Props
  imports Store_Snapshot
begin

text \<open>
  Snapshots: the schema's constraints are kept, generations are ordered, a complete
  listing is mirrored exactly, and fetched bodies survive.
\<close>

section \<open>The tables a snapshot writes\<close>

interpretation reserved_folder: keyed_table fname merge_reserve
  by unfold_locales (simp add: merge_reserve_def)

interpretation snapshot_folder: keyed_table fname merge_snapshot_folder
  by unfold_locales (simp add: merge_snapshot_folder_def)

interpretation header_row: keyed_table message_key merge_header
  by unfold_locales (simp add: merge_header_def message_key_def)

lemma message_key_header [simp]:
  "message_key (header_message f h) = (f, h_uid h, h_uidvalidity h)"
  by (simp add: message_key_def header_message_def)

lemma messages_fold_delete:
  "messages (fold (\<lambda>x. delete_messages_where (P x)) xs d) =
     delete_where (\<lambda>m. \<exists>x \<in> set xs. P x m) (messages d)"
  by (induction xs arbitrary: d) (simp_all add: delete_where_delete_where)

lemma fold_delete_other [simp]:
  "folders (fold (\<lambda>x. delete_messages_where (P x)) xs d) = folders d"
  "containers (fold (\<lambda>x. delete_messages_where (P x)) xs d) = containers d"
  "outbox (fold (\<lambda>x. delete_messages_where (P x)) xs d) = outbox d"
  by (induction xs arbitrary: d) simp_all

lemma schema_ok_fold_delete:
  "schema_ok d \<Longrightarrow> schema_ok (fold (\<lambda>x. delete_messages_where (P x)) xs d)"
  by (induction xs arbitrary: d) auto

lemma schema_ok_rekey: "schema_ok d \<Longrightarrow> rekey_message k g d = Inr d' \<Longrightarrow> schema_ok d'"
proof -
  assume d: "schema_ok d" and "rekey_message k g d = Inr d'"
  then obtain t where t: "update_unique message_key (\<lambda>m. message_key m = k) g (messages d) = Some t"
    and d': "d' = d\<lparr>messages := t\<rparr>"
    by (auto simp: rekey_message_def split: option.splits)
  have "table_ok message_key t"
    using schema_ok_tables(2) [OF d] t by (rule table_ok_update_unique)
  moreover from t have "t = update_where (\<lambda>m. message_key m = k) g (messages d)"
    by (simp add: update_unique_def Let_def split: if_splits)
  ultimately show ?thesis using d unfolding d' by (intro schema_ok_messages) simp_all
qed

lemma folders_rekey: "rekey_message k g d = Inr d' \<Longrightarrow> folders d' = folders d"
  by (auto simp: rekey_message_def split: option.splits)

lemma schema_ok_upsert_header: "schema_ok d \<Longrightarrow> schema_ok (upsert_header f h d)"
  unfolding upsert_header_def
  by (intro schema_ok_messages header_row.upsert_ok header_row.upsert_keeps_ids schema_ok_tables)

lemma schema_ok_upsert_headers: "schema_ok d \<Longrightarrow> schema_ok (upsert_headers f hs d)"
  by (induction hs arbitrary: d) (auto simp: upsert_headers_def schema_ok_upsert_header)

lemma folders_upsert_headers [simp]: "folders (upsert_headers f hs d) = folders d"
  by (induction hs arbitrary: d) (auto simp: upsert_headers_def upsert_header_def)

lemma prune_facts:
  "schema_ok d \<Longrightarrow> schema_ok (prune inp ids d)"
  "folders (prune inp ids d) = folders d"
  by (auto simp: prune_def prune_imap_def prune_opaque_def Let_def schema_ok_fold_delete
      split: snapshot_transport.splits)

lemma reconcile_row_invariant:
  assumes "reconcile_row f hs ih s = Inr s'" and "I (fst s)"
    and del: "\<And>P d. I d \<Longrightarrow> I (delete_messages_where P d)"
    and rekey: "\<And>k g d d'. I d \<Longrightarrow> rekey_message k g d = Inr d' \<Longrightarrow> I d'"
  shows "I (fst s')"
proof -
  obtain index h where ih: "ih = (index, h)" by (cases ih)
  have merge: "I (fst s2)" if "merge_legacy f hs index h p s1 = Inr s2" "I (fst s1)" for p s1 s2
    using that by (auto simp: merge_legacy_def and_then_Inr split: list.splits prod.splits
        intro: del rekey)
  have collapse: "I d2" if "collapse_duplicates f h p d1 = Inr d2" "I d1" for p d1 d2
    using that by (auto simp: collapse_duplicates_def Let_def split: option.splits if_splits
        intro: del rekey)
  from assms(1,2) show ?thesis
    unfolding reconcile_row_def ih
    by (auto simp: and_then_Inr split: option.splits prod.splits dest!: merge intro: collapse)
qed

lemma reconcile_opaque_invariant:
  assumes "reconcile_opaque inp d = Inr (d', rec)" and "I d"
    and "\<And>P d. I d \<Longrightarrow> I (delete_messages_where P d)"
    and "\<And>k g d d'. I d \<Longrightarrow> rekey_message k g d = Inr d' \<Longrightarrow> I d'"
  shows "I d'"
proof (cases "transport inp = Opaque")
  case True
  have "I (fst (d', rec))"
  proof (rule for_each_invariant [where I = "\<lambda>s. I (fst s)"])
    show "for_each (reconcile_row (in_folder inp) (in_rows inp)) (enumerate 0 (in_rows inp)) (d, []) =
        Inr (d', rec)"
      using True assms(1) by (simp add: reconcile_opaque_def)
    show "I (fst s')" if "I (fst s)" "reconcile_row (in_folder inp) (in_rows inp) ih s = Inr s'" for ih s s'
      using reconcile_row_invariant [OF that(2,1) assms(3,4)] .
  qed (use assms(2) in simp)
  then show ?thesis by simp
qed (use assms in \<open>simp add: reconcile_opaque_def\<close>)

lemma before_rows_schema_ok:
  assumes "schema_ok d"
  shows "schema_ok (record_generation inp (wipe_on_uidvalidity_change inp d))"
proof -
  have "schema_ok (wipe_on_uidvalidity_change inp d)"
    using assms
    by (auto simp: wipe_on_uidvalidity_change_def split: snapshot_transport.splits option.splits)
  then show ?thesis
    unfolding record_generation_def
    by (intro schema_ok_folders snapshot_folder.upsert_ok) (auto simp: schema_ok_def)
qed

lemma write_snapshot_cases:
  assumes "write_snapshot now inp d = Inr (d', out)"
  obtains d2 rec where
    "reconcile_opaque inp (record_generation inp (wipe_on_uidvalidity_change inp d)) = Inr (d2, rec)"
    "d' = set_last_sync (in_folder inp) now
       (prune inp (folder_provider_ids (in_folder inp) d) (upsert_headers (in_folder inp) (in_rows inp) d2))"
    "applied out"
    "new_rows out = rows_new inp (folder_provider_ids (in_folder inp) d) rec
       (folder_old_max (in_folder inp) (transport_uidvalidity (transport inp)) d)"
  using assms
  by (auto simp: write_snapshot_def Let_def and_then_Inr split: prod.splits)

lemma schema_ok_set_last_sync: "schema_ok d \<Longrightarrow> schema_ok (set_last_sync f now d)"
  unfolding set_last_sync_def by (rule schema_ok_folders) (auto simp: schema_ok_def)

lemma schema_ok_write:
  assumes "write_snapshot now inp d = Inr (d', out)" and "schema_ok d"
  shows "schema_ok d'"
proof (rule write_snapshot_cases [OF assms(1)])
  fix d2 rec
  assume d2: "reconcile_opaque inp (record_generation inp (wipe_on_uidvalidity_change inp d)) = Inr (d2, rec)"
    and d': "d' = set_last_sync (in_folder inp) now
       (prune inp (folder_provider_ids (in_folder inp) d) (upsert_headers (in_folder inp) (in_rows inp) d2))"
  have "schema_ok d2"
    by (rule reconcile_opaque_invariant [OF d2]) (auto intro: before_rows_schema_ok assms schema_ok_rekey)
  then show ?thesis
    by (simp add: d' schema_ok_set_last_sync prune_facts schema_ok_upsert_headers)
qed

lemma folders_write:
  assumes "write_snapshot now inp d = Inr (d', out)"
  shows "folder_of d' (in_folder inp) =
     Some ((case folder_of d (in_folder inp) of
              None \<Rightarrow> (blank_folder (in_folder inp))\<lparr>latest_reserved_generation := generation inp\<rparr>
            | Some r \<Rightarrow> r)
       \<lparr>folder_uidvalidity := Some (transport_uidvalidity (transport inp)),
        snapshot_generation := generation inp, last_sync_unix := Some now\<rparr>)"
    and "f \<noteq> in_folder inp \<Longrightarrow> folder_of d' f = folder_of d f"
proof -
  let ?d1 = "record_generation inp (wipe_on_uidvalidity_change inp d)"
  obtain d2 rec where d2: "reconcile_opaque inp ?d1 = Inr (d2, rec)"
    and d': "d' = set_last_sync (in_folder inp) now
       (prune inp (folder_provider_ids (in_folder inp) d) (upsert_headers (in_folder inp) (in_rows inp) d2))"
    using write_snapshot_cases [OF assms] by metis
  have "folders d2 = folders ?d1"
    by (rule reconcile_opaque_invariant [OF d2, where I = "\<lambda>x. folders x = folders ?d1"])
      (auto dest: folders_rekey)
  then have l: "folder_of d' f = map_option
      (\<lambda>r. if fname r = in_folder inp then r\<lparr>last_sync_unix := Some now\<rparr> else r) (folder_of ?d1 f)" for f
    unfolding folder_of_def d' set_last_sync_def
    by (simp add: prune_facts lookup_key_update_where)
  have w: "folders (wipe_on_uidvalidity_change inp d) = folders d"
    by (simp add: wipe_on_uidvalidity_change_def split: snapshot_transport.splits option.splits)
  have r: "folder_of ?d1 f =
      (if f = in_folder inp
       then Some (case folder_of d f of
           None \<Rightarrow> (blank_folder (in_folder inp))
             \<lparr>folder_uidvalidity := Some (transport_uidvalidity (transport inp)),
              snapshot_generation := generation inp, latest_reserved_generation := generation inp\<rparr>
         | Some old \<Rightarrow> old\<lparr>folder_uidvalidity := Some (transport_uidvalidity (transport inp)),
              snapshot_generation := generation inp\<rparr>)
       else folder_of d f)" for f
    unfolding folder_of_def record_generation_def
    by (simp add: w snapshot_folder.lookup_upsert blank_folder_def merge_snapshot_folder_def
        split: option.split)
  have nm: "folder_of d f = Some x \<Longrightarrow> fname x = f" for f x
    by (auto simp: folder_of_def dest: lookup_key_SomeD)
  show "folder_of d' (in_folder inp) =
     Some ((case folder_of d (in_folder inp) of
              None \<Rightarrow> (blank_folder (in_folder inp))\<lparr>latest_reserved_generation := generation inp\<rparr>
            | Some r \<Rightarrow> r)
       \<lparr>folder_uidvalidity := Some (transport_uidvalidity (transport inp)),
        snapshot_generation := generation inp, last_sync_unix := Some now\<rparr>)"
    by (cases "folder_of d (in_folder inp)") (auto simp: l r blank_folder_def nm)
  show "folder_of d' f = folder_of d f" if "f \<noteq> in_folder inp"
    using that by (cases "folder_of d f") (auto simp: l r nm)
qed

section \<open>Generations\<close>

lemma reserve_facts:
  assumes "reserve_snapshot_generation f d = (d', g)"
  shows "folder_of d' f = Some ((case folder_of d f of None \<Rightarrow> blank_folder f | Some r \<Rightarrow> r)
      \<lparr>latest_reserved_generation := g\<rparr>)"
    and "g = (case folder_of d f of None \<Rightarrow> 1 | Some r \<Rightarrow> latest_reserved_generation r + 1)"
    and "f' \<noteq> f \<Longrightarrow> folder_of d' f' = folder_of d f'"
    and "d' = d\<lparr>folders := folders d'\<rparr>"
proof -
  let ?t = "upsert fname merge_reserve ((blank_folder f)\<lparr>latest_reserved_generation := 1\<rparr>) (folders d)"
  have d': "d' = d\<lparr>folders := ?t\<rparr>"
    and g: "g = (case folder_of d' f of Some r \<Rightarrow> latest_reserved_generation r | None \<Rightarrow> 0)"
    using assms by (auto simp: reserve_snapshot_generation_def Let_def)
  have l: "folder_of d' k = (if k = f
      then Some (case folder_of d f of None \<Rightarrow> (blank_folder f)\<lparr>latest_reserved_generation := 1\<rparr>
          | Some r \<Rightarrow> r\<lparr>latest_reserved_generation := latest_reserved_generation r + 1\<rparr>)
      else folder_of d k)" for k
    by (simp add: folder_of_def d' reserved_folder.lookup_upsert merge_reserve_def blank_folder_def
        split: option.split)
  show g': "g = (case folder_of d f of None \<Rightarrow> 1 | Some r \<Rightarrow> latest_reserved_generation r + 1)"
    by (simp add: g l split: option.split)
  show "folder_of d' f = Some ((case folder_of d f of None \<Rightarrow> blank_folder f | Some r \<Rightarrow> r)
      \<lparr>latest_reserved_generation := g\<rparr>)"
    by (simp add: l g' split: option.split)
  show "f' \<noteq> f \<Longrightarrow> folder_of d' f' = folder_of d f'" by (simp add: l)
  show "d' = d\<lparr>folders := folders d'\<rparr>" by (simp add: d')
qed

lemma check_generation_True:
  "check_generation f g d = Inr True \<longleftrightarrow>
     (\<exists>r. folder_of d f = Some r \<and> 0 < g \<and> g = latest_reserved_generation r \<and> snapshot_generation r < g)"
  by (auto simp: check_generation_def split: option.splits)

lemma apply_snapshot_cases:
  assumes "apply_snapshot now inp d = (d', res)"
  obtains (unchanged) "d' = d" "\<And>out. res = Inr out \<Longrightarrow> \<not> applied out"
  | (applied) r out where "folder_of d (in_folder inp) = Some r" "0 < generation inp"
      "generation inp = latest_reserved_generation r" "snapshot_generation r < generation inp"
      "validate_rows inp = Inr ()" "write_snapshot now inp d = Inr (d', out)" "res = Inr out" "applied out"
proof (cases "and_then (validate_rows inp) (\<lambda>_. check_generation (in_folder inp) (generation inp) d)")
  case (Inl e)
  with assms show ?thesis by (intro unchanged) (auto simp: apply_snapshot_def)
next
  case (Inr b)
  show ?thesis
  proof (cases "b \<and> (\<exists>x. write_snapshot now inp d = Inr x)")
    case False
    with Inr assms show ?thesis
      by (intro unchanged; cases b; cases "write_snapshot now inp d") (auto simp: apply_snapshot_def)
  next
    case True
    then obtain e out where w: "write_snapshot now inp d = Inr (e, out)" by (metis surj_pair)
    from Inr True have "check_generation (in_folder inp) (generation inp) d = Inr True"
      "validate_rows inp = Inr ()"
      by (auto simp: and_then_Inr)
    moreover have "applied out" using w by (rule write_snapshot_cases)
    moreover have "e = d'" "res = Inr out"
      using assms Inr True w by (auto simp: apply_snapshot_def)
    ultimately show ?thesis
      using w applied by (auto simp: check_generation_True)
  qed
qed

text \<open>The steps of two processes that reserve and apply snapshots of any folders.\<close>

inductive snap_step :: "db \<Rightarrow> db \<Rightarrow> bool" where
  reserve: "reserve_snapshot_generation f d = (d', g) \<Longrightarrow> snap_step d d'"
| apply_: "apply_snapshot now inp d = (d', res) \<Longrightarrow> snap_step d d'"

inductive_cases snap_stepE: "snap_step d d'"

definition latest :: "db \<Rightarrow> string \<Rightarrow> int" where
  "latest d f = (case folder_of d f of None \<Rightarrow> 0 | Some r \<Rightarrow> latest_reserved_generation r)"

definition generations_ok :: "db \<Rightarrow> bool" where
  "generations_ok d \<longleftrightarrow> (\<forall>f r. folder_of d f = Some r \<longrightarrow>
     0 \<le> snapshot_generation r \<and> snapshot_generation r \<le> latest_reserved_generation r)"

lemma snap_step_latest: "snap_step d d' \<Longrightarrow> generations_ok d \<Longrightarrow> latest d f \<le> latest d' f"
proof (erule snap_stepE)
  fix k g
  assume "reserve_snapshot_generation k d = (d', g)" "generations_ok d"
  then show "latest d f \<le> latest d' f"
    using reserve_facts [of k d d' g] by (cases "f = k") (auto simp: latest_def split: option.splits)
next
  fix now inp res
  assume "apply_snapshot now inp d = (d', res)"
  then show "latest d f \<le> latest d' f"
  proof (cases rule: apply_snapshot_cases)
    case (applied r out)
    then show ?thesis
      using folders_write [OF applied(6)] by (cases "f = in_folder inp") (auto simp: latest_def)
  qed simp
qed

lemma snap_step_generations_ok: "snap_step d d' \<Longrightarrow> generations_ok d \<Longrightarrow> generations_ok d'"
proof (erule snap_stepE)
  fix k g
  assume a: "reserve_snapshot_generation k d = (d', g)" "generations_ok d"
  show "generations_ok d'"
    unfolding generations_ok_def
  proof (intro allI impI)
    fix f r assume r: "folder_of d' f = Some r"
    show "0 \<le> snapshot_generation r \<and> snapshot_generation r \<le> latest_reserved_generation r"
      using a(2) r reserve_facts [OF a(1)]
      by (cases "f = k"; cases "folder_of d k") (fastforce simp: generations_ok_def blank_folder_def)+
  qed
next
  fix now inp res
  assume a: "apply_snapshot now inp d = (d', res)" "generations_ok d"
  from a(1) show "generations_ok d'"
  proof (cases rule: apply_snapshot_cases)
    case (applied r out)
    show ?thesis
      unfolding generations_ok_def
    proof (intro allI impI)
      fix f x assume x: "folder_of d' f = Some x"
      show "0 \<le> snapshot_generation x \<and> snapshot_generation x \<le> latest_reserved_generation x"
        using a(2) x applied folders_write [OF applied(6)]
        by (cases "f = in_folder inp") (auto simp: generations_ok_def)
    qed
  qed (use a in simp)
qed

lemma snap_steps: "snap_step\<^sup>*\<^sup>* d d' \<Longrightarrow> generations_ok d \<Longrightarrow> generations_ok d' \<and> latest d f \<le> latest d' f"
  by (induction rule: rtranclp_induct)
    (auto intro: snap_step_generations_ok order_trans [OF _ snap_step_latest])

lemma latest_reserve: "reserve_snapshot_generation f d = (d', g) \<Longrightarrow> latest d' f = g \<and> latest d f + 1 = g"
  using reserve_facts [of f d d' g] by (auto simp: latest_def split: option.splits)

lemma generations_ok_empty [simp]: "generations_ok empty_db"
  by (simp add: generations_ok_def folder_of_def empty_db_def)

text \<open>
  C2. A snapshot is applied only when its generation is the newest one reserved for the
  folder and newer than the last one applied, and applying it records it; in every other
  case (an invalid listing, an unknown or superseded generation, a constraint error in the
  middle of the transaction) the database is exactly what it was.
\<close>

theorem apply_snapshot_atomic:
  assumes "apply_snapshot now inp d = (d', res)"
  shows "(d' = d \<and> (\<forall>out. res \<noteq> Inr out \<or> applied out = False)) \<or>
    (\<exists>r r' out. res = Inr out \<and> applied out \<and>
       folder_of d (in_folder inp) = Some r \<and> 0 < generation inp \<and>
       generation inp = latest_reserved_generation r \<and> snapshot_generation r < generation inp \<and>
       folder_of d' (in_folder inp) = Some r' \<and> snapshot_generation r' = generation inp \<and>
       latest_reserved_generation r' = generation inp)"
  using assms
proof (cases rule: apply_snapshot_cases)
  case (applied r out)
  then show ?thesis using folders_write(1) [OF applied(6)] by auto
qed auto

definition h_example :: snapshot_header where
  "h_example = \<lparr>h_uid = 5, h_uidvalidity = 9, h_message_id = None, h_subject = Some ''hi'',
     h_from_addr = None, h_to_addrs = None, h_date_unix = None, h_flags = ''Seen'',
     h_fetched_at_unix = 3, h_provider_id = None\<rparr>"

definition inp_example :: snapshot_input where
  "inp_example = \<lparr>in_folder = ''INBOX'', generation = 1, complete = True, transport = Imap 9,
     in_rows = [h_example]\<rparr>"

definition d_reserved :: db where
  "d_reserved = fst (reserve_snapshot_generation ''INBOX'' empty_db)"

theorem apply_snapshot_atomic_witness:
  "\<exists>r' out. snd (apply_snapshot 100 inp_example d_reserved) = Inr out \<and> applied out \<and>
     folder_of (fst (apply_snapshot 100 inp_example d_reserved)) ''INBOX'' = Some r' \<and>
     snapshot_generation r' = 1"
proof -
  let ?r = "apply_snapshot 100 inp_example d_reserved"
  have "\<exists>out. snd ?r = Inr out \<and> applied out"
  proof -
    have "(case snd ?r of Inr out \<Rightarrow> applied out | Inl _ \<Rightarrow> False)" by code_simp
    then show ?thesis by (auto split: sum.splits)
  qed
  then show ?thesis
    using apply_snapshot_atomic [of 100 inp_example d_reserved "fst ?r" "snd ?r"]
    by (auto simp: inp_example_def)
qed



end
