(* ===== verification/Store_Folders.thy ===== *)
theory Store_Folders
  imports Snapshot_Props "HOL-Library.Char_ord" "HOL-Library.List_Lexorder"
begin

text \<open>
  The folder statements of crates/inbx-store/src/lib.rs, from \<^verbatim>\<open>reconcile_folders\<close> to
  \<^verbatim>\<open>wipe_folder_messages\<close>. A \<^verbatim>\<open>FolderRow\<close> the provider lists is a \<open>folder_row\<close> whose
  generation columns are the schema's defaults.
\<close>

section \<open>Operations\<close>

text \<open>The SET clause of the folder upsert: the generations and the last sync time stay.\<close>

definition merge_folder :: "folder_row \<Rightarrow> folder_row \<Rightarrow> folder_row" where
  "merge_folder new old =
     old\<lparr>delim := delim new, special_use := special_use new, attrs := attrs new,
         folder_uidvalidity := coalesce (folder_uidvalidity new) (folder_uidvalidity old),
         uidnext := coalesce (uidnext new) (uidnext old)\<rparr>"

text \<open>The columns the INSERT does not name take their defaults.\<close>

definition insert_values :: "folder_row \<Rightarrow> folder_row" where
  "insert_values r = r\<lparr>delta_link := None, snapshot_generation := 0, latest_reserved_generation := 0\<rparr>"

definition upsert_folder :: "folder_row \<Rightarrow> db \<Rightarrow> db" where
  "upsert_folder r d = d\<lparr>folders := upsert fname merge_folder (insert_values r) (folders d)\<rparr>"

definition drop_folder :: "string \<Rightarrow> db \<Rightarrow> db" where
  "drop_folder f d =
     (let d' = delete_messages_where (\<lambda>m. folder m = f) d
      in d'\<lparr>folders := delete_where (\<lambda>r. fname r = f) (folders d')\<rparr>)"

definition reconcile_folders :: "folder_row list \<Rightarrow> db \<Rightarrow> db" where
  "reconcile_folders fs d =
     (let names = set (map fname fs);
          d1 = fold upsert_folder fs d;
          existing = map fname (rows_of (folders d1))
      in fold drop_folder (filter (\<lambda>n. n \<notin> names) existing) d1)"

definition mark_folder_synced :: "int \<Rightarrow> string \<Rightarrow> db \<Rightarrow> db \<times> int result" where
  "mark_folder_synced now f d =
     (if \<exists>r \<in> set (rows_of (folders d)). fname r = f
      then (set_last_sync f now d, Inr now)
      else (d, Inl (FolderNotFound f)))"

definition list_folders :: "db \<Rightarrow> folder_row list" where
  "list_folders d = sort_key fname (rows_of (folders d))"

definition get_delta_link :: "string \<Rightarrow> db \<Rightarrow> string option" where
  "get_delta_link f d = Option.bind (folder_of d f) delta_link"

definition set_delta_link :: "string \<Rightarrow> string option \<Rightarrow> db \<Rightarrow> db" where
  "set_delta_link f l d =
     d\<lparr>folders := update_where (\<lambda>r. fname r = f) (\<lambda>r. r\<lparr>delta_link := l\<rparr>) (folders d)\<rparr>"

definition folder_max_uid :: "string \<Rightarrow> int \<Rightarrow> db \<Rightarrow> int option" where
  "folder_max_uid f uv d =
     (case map uid (select_where (\<lambda>m. folder m = f \<and> uidvalidity m = uv) (messages d)) of
        [] \<Rightarrow> None | u # us \<Rightarrow> Some (fold max us u))"

definition stored_uidvalidity :: "string \<Rightarrow> db \<Rightarrow> int option" where
  "stored_uidvalidity f d = Option.bind (folder_of d f) folder_uidvalidity"

definition wipe_folder_messages :: "string \<Rightarrow> db \<Rightarrow> db" where
  "wipe_folder_messages f d = delete_messages_where (\<lambda>m. folder m = f) d"

section \<open>The folder table\<close>

lemma fname_merge_folder [simp]: "fname (merge_folder new old) = fname old"
  by (simp add: merge_folder_def)

lemma fname_insert_values [simp]: "fname (insert_values r) = fname r"
  by (simp add: insert_values_def)

interpretation listed_folder: keyed_table fname merge_folder
  by unfold_locales simp

lemma upsert_folder_simps [simp]:
  "messages (upsert_folder r d) = messages d"
  "messages_fts (upsert_folder r d) = messages_fts d"
  "keys_of fname (folders (upsert_folder r d)) = insert (fname r) (keys_of fname (folders d))"
  by (simp_all add: upsert_folder_def listed_folder.keys_upsert)

lemma schema_ok_upsert_folder [intro]: "schema_ok d \<Longrightarrow> schema_ok (upsert_folder r d)"
  unfolding upsert_folder_def
  by (intro schema_ok_folders listed_folder.upsert_ok) (auto dest: schema_ok_tables)

lemma fold_upsert_folder:
  "messages (fold upsert_folder fs d) = messages d \<and>
   keys_of fname (folders (fold upsert_folder fs d)) = fname ` set fs \<union> keys_of fname (folders d)"
  by (induction fs arbitrary: d) auto

lemma schema_ok_fold_upsert_folder: "schema_ok d \<Longrightarrow> schema_ok (fold upsert_folder fs d)"
  by (induction fs arbitrary: d) auto

lemma drop_folder_simps [simp]:
  "messages (drop_folder f d) = delete_where (\<lambda>m. folder m = f) (messages d)"
  "folders (drop_folder f d) = delete_where (\<lambda>r. fname r = f) (folders d)"
  by (simp_all add: drop_folder_def Let_def)

lemma schema_ok_drop_folder [intro]: "schema_ok d \<Longrightarrow> schema_ok (drop_folder f d)"
  unfolding drop_folder_def Let_def
  by (intro schema_ok_folders) (auto dest: schema_ok_tables)

lemma fold_drop_folder:
  "rows_of (messages (fold drop_folder gone d)) = filter (\<lambda>m. folder m \<notin> set gone) (rows_of (messages d)) \<and>
   rows_of (folders (fold drop_folder gone d)) = filter (\<lambda>r. fname r \<notin> set gone) (rows_of (folders d))"
  by (induction gone arbitrary: d) (auto intro: filter_cong)

lemma schema_ok_fold_drop_folder: "schema_ok d \<Longrightarrow> schema_ok (fold drop_folder gone d)"
  by (induction gone arbitrary: d) auto

text \<open>The last sync time and the generations of a folder that is listed again are kept.\<close>

lemma upsert_folder_keeps:
  assumes "folder_of d f = Some r"
  shows "\<exists>r'. folder_of (upsert_folder n d) f = Some r' \<and>
    snapshot_generation r' = snapshot_generation r \<and>
    latest_reserved_generation r' = latest_reserved_generation r \<and>
    delta_link r' = delta_link r \<and> last_sync_unix r' = last_sync_unix r"
  using assms
  by (auto simp: folder_of_def upsert_folder_def listed_folder.lookup_upsert merge_folder_def)

section \<open>Properties\<close>

lemma reconcile_listing:
  "keys_of fname (folders (reconcile_folders fs d)) = fname ` set fs \<and>
   rows_of (messages (reconcile_folders fs d)) =
     filter (\<lambda>m. folder m \<in> fname ` set fs \<or> folder m \<notin> keys_of fname (folders d)) (rows_of (messages d))"
proof -
  let ?d1 = "fold upsert_folder fs d"
  let ?gone = "filter (\<lambda>n. n \<notin> set (map fname fs)) (map fname (rows_of (folders ?d1)))"
  have gone: "set ?gone = keys_of fname (folders d) - fname ` set fs"
    using fold_upsert_folder [of fs d] by (auto simp: keys_of_def)
  have d': "reconcile_folders fs d = fold drop_folder ?gone ?d1"
    by (simp add: reconcile_folders_def Let_def)
  have "keys_of fname (folders (reconcile_folders fs d)) = keys_of fname (folders ?d1) - set ?gone"
    using fold_drop_folder [of ?gone ?d1] unfolding d' keys_of_def by auto
  also have "\<dots> = fname ` set fs"
    using fold_upsert_folder [of fs d] unfolding gone by auto
  finally show ?thesis
    using fold_drop_folder [of ?gone ?d1] fold_upsert_folder [of fs d] unfolding d' gone
    by (auto intro: filter_cong)
qed

lemmas keys_reconcile = reconcile_listing [THEN conjunct1]

text \<open>
  C20. After a complete folder listing, the stored folders are exactly the listed ones; the
  messages of a stored folder that is no longer listed are gone, every other message stays,
  in its order.
\<close>

theorem reconcile_folders_mirrors_listing:
  "keys_of fname (folders (reconcile_folders fs d)) = fname ` set fs \<and>
   rows_of (messages (reconcile_folders fs d)) =
     filter (\<lambda>m. folder m \<notin> keys_of fname (folders d) - fname ` set fs) (rows_of (messages d))"
  by (simp add: reconcile_listing disj_commute)

lemma schema_ok_reconcile_folders: "schema_ok d \<Longrightarrow> schema_ok (reconcile_folders fs d)"
  by (simp add: reconcile_folders_def Let_def schema_ok_fold_drop_folder schema_ok_fold_upsert_folder)

text \<open>
  Dropping a folder forgets its generations. A folder that disappears from one listing
  and is back in the next starts again at generation 1, so a snapshot that was fetched under
  the old generation 1 is applied although a later reservation was made for the folder.
\<close>

theorem reconcile_folders_reuses_generations:
  "let d1 = fst (reserve_snapshot_generation ''INBOX'' empty_db);
       g1 = snd (reserve_snapshot_generation ''INBOX'' empty_db);
       d2 = reconcile_folders [blank_folder ''INBOX''] (reconcile_folders [] d1);
       d3 = fst (reserve_snapshot_generation ''INBOX'' d2);
       g3 = snd (reserve_snapshot_generation ''INBOX'' d2);
       stale = inp_example\<lparr>generation := g1\<rparr>
   in g3 = g1 \<and>
      (case snd (apply_snapshot 100 stale d3) of Inr out \<Rightarrow> applied out | Inl _ \<Rightarrow> False)"
  by code_simp

end
