(* ===== verification/Store_Threading.thy ===== *)
theory Store_Threading
  imports Store_Schema
begin

text \<open>
  Message threading (crates/inbx-store/src/threading.rs): subject normalisation, the two
  recursive queries that walk the container forest upward, and \<^verbatim>\<open>Threader::ingest\<close>, whose
  numbered steps are one definition each. The parent pointers of the containers form a
  relation; the invariant \<open>forest\<close> says it has no cycle and no dangling parent, which is
  what makes the upward walks end at a root and the downward \<^verbatim>\<open>UNION ALL\<close> recursion of
  step 7 terminate.
\<close>

section \<open>Subject normalisation\<close>

text \<open>\<^verbatim>\<open>while result.starts_with('[')\<close> of normalize\_subject: the rest and \<open>stripped\<close>.\<close>

function strip_tags :: "string \<Rightarrow> string \<times> bool" where
  "strip_tags s =
     (case s of
        [] \<Rightarrow> (s, False)
      | c # _ \<Rightarrow>
          if c = CHR ''['' then
            (case find_idx (\<lambda>x. x = CHR '']'') s of
               None \<Rightarrow> (s, False)
             | Some close \<Rightarrow> (fst (strip_tags (trim (drop (close + 1) s))), True))
          else (s, False))"
  by pat_completeness auto
termination
proof (relation "measure length")
  fix s :: string and c cs close
  assume "s = c # cs"
  then show "(trim (drop (close + 1) s), s) \<in> measure length"
    using length_trim_drop [of "close + 1" s] by simp
qed simp

declare strip_tags.simps [simp del]

definition strip_reply_prefix :: "string \<Rightarrow> string \<times> bool" where
  "strip_reply_prefix s =
     (let lower = to_ascii_lowercase s in
      if prefix ''re:'' lower then (trim (drop 3 s), True)
      else if prefix ''fwd:'' lower then (trim (drop 4 s), True)
      else if prefix ''fw:'' lower then (trim (drop 3 s), True)
      else if prefix ''re['' lower then
        (case find_sub '']:'' lower of
           Some bracket_end \<Rightarrow> (trim (drop (bracket_end + 2) s), True)
         | None \<Rightarrow> (s, False))
      else (s, False))"

lemma length_strip_tags:
  "length (fst (strip_tags s)) \<le> length s \<and> (snd (strip_tags s) \<longrightarrow> length (fst (strip_tags s)) < length s)"
proof (induction s rule: strip_tags.induct)
  case (1 s)
  show ?case
  proof (cases s)
    case Nil
    then show ?thesis by (simp add: strip_tags.simps)
  next
    case (Cons c cs)
    show ?thesis
    proof (cases "c = CHR ''['' \<and> find_idx (\<lambda>x. x = CHR '']'') s \<noteq> None")
      case True
      then obtain close where close: "find_idx (\<lambda>x. x = CHR '']'') s = Some close" by auto
      let ?r = "trim (drop (close + 1) s)"
      have "length (fst (strip_tags ?r)) \<le> length ?r"
        using "1" Cons True close by auto
      also have "length ?r < length s"
        using Cons length_trim_drop [of "close + 1" s] by simp
      finally have "length (fst (strip_tags ?r)) < length s" .
      moreover have "strip_tags s = (fst (strip_tags ?r), True)"
        using Cons True close by (subst strip_tags.simps) (simp del: find_idx.simps)
      ultimately show ?thesis by simp
    next
      case False
      then show ?thesis using Cons by (auto simp: strip_tags.simps)
    qed
  qed
qed

lemma length_strip_reply_prefix:
  "length (fst (strip_reply_prefix s)) \<le> length s \<and>
     (snd (strip_reply_prefix s) \<longrightarrow> length (fst (strip_reply_prefix s)) < length s)"
  using length_trim_drop [of 3 s] length_trim_drop [of 4 s] length_trim_drop [of _ s]
  by (cases "s = []")
    (auto simp: strip_reply_prefix_def Let_def less_imp_le split: option.splits)

text \<open>The outer loop: strip tags and one reply prefix until nothing changes.\<close>

function normalize_loop :: "string \<Rightarrow> string" where
  "normalize_loop s =
     (let (r, stripped1) = strip_tags s; (r', stripped2) = strip_reply_prefix r in
      if stripped1 \<or> stripped2 then normalize_loop r' else r')"
  by pat_completeness auto
termination
proof (relation "measure length")
  fix s :: string and x r stripped1 y r' stripped2
  assume "x = strip_tags s" "(r, stripped1) = x" "y = strip_reply_prefix r" "(r', stripped2) = y"
    "stripped1 \<or> stripped2"
  then show "(r', s) \<in> measure length"
    using length_strip_tags [of s] length_strip_reply_prefix [of r]
    by (metis fst_conv in_measure le_less_trans less_le_trans snd_conv)
qed simp

declare normalize_loop.simps [simp del]

definition normalize_subject :: "string \<Rightarrow> string" where
  "normalize_subject s = to_ascii_lowercase (normalize_loop (trim s))"

definition is_reply_or_fwd :: "string \<Rightarrow> bool" where
  "is_reply_or_fwd s =
     (let lower = to_ascii_lowercase (fst (strip_tags (trim s))) in
      prefix ''re:'' lower \<or> prefix ''fwd:'' lower \<or> prefix ''fw:'' lower \<or>
      (prefix ''re['' lower \<and> contains lower '']:''))"

subsection \<open>Normalisation is a normal form\<close>

text \<open>A subject to which no rule of the loop applies any more.\<close>

definition settled :: "string \<Rightarrow> bool" where
  "settled s \<longleftrightarrow> trimmed s \<and> \<not> snd (strip_tags s) \<and> \<not> snd (strip_reply_prefix s)"

lemma not_stripped:
  "\<not> snd (strip_tags s) \<Longrightarrow> fst (strip_tags s) = s"
  "\<not> snd (strip_reply_prefix s) \<Longrightarrow> fst (strip_reply_prefix s) = s"
  by (subst strip_tags.simps, subst (asm) strip_tags.simps)
     (auto simp: strip_reply_prefix_def Let_def split: list.splits option.splits if_splits)

lemma trimmed_strip_tags: "trimmed s \<Longrightarrow> trimmed (fst (strip_tags s))"
proof (induction s rule: strip_tags.induct)
  case (1 s)
  then show ?case
    by (subst strip_tags.simps) (auto split: list.splits option.splits simp del: find_idx.simps)
qed

lemma trimmed_strip_reply_prefix: "trimmed s \<Longrightarrow> trimmed (fst (strip_reply_prefix s))"
  by (auto simp: strip_reply_prefix_def Let_def split: option.splits)

lemma normalize_loop_settled: "trimmed s \<Longrightarrow> settled (normalize_loop s)"
proof (induction s rule: normalize_loop.induct)
  case (1 s)
  obtain r b1 where r: "strip_tags s = (r, b1)" by (cases "strip_tags s")
  obtain r' b2 where r': "strip_reply_prefix r = (r', b2)" by (cases "strip_reply_prefix r")
  have tr: "trimmed r'"
    using trimmed_strip_tags [OF "1.prems"] trimmed_strip_reply_prefix [of r] r r' by simp
  show ?case
  proof (cases "b1 \<or> b2")
    case True
    then have "settled (normalize_loop r')" using "1.IH" r r' tr by metis
    with True r r' show ?thesis by (subst normalize_loop.simps) simp
  next
    case False
    then have "r = s" "r' = s"
      using not_stripped(1) [of s] not_stripped(2) [of r] r r' by auto
    with False r r' "1.prems" have "settled s" by (simp add: settled_def)
    with False r r' \<open>r' = s\<close> show ?thesis by (subst normalize_loop.simps) simp
  qed
qed

lemma normalize_loop_id: "settled s \<Longrightarrow> normalize_loop s = s"
  using not_stripped(1) [of s] not_stripped(2) [of s]
  by (subst normalize_loop.simps) (auto simp: settled_def split: prod.splits)

lemma settled_lowercase: "settled s \<Longrightarrow> settled (to_ascii_lowercase s)"
proof -
  have br: "lower_char c = CHR ''['' \<longleftrightarrow> c = CHR ''[''" "lower_char c = CHR '']'' \<longleftrightarrow> c = CHR '']''" for c
    by (rule lower_char_non_letter; simp add: is_ascii_upper_def is_ascii_lower_def byte_def)+
  have "find_idx (\<lambda>x. x = CHR '']'') (to_ascii_lowercase s) = find_idx (\<lambda>x. x = CHR '']'') s" for s
    by (induction s) (auto simp: br to_ascii_lowercase_def)
  then have "snd (strip_tags (to_ascii_lowercase s)) = snd (strip_tags s)"
    by (subst (1 2) strip_tags.simps)
      (auto simp: br to_ascii_lowercase_def simp del: find_idx.simps split: list.splits option.splits)
  moreover have "snd (strip_reply_prefix (to_ascii_lowercase s)) = snd (strip_reply_prefix s)"
    by (auto simp: strip_reply_prefix_def Let_def split: option.splits)
  ultimately show "settled s \<Longrightarrow> ?thesis"
    by (auto simp: settled_def trimmed_lowercase)
qed

lemma normalize_subject_normal: "normalize_subject (normalize_subject s) = normalize_subject s"
proof -
  have "settled (normalize_loop (trim s))" by (simp add: normalize_loop_settled)
  then have st: "settled (normalize_subject s)"
    by (simp add: normalize_subject_def settled_lowercase)
  then have "trim (normalize_subject s) = normalize_subject s"
    by (simp add: settled_def trim_id)
  with st have "normalize_loop (trim (normalize_subject s)) = normalize_subject s"
    by (simp add: normalize_loop_id)
  then show ?thesis
    by (subst normalize_subject_def) (simp add: normalize_subject_def [of s])
qed

section \<open>The container forest\<close>

definition container_of :: "container table \<Rightarrow> string \<Rightarrow> container option" where
  "container_of T i = lookup_key cid i T"

definition ids :: "container table \<Rightarrow> string set" where
  "ids T = keys_of cid T"

definition parent_of :: "container table \<Rightarrow> string \<Rightarrow> string option" where
  "parent_of T i = (case container_of T i of None \<Rightarrow> None | Some c \<Rightarrow> parent_id c)"

definition parent_rel :: "container table \<Rightarrow> (string \<times> string) set" where
  "parent_rel T = {(c, p). parent_of T c = Some p}"

text \<open>
  The invariant: message ids are unique, every parent exists (the foreign key of
  thread\_containers), and no container is its own ancestor.
\<close>

definition forest :: "container table \<Rightarrow> bool" where
  "forest T \<longleftrightarrow> table_ok cid T \<and> Range (parent_rel T) \<subseteq> ids T \<and> acyclic (parent_rel T)"

section \<open>Walking up\<close>

text \<open>
  The recursive query \<^verbatim>\<open>ancestors(id, parent_id)\<close> with \<^verbatim>\<open>UNION\<close>: a row that was already
  produced is dropped, which ends the walk on a cycle.
\<close>

function walk :: "container table \<Rightarrow> string list \<Rightarrow> string \<Rightarrow> container list" where
  "walk T seen i =
     (if i \<in> set seen then []
      else case container_of T i of
             None \<Rightarrow> []
           | Some c \<Rightarrow> c # (case parent_id c of None \<Rightarrow> [] | Some p \<Rightarrow> walk T (i # seen) p))"
  by pat_completeness auto
termination
proof (relation "measure (\<lambda>(T, seen, i). card (ids T - set seen))")
  fix T :: "container table" and seen i c p
  assume "i \<notin> set seen" "container_of T i = Some c"
  then have i: "i \<in> ids T - set seen"
    by (auto simp: container_of_def ids_def dest: lookup_key_Some_keys)
  have "finite (ids T)" by (simp add: ids_def keys_of_def)
  with i have "card (ids T - set (i # seen)) < card (ids T - set seen)"
    by (intro psubset_card_mono) auto
  then show "((T, i # seen, p), (T, seen, i)) \<in> measure (\<lambda>(T, seen, i). card (ids T - set seen))"
    by simp
qed simp

declare walk.simps [simp del]

definition ancestors :: "container table \<Rightarrow> string \<Rightarrow> container list" where
  "ancestors T start = walk T [] start"

definition find_root :: "container table \<Rightarrow> string \<Rightarrow> string result" where
  "find_root T start =
     (case List.find (\<lambda>c. parent_id c = None) (ancestors T start) of
        Some c \<Rightarrow> Inr (cid c)
      | None \<Rightarrow> Inl (ThreadRoot start))"

definition would_create_cycle :: "container table \<Rightarrow> string \<Rightarrow> string \<Rightarrow> bool" where
  "would_create_cycle T node proposed_parent =
     (node \<in> set (map cid (ancestors T proposed_parent)))"

section \<open>Ingest\<close>

text \<open>SQLite's bound on the bindings of one statement, and the three a placeholder takes.\<close>

definition PLACEHOLDER_BATCH_SIZE :: nat where
  "PLACEHOLDER_BATCH_SIZE = 10000"

definition placeholder_batches :: "string list \<Rightarrow> nat \<Rightarrow> string list list" where
  "placeholder_batches rs batch_size = chunks batch_size rs"

definition new_container :: "string \<Rightarrow> string option \<Rightarrow> bool \<Rightarrow> container" where
  "new_container mid norm hm =
     \<lparr>cid = mid, parent_id = None, root_id = mid, subject_norm = norm, has_message = hm\<rparr>"

definition merge_main :: "container \<Rightarrow> container \<Rightarrow> container" where
  "merge_main new old =
     old\<lparr>subject_norm := coalesce (subject_norm new) (subject_norm old), has_message := True\<rparr>"

definition merge_nothing :: "container \<Rightarrow> container \<Rightarrow> container" where
  "merge_nothing new old = old"

definition upsert_main :: "string \<Rightarrow> string option \<Rightarrow> container table \<Rightarrow> container table" where
  "upsert_main mid norm T = upsert cid merge_main (new_container mid norm True) T"

definition reference_chain :: "string option \<Rightarrow> string list \<Rightarrow> string list" where
  "reference_chain irt rs =
     rs @ (case irt of None \<Rightarrow> [] | Some i \<Rightarrow> if i \<in> set rs then [] else [i])"

text \<open>One multi-row INSERT: its rows conflict with earlier rows of the same statement too.\<close>

definition insert_batch :: "string list \<Rightarrow> container table \<Rightarrow> container table" where
  "insert_batch b T = fold (\<lambda>i. upsert cid merge_nothing (new_container i None False)) b T"

definition insert_placeholders :: "nat \<Rightarrow> string list \<Rightarrow> container table \<Rightarrow> container table" where
  "insert_placeholders batch_size chain T = fold insert_batch (placeholder_batches chain batch_size) T"

definition set_parent :: "string \<Rightarrow> string \<Rightarrow> container table \<Rightarrow> container table" where
  "set_parent child p T = update_where (\<lambda>c. cid c = child) (\<lambda>c. c\<lparr>parent_id := Some p\<rparr>) T"

definition link :: "string \<Rightarrow> string \<Rightarrow> container table \<Rightarrow> container table" where
  "link p child T =
     (case container_of T child of
        None \<Rightarrow> T
      | Some c \<Rightarrow>
          if parent_id c = None \<and> \<not> would_create_cycle T child p then set_parent child p T else T)"

definition link_chain :: "string list \<Rightarrow> container table \<Rightarrow> container table" where
  "link_chain chain T = fold (\<lambda>(p, child). link p child) (zip chain (tl chain)) T"

definition link_message :: "string list \<Rightarrow> string \<Rightarrow> container table \<Rightarrow> container table" where
  "link_message chain mid T = (if chain = [] then T else link (last chain) mid T)"

text \<open>Step 5: another root with the same normalised subject, the oldest by row id.\<close>

definition subject_of_container :: "message_row table \<Rightarrow> string \<Rightarrow> string option" where
  "subject_of_container ms i =
     (case select_where (\<lambda>m. message_id m = Some i) ms of [] \<Rightarrow> None | m # _ \<Rightarrow> subject m)"

definition group_by_subject ::
  "message_row table \<Rightarrow> string \<Rightarrow> string option \<Rightarrow> container table \<Rightarrow> container table" where
  "group_by_subject ms mid subj T =
     (case container_of T mid of
        None \<Rightarrow> T
      | Some c \<Rightarrow>
          if parent_id c \<noteq> None then T
          else
            (case subj of
               None \<Rightarrow> T
             | Some s \<Rightarrow>
                 (case select_where (\<lambda>tc. subject_norm tc = Some (normalize_subject s) \<and>
                                          cid tc \<noteq> mid \<and> parent_id tc = None) T of
                    [] \<Rightarrow> T
                  | other # _ \<Rightarrow>
                      let other_is_reply =
                        (case subject_of_container ms (cid other) of
                           None \<Rightarrow> False | Some o' \<Rightarrow> is_reply_or_fwd o') in
                      if (is_reply_or_fwd s \<or> other_is_reply) \<and> \<not> would_create_cycle T mid (cid other)
                      then set_parent mid (cid other) T else T)))"

text \<open>
  Step 7: the downward recursion is \<^verbatim>\<open>UNION ALL\<close>, level by level without removing
  duplicates. \<open>None\<close> is a recursion that has not ended after \<open>n\<close> levels.
\<close>

definition children :: "container table \<Rightarrow> string \<Rightarrow> string list" where
  "children T i = map cid (select_where (\<lambda>c. parent_id c = Some i) T)"

fun subtree :: "nat \<Rightarrow> container table \<Rightarrow> string list \<Rightarrow> string list option" where
  "subtree n T [] = Some []"
| "subtree 0 T (x # xs) = None"
| "subtree (Suc n) T (x # xs) =
     map_option (\<lambda>r. (x # xs) @ r) (subtree n T (concat (map (children T) (x # xs))))"

definition set_root :: "string list \<Rightarrow> string \<Rightarrow> container table \<Rightarrow> container table" where
  "set_root is r T = update_where (\<lambda>c. cid c \<in> set is) (\<lambda>c. c\<lparr>root_id := r\<rparr>) T"

definition reroot ::
  "(container \<Rightarrow> bool) \<Rightarrow> string \<Rightarrow> container table \<Rightarrow> container table option" where
  "reroot base r T =
     map_option (\<lambda>is. set_root is r T)
       (subtree (Suc (length T)) T (map cid (select_where base T)))"

definition update_roots :: "string \<Rightarrow> string \<Rightarrow> container table \<Rightarrow> container table option" where
  "update_roots old_root r T =
     (if old_root \<noteq> r
      then Option.bind (reroot (\<lambda>c. cid c = r) r T) (reroot (\<lambda>c. root_id c = old_root) r)
      else Some T)"

definition set_thread_ids :: "string \<Rightarrow> db \<Rightarrow> db" where
  "set_thread_ids r d =
     update_messages_where
       (\<lambda>m. case message_id m of None \<Rightarrow> False
            | Some i \<Rightarrow> (\<exists>c \<in> set (rows_of (containers d)). cid c = i \<and> root_id c = r))
       (\<lambda>m. m\<lparr>thread_id := Some r\<rparr>) d"

text \<open>Steps 2 to 5: the containers and their parents.\<close>

definition link_steps ::
  "nat \<Rightarrow> string \<Rightarrow> string option \<Rightarrow> string list \<Rightarrow> string option \<Rightarrow> message_row table \<Rightarrow>
   container table \<Rightarrow> container table" where
  "link_steps batch_size mid irt rs subj ms T =
     (let chain = reference_chain irt rs;
          T2 = upsert_main mid (map_option normalize_subject subj) T;
          T3 = link_chain chain (insert_placeholders batch_size chain T2);
          T4 = link_message chain mid T3
      in group_by_subject ms mid subj T4)"

text \<open>
  The whole of \<^verbatim>\<open>ingest\<close>. The statements run outside a transaction, so an error of step 6
  leaves the containers as the earlier steps made them. \<open>None\<close>: a query does not return.
\<close>

definition ingest ::
  "nat \<Rightarrow> string \<Rightarrow> string option \<Rightarrow> string list \<Rightarrow> string option \<Rightarrow> db \<Rightarrow>
   (db \<times> string result) option" where
  "ingest batch_size mid irt rs subj d =
     (let T5 = link_steps batch_size mid irt rs subj (messages d) (containers d) in
      case find_root T5 mid of
        Inl e \<Rightarrow> Some (d\<lparr>containers := T5\<rparr>, Inl e)
      | Inr r \<Rightarrow>
          let old_root = (case container_of T5 mid of Some c \<Rightarrow> root_id c | None \<Rightarrow> mid) in
          map_option (\<lambda>T7. (set_thread_ids r (d\<lparr>containers := T7\<rparr>), Inr r))
            (update_roots old_root r T5))"

end
