(* ===== verification/Threading_Forest.thy ===== *)
theory Threading_Forest
  imports Store_Threading
begin

text \<open>
  The container table as a forest: what the upward walk returns, that the cycle check is
  exact, that every step of \<^verbatim>\<open>ingest\<close> keeps the forest, that the downward recursion of
  step 7 terminates within the depth of the forest, and what the returned root is.
\<close>

section \<open>Upserts of containers\<close>

interpretation main_container: keyed_table cid merge_main
  by unfold_locales (simp add: merge_main_def)

interpretation placeholder: keyed_table cid merge_nothing
  by unfold_locales (simp add: merge_nothing_def)

lemma cid_new_container [simp]: "cid (new_container i norm hm) = i"
  by (simp add: new_container_def)

text \<open>Two tables with the same parents: every fact of the forest carries over.\<close>

definition same_parents :: "container table \<Rightarrow> container table \<Rightarrow> bool" where
  "same_parents T T' \<longleftrightarrow> ids T' = ids T \<and> parent_of T' = parent_of T"

lemma parent_rel_cong: "same_parents T T' \<Longrightarrow> parent_rel T' = parent_rel T"
  by (simp add: same_parents_def parent_rel_def)

lemma forest_cong: "forest T \<Longrightarrow> same_parents T T' \<Longrightarrow> table_ok cid T' \<Longrightarrow> forest T'"
  by (simp add: forest_def parent_rel_cong) (simp add: same_parents_def)

lemma parent_rel_iff: "(i, p) \<in> parent_rel T \<longleftrightarrow> parent_of T i = Some p"
  by (simp add: parent_rel_def)

lemma parent_of_ids: "parent_of T i = Some p \<Longrightarrow> i \<in> ids T"
  by (auto simp: parent_of_def container_of_def ids_def split: option.splits dest: lookup_key_Some_keys)

lemma forest_parent_ids: "forest T \<Longrightarrow> parent_of T i = Some p \<Longrightarrow> p \<in> ids T"
  by (force simp: forest_def parent_rel_iff)

lemma container_of_None: "container_of T i = None \<longleftrightarrow> i \<notin> ids T"
  by (simp add: container_of_def ids_def lookup_key_None)

lemma container_of_cid: "container_of T i = Some c \<Longrightarrow> cid c = i"
  by (auto simp: container_of_def dest: lookup_key_SomeD)

lemma container_of_row:
  "forest T \<Longrightarrow> c \<in> set (rows_of T) \<Longrightarrow> container_of T (cid c) = Some c"
  by (simp add: forest_def table_ok_def container_of_def lookup_key_unique)

lemma container_of_in_rows: "container_of T i = Some c \<Longrightarrow> c \<in> set (rows_of T)"
  by (auto simp: container_of_def dest: lookup_key_SomeD)

lemma finite_ids [simp]: "finite (ids T)"
  by (simp add: ids_def keys_of_def)

lemma forest_Nil [simp]: "forest []"
  by (auto simp: forest_def parent_rel_def parent_of_def container_of_def acyclic_def)

section \<open>Reachability along parents\<close>

abbreviation reaches :: "container table \<Rightarrow> string \<Rightarrow> string \<Rightarrow> bool" where
  "reaches T i j \<equiv> (i, j) \<in> (parent_rel T)\<^sup>*"

lemma reaches_no_parent: "parent_of T i = None \<Longrightarrow> reaches T i j \<longleftrightarrow> j = i"
  by (auto simp: parent_rel_iff elim: converse_rtranclE)

lemma reaches_parent:
  "parent_of T i = Some p \<Longrightarrow> reaches T i j \<longleftrightarrow> j = i \<or> reaches T p j"
  by (auto simp: parent_rel_iff elim: converse_rtranclE intro: converse_rtrancl_into_rtrancl)

lemma forest_no_cycle: "forest T \<Longrightarrow> parent_of T i = Some p \<Longrightarrow> \<not> reaches T p i"
proof
  assume "forest T" "parent_of T i = Some p" "reaches T p i"
  then have "(i, i) \<in> (parent_rel T)\<^sup>+"
    by (intro rtrancl_into_trancl2) (simp add: parent_rel_iff)
  with \<open>forest T\<close> show False by (simp add: forest_def acyclic_def)
qed

lemma reaches_ids: "forest T \<Longrightarrow> i \<in> ids T \<Longrightarrow> reaches T i j \<Longrightarrow> j \<in> ids T"
  by (erule rtranclE) (auto simp: parent_rel_iff intro: forest_parent_ids)

definition root_of :: "container table \<Rightarrow> string \<Rightarrow> string \<Rightarrow> bool" where
  "root_of T i r \<longleftrightarrow> r \<in> ids T \<and> parent_of T r = None \<and> reaches T i r"

lemma root_of_unique: "root_of T i r \<Longrightarrow> root_of T i s \<Longrightarrow> r = s"
proof -
  assume r: "root_of T i r" and s: "root_of T i s"
  from r have "reaches T i r" by (simp add: root_of_def)
  then show "r = s"
    using s
  proof (induction rule: converse_rtrancl_induct)
    case base
    then show ?case using r by (simp add: root_of_def reaches_no_parent)
  next
    case (step y z)
    then have p: "parent_of T y = Some z" by (simp add: parent_rel_iff)
    from step.prems p have "root_of T z s"
      by (auto simp: root_of_def reaches_parent)
    then show ?case by (rule step.IH)
  qed
qed

lemma root_of_reaches: "reaches T i j \<Longrightarrow> root_of T j r \<Longrightarrow> root_of T i r"
  by (auto simp: root_of_def)

section \<open>The upward walk\<close>

lemma walk_forest:
  assumes "forest T" and "i \<in> ids T" and "\<forall>s \<in> set seen. \<not> reaches T i s"
  shows "set (map cid (walk T seen i)) = {j. reaches T i j} \<and>
     (\<exists>r. root_of T i r \<and>
       map_option cid (List.find (\<lambda>c. parent_id c = None) (walk T seen i)) = Some r)"
  using assms
proof (induction T seen i rule: walk.induct)
  case (1 T seen i)
  have seen: "i \<notin> set seen" using "1.prems"(3) by auto
  obtain c where c: "container_of T i = Some c"
    using "1.prems"(2) container_of_None [of T i] by (cases "container_of T i") auto
  have ci: "cid c = i" using c by (rule container_of_cid)
  have par: "parent_of T i = parent_id c" using c by (simp add: parent_of_def)
  show ?case
  proof (cases "parent_id c")
    case None
    then have w: "walk T seen i = [c]"
      using seen c by (subst walk.simps) simp
    have "root_of T i i"
      using "1.prems"(2) par None by (simp add: root_of_def)
    with w None par show ?thesis
      by (auto simp: ci reaches_no_parent)
  next
    case (Some p)
    then have pi: "parent_of T i = Some p" using par by simp
    have w: "walk T seen i = c # walk T (i # seen) p"
      using seen c Some by (subst walk.simps) simp
    have "p \<in> ids T" using "1.prems"(1) pi by (rule forest_parent_ids)
    moreover have "\<forall>s \<in> set (i # seen). \<not> reaches T p s"
      using "1.prems"(3) forest_no_cycle [OF "1.prems"(1) pi] reaches_parent [OF pi] by auto
    ultimately have IH: "set (map cid (walk T (i # seen) p)) = {j. reaches T p j} \<and>
       (\<exists>r. root_of T p r \<and>
         map_option cid (List.find (\<lambda>c. parent_id c = None) (walk T (i # seen) p)) = Some r)"
      using "1.IH" seen c Some "1.prems"(1) by blast
    moreover have "root_of T p r \<Longrightarrow> root_of T i r" for r
      using r_into_rtrancl [OF pi [folded parent_rel_iff]] by (rule root_of_reaches)
    moreover have "{j. reaches T i j} = insert i {j. reaches T p j}"
      using pi by (auto simp: reaches_parent)
    ultimately show ?thesis
      using w Some ci by auto
  qed
qed

lemma would_create_cycle_iff:
  "forest T \<Longrightarrow> p \<in> ids T \<Longrightarrow> would_create_cycle T n p \<longleftrightarrow> reaches T p n"
  using walk_forest [of T p "[]"] by (simp add: would_create_cycle_def ancestors_def)

lemma find_root_iff:
  assumes "forest T" and "i \<in> ids T"
  shows "find_root T i = Inr r \<longleftrightarrow> root_of T i r"
proof -
  obtain s where s: "root_of T i s"
      "map_option cid (List.find (\<lambda>c. parent_id c = None) (walk T [] i)) = Some s"
    using walk_forest [OF assms, of "[]"] by auto
  then have "find_root T i = Inr s"
    by (auto simp: find_root_def ancestors_def)
  with s(1) show ?thesis by (auto dest: root_of_unique)
qed

lemma find_root_total:
  assumes "forest T" and "i \<in> ids T"
  obtains r where "find_root T i = Inr r" "root_of T i r"
  using walk_forest [OF assms, of "[]"] find_root_iff [OF assms] by auto

section \<open>Steps that keep the forest\<close>

lemma parent_of_upsert:
  assumes "keyed_table cid m" and "\<And>new old. parent_id (m new old) = parent_id old"
  shows "parent_of (upsert cid m (new_container i norm hm) T) = parent_of T"
  by (rule ext)
    (auto simp: parent_of_def container_of_def keyed_table.lookup_upsert [OF assms(1)]
      new_container_def assms(2) split: option.splits)

lemma forest_upsert:
  assumes "forest T" and "keyed_table cid m" and "\<And>new old. parent_id (m new old) = parent_id old"
  shows "forest (upsert cid m (new_container i norm hm) T)"
    and "ids (upsert cid m (new_container i norm hm) T) = insert i (ids T)"
    and "parent_of (upsert cid m (new_container i norm hm) T) = parent_of T"
proof -
  let ?T = "upsert cid m (new_container i norm hm) T"
  show ids: "ids ?T = insert i (ids T)"
    by (simp add: ids_def keyed_table.keys_upsert [OF assms(2)])
  show par: "parent_of ?T = parent_of T" by (rule parent_of_upsert [OF assms(2,3)])
  then have "parent_rel ?T = parent_rel T" by (simp add: parent_rel_def)
  with assms(1) ids keyed_table.upsert_ok [OF assms(2)] show "forest ?T"
    by (auto simp: forest_def)
qed

lemmas forest_upsert_main =
  forest_upsert [OF _ main_container.keyed_table_axioms, simplified merge_main_def, simplified]

lemma upsert_main_facts:
  assumes "forest T"
  shows "forest (upsert_main i norm T)"
    and "ids (upsert_main i norm T) = insert i (ids T)"
    and "parent_of (upsert_main i norm T) = parent_of T"
  using forest_upsert [OF assms main_container.keyed_table_axioms, of i norm True]
  by (simp_all add: upsert_main_def merge_main_def)

lemma placeholder_facts:
  assumes "forest T"
  shows "forest (upsert cid merge_nothing (new_container i None False) T)"
    and "ids (upsert cid merge_nothing (new_container i None False) T) = insert i (ids T)"
    and "parent_of (upsert cid merge_nothing (new_container i None False) T) = parent_of T"
  using forest_upsert [OF assms placeholder.keyed_table_axioms, of i None False]
  by (simp_all add: merge_nothing_def)

lemma insert_batch_facts:
  "forest T \<Longrightarrow> forest (insert_batch b T) \<and> ids (insert_batch b T) = set b \<union> ids T \<and>
     parent_of (insert_batch b T) = parent_of T"
  by (induction b arbitrary: T) (auto simp: insert_batch_def placeholder_facts)

lemma insert_batch_append: "insert_batch (a @ b) T = insert_batch b (insert_batch a T)"
  by (simp add: insert_batch_def)

lemma insert_placeholders_eq: "insert_placeholders n chain T = insert_batch chain T"
proof -
  have "fold insert_batch bs T = insert_batch (concat bs) T" for bs
    by (induction bs arbitrary: T) (simp_all add: insert_batch_append, simp add: insert_batch_def)
  then show ?thesis
    by (simp add: insert_placeholders_def placeholder_batches_def concat_chunks)
qed

lemma set_parent_facts:
  "ids (set_parent child p T) = ids T"
  "parent_of (set_parent child p T) = (parent_of T)(child := if child \<in> ids T then Some p else None)"
  "table_ok cid T \<Longrightarrow> table_ok cid (set_parent child p T)"
proof -
  have l: "container_of (set_parent child p T) i =
      map_option (\<lambda>c. if cid c = child then c\<lparr>parent_id := Some p\<rparr> else c) (container_of T i)" for i
    unfolding set_parent_def container_of_def by (rule lookup_key_update_where) simp
  show "ids (set_parent child p T) = ids T"
    unfolding set_parent_def ids_def by (rule keys_of_update_where) simp
  show "parent_of (set_parent child p T) = (parent_of T)(child := if child \<in> ids T then Some p else None)"
    using container_of_None [of T child] container_of_cid [of T]
    by (force simp: parent_of_def l split: option.splits)
  show "table_ok cid T \<Longrightarrow> table_ok cid (set_parent child p T)"
    unfolding set_parent_def by (rule table_ok_update_where) auto
qed

lemma forest_set_parent:
  assumes "forest T" "p \<in> ids T" "parent_of T child = None" "\<not> reaches T p child"
  shows "forest (set_parent child p T)"
proof (cases "child \<in> ids T")
  case True
  have "parent_rel (set_parent child p T) = insert (child, p) (parent_rel T)"
    using True assms(3) by (auto simp: parent_rel_def set_parent_facts split: if_splits)
  moreover have "acyclic (insert (child, p) (parent_rel T))"
    using assms by (simp add: forest_def acyclic_insert)
  ultimately show ?thesis
    using assms by (simp add: forest_def set_parent_facts)
next
  case False
  then have "parent_rel (set_parent child p T) = parent_rel T"
    using assms(3) by (auto simp: parent_rel_def set_parent_facts split: if_splits)
  with assms show ?thesis by (simp add: forest_def set_parent_facts)
qed

lemma link_facts:
  assumes "forest T" "p \<in> ids T"
  shows "forest (link p child T)" and "ids (link p child T) = ids T"
proof -
  have "forest (set_parent child p T)"
    if "container_of T child = Some c" "parent_id c = None" "\<not> would_create_cycle T child p" for c
    using assms that by (intro forest_set_parent) (auto simp: parent_of_def would_create_cycle_iff)
  with assms(1) show "forest (link p child T)"
    by (auto simp: link_def split: option.splits)
  show "ids (link p child T) = ids T"
    by (auto simp: link_def set_parent_facts split: option.splits)
qed

lemma link_chain_facts:
  assumes "forest T" "set chain \<subseteq> ids T"
  shows "forest (link_chain chain T)" and "ids (link_chain chain T) = ids T"
proof -
  have "forest (fold (\<lambda>(p, child). link p child) es T) \<and>
      ids (fold (\<lambda>(p, child). link p child) es T) = ids T"
    if "fst ` set es \<subseteq> ids T" for es
    using assms(1) that by (induction es arbitrary: T) (auto simp: link_facts)
  moreover have "fst ` set (zip chain (tl chain)) \<subseteq> ids T"
    using assms(2) by (auto dest: set_zip_leftD)
  ultimately show "forest (link_chain chain T)" "ids (link_chain chain T) = ids T"
    by (simp_all add: link_chain_def)
qed

lemma link_message_facts:
  assumes "forest T" "set chain \<subseteq> ids T"
  shows "forest (link_message chain mid T)" and "ids (link_message chain mid T) = ids T"
  using assms link_facts [of T "last chain" mid]
  by (auto simp: link_message_def last_in_set subset_iff)

lemma select_where_hd: "select_where P t = r # rs \<Longrightarrow> r \<in> set (rows_of t) \<and> P r"
  by (metis list.set_intros(1) select_where_iff)

lemma group_by_subject_cases:
  assumes "group_by_subject ms mid subj T \<noteq> T"
  shows "\<exists>other. parent_of T mid = None \<and> other \<in> ids T \<and> \<not> would_create_cycle T mid other \<and>
     group_by_subject ms mid subj T = set_parent mid other T"
proof -
  let ?P = "\<lambda>s tc. subject_norm tc = Some (normalize_subject s) \<and> cid tc \<noteq> mid \<and> parent_id tc = None"
  obtain c where c: "container_of T mid = Some c" "parent_id c = None"
    using assms by (auto simp: group_by_subject_def split: option.splits if_splits)
  obtain s where s: "subj = Some s"
    using assms c by (cases subj) (simp_all add: group_by_subject_def)
  obtain r rs where r: "select_where (?P s) T = r # rs"
    using assms c s by (cases "select_where (?P s) T") (simp_all add: group_by_subject_def)
  have "\<not> would_create_cycle T mid (cid r) \<and> group_by_subject ms mid subj T = set_parent mid (cid r) T"
    using assms c s r by (simp add: group_by_subject_def Let_def split: if_splits)
  moreover have "cid r \<in> ids T"
    using select_where_hd [OF r] by (simp add: ids_def keys_ofI)
  ultimately show ?thesis
    using c by (auto simp: parent_of_def)
qed

lemma group_by_subject_facts:
  assumes "forest T"
  shows "forest (group_by_subject ms mid subj T) \<and> ids (group_by_subject ms mid subj T) = ids T"
proof (cases "group_by_subject ms mid subj T = T")
  case True
  with assms show ?thesis by simp
next
  case False
  then obtain other where o: "parent_of T mid = None" "other \<in> ids T" "\<not> would_create_cycle T mid other"
     "group_by_subject ms mid subj T = set_parent mid other T"
    using group_by_subject_cases by blast
  have "\<not> reaches T other mid" using assms o by (simp add: would_create_cycle_iff)
  with assms o forest_set_parent [of T other mid] show ?thesis by (simp add: set_parent_facts)
qed

lemma link_steps_facts:
  assumes "forest T"
  shows "forest (link_steps n mid irt rs subj ms T)"
    and "ids (link_steps n mid irt rs subj ms T) = insert mid (set (reference_chain irt rs) \<union> ids T)"
proof -
  let ?chain = "reference_chain irt rs"
  let ?T2 = "upsert_main mid (map_option normalize_subject subj) T"
  let ?P = "insert_placeholders n ?chain ?T2"
  have T2: "forest ?T2" "ids ?T2 = insert mid (ids T)"
    using assms by (simp_all add: upsert_main_facts)
  then have P: "forest ?P" "ids ?P = insert mid (set ?chain \<union> ids T)"
    using insert_batch_facts [of ?T2 ?chain] by (auto simp: insert_placeholders_eq)
  let ?T3 = "link_chain ?chain ?P"
  let ?T4 = "link_message ?chain mid ?T3"
  have sub: "set ?chain \<subseteq> ids ?P" unfolding P(2) by blast
  have T3: "forest ?T3" "ids ?T3 = ids ?P"
    using link_chain_facts [OF P(1) sub] by blast+
  have T4: "forest ?T4" "ids ?T4 = ids ?P"
    using link_message_facts [OF T3(1), of ?chain mid] sub unfolding T3(2) by blast+
  show "forest (link_steps n mid irt rs subj ms T)"
    using T4 by (simp add: link_steps_def Let_def group_by_subject_facts)
  show "ids (link_steps n mid irt rs subj ms T) = insert mid (set ?chain \<union> ids T)"
    using T4 by (simp add: link_steps_def Let_def group_by_subject_facts P(2))
qed

section \<open>The downward recursion\<close>

definition depth :: "container table \<Rightarrow> string \<Rightarrow> nat" where
  "depth T i = card {j. reaches T i j}"

lemma finite_reaches: "forest T \<Longrightarrow> i \<in> ids T \<Longrightarrow> finite {j. reaches T i j}"
  by (rule finite_subset [of _ "ids T"]) (auto intro: reaches_ids)

lemma depth_le: "forest T \<Longrightarrow> i \<in> ids T \<Longrightarrow> depth T i \<le> length T"
proof -
  assume a: "forest T" "i \<in> ids T"
  then have "depth T i \<le> card (ids T)"
    unfolding depth_def by (intro card_mono) (auto intro: reaches_ids)
  also have "\<dots> \<le> length (rows_of T)"
    unfolding ids_def keys_of_def by (metis card_length length_map list.set_map)
  finally show ?thesis by (simp add: rows_of_def)
qed

lemma depth_parent: "forest T \<Longrightarrow> parent_of T i = Some p \<Longrightarrow> depth T i = Suc (depth T p)"
proof -
  assume a: "forest T" "parent_of T i = Some p"
  have "{j. reaches T i j} = insert i {j. reaches T p j}"
    using a by (auto simp: reaches_parent)
  moreover have "finite {j. reaches T p j}" "i \<notin> {j. reaches T p j}"
    using a by (auto intro: finite_reaches forest_parent_ids simp: forest_no_cycle)
  ultimately show ?thesis by (simp add: depth_def)
qed

lemma set_children: "forest T \<Longrightarrow> set (children T p) = {i. parent_of T i = Some p}"
proof (intro set_eqI iffI)
  fix i assume "forest T" "i \<in> set (children T p)"
  then obtain c where "c \<in> set (rows_of T)" "parent_id c = Some p" "i = cid c"
    by (auto simp: children_def)
  with \<open>forest T\<close> show "i \<in> {i. parent_of T i = Some p}"
    by (simp add: parent_of_def container_of_row)
next
  fix i assume "forest T" "i \<in> {i. parent_of T i = Some p}"
  then obtain c where c: "container_of T i = Some c" "parent_id c = Some p"
    by (auto simp: parent_of_def split: option.splits)
  then show "i \<in> set (children T p)"
    using container_of_in_rows [OF c(1)] container_of_cid [OF c(1)]
    by (auto simp: children_def image_iff intro!: bexI [of _ c])
qed

text \<open>
  With as many levels as the table has rows, and one more, the recursion ends: each level
  is one deeper than the one before, and no container is deeper than the table is long.
\<close>

lemma subtree_terminates:
  assumes T: "forest T"
  shows "\<forall>x \<in> set fr. x \<in> ids T \<and> length T < depth T x + n \<Longrightarrow> \<exists>r. subtree n T fr = Some r"
proof (induction n arbitrary: fr)
  case 0
  then have "fr = []"
    using depth_le [OF T] by (cases fr) fastforce+
  then show ?case by simp
next
  case (Suc n)
  show ?case
  proof (cases fr)
    case Nil
    then show ?thesis by simp
  next
    case (Cons x xs)
    have "y \<in> ids T \<and> length T < depth T y + n" if "y \<in> set (concat (map (children T) fr))" for y
    proof -
      from that obtain p where p: "p \<in> set fr" "parent_of T y = Some p"
        using set_children [OF T] by auto
      with Suc.prems show ?thesis
        by (auto simp: depth_parent [OF T] parent_of_ids)
    qed
    then obtain r where "subtree n T (concat (map (children T) fr)) = Some r"
      using Suc.IH by blast
    with Cons show ?thesis by simp
  qed
qed

lemma set_subtree:
  assumes T: "forest T"
  shows "subtree n T fr = Some r \<Longrightarrow> set r = {y. \<exists>x \<in> set fr. reaches T y x}"
proof (induction n arbitrary: fr r)
  case 0
  then show ?case by (cases fr) auto
next
  case (Suc n)
  show ?case
  proof (cases fr)
    case Nil
    with Suc.prems show ?thesis by simp
  next
    case (Cons x xs)
    let ?kids = "concat (map (children T) fr)"
    from Suc.prems Cons obtain r' where r': "subtree n T ?kids = Some r'" "r = fr @ r'"
      by auto
    have "set ?kids = {y. \<exists>p \<in> set fr. (y, p) \<in> parent_rel T}"
      using set_children [OF T] by (auto simp: parent_rel_iff)
    with Suc.IH [OF r'(1)]
    have "set r' = {y. \<exists>p \<in> set fr. \<exists>x. (x, p) \<in> parent_rel T \<and> reaches T y x}"
      by blast
    then have "y \<in> set r \<longleftrightarrow> (\<exists>p \<in> set fr. y = p \<or> (\<exists>z. (z, p) \<in> parent_rel T \<and> reaches T y z))" for y
      unfolding r'(2) set_append by auto
    also have "(\<exists>p \<in> set fr. y = p \<or> (\<exists>z. (z, p) \<in> parent_rel T \<and> reaches T y z)) \<longleftrightarrow>
        (\<exists>p \<in> set fr. reaches T y p)" for y
      by (rule bex_cong [OF refl]) (auto intro: rtrancl_into_rtrancl elim: rtranclE)
    finally show ?thesis by blast
  qed
qed

lemma set_root_facts:
  "ids (set_root is r T) = ids T"
  "parent_of (set_root is r T) = parent_of T"
  "table_ok cid T \<Longrightarrow> table_ok cid (set_root is r T)"
  "container_of (set_root is r T) i =
     map_option (\<lambda>c. if cid c \<in> set is then c\<lparr>root_id := r\<rparr> else c) (container_of T i)"
proof -
  have l: "container_of (set_root is r T) i =
      map_option (\<lambda>c. if cid c \<in> set is then c\<lparr>root_id := r\<rparr> else c) (container_of T i)" for i
    unfolding set_root_def container_of_def by (rule lookup_key_update_where) simp
  then show "container_of (set_root is r T) i =
     map_option (\<lambda>c. if cid c \<in> set is then c\<lparr>root_id := r\<rparr> else c) (container_of T i)" .
  show "ids (set_root is r T) = ids T"
    unfolding set_root_def ids_def by (rule keys_of_update_where) simp
  show "parent_of (set_root is r T) = parent_of T"
    by (rule ext) (simp add: parent_of_def l split: option.splits)
  show "table_ok cid T \<Longrightarrow> table_ok cid (set_root is r T)"
    unfolding set_root_def by (rule table_ok_update_where) auto
qed

lemma reroot_facts:
  assumes T: "forest T"
  obtains T' where "reroot base r T = Some T'" "forest T'" "same_parents T T'"
    "\<And>i c. container_of T i = Some c \<Longrightarrow>
       container_of T' i = Some (if \<exists>b \<in> set (rows_of T). base b \<and> reaches T i (cid b)
                                 then c\<lparr>root_id := r\<rparr> else c)"
proof -
  let ?base = "map cid (select_where base T)"
  have "\<forall>x \<in> set ?base. x \<in> ids T \<and> length T < depth T x + Suc (length T)"
    by (auto simp: ids_def intro: keys_ofI)
  then obtain zs where zs: "subtree (Suc (length T)) T ?base = Some zs"
    using subtree_terminates [OF T] by blast
  have set_zs: "set zs = {y. \<exists>x \<in> set ?base. reaches T y x}"
    using set_subtree [OF T zs] .
  show thesis
  proof (rule that)
    show "reroot base r T = Some (set_root zs r T)"
      using zs by (simp add: reroot_def)
    show "same_parents T (set_root zs r T)"
      by (simp add: same_parents_def set_root_facts)
    then show "forest (set_root zs r T)"
      by (rule forest_cong [OF T]) (use T in \<open>simp add: set_root_facts forest_def\<close>)
    show "container_of (set_root zs r T) i =
        Some (if \<exists>b \<in> set (rows_of T). base b \<and> reaches T i (cid b) then c\<lparr>root_id := r\<rparr> else c)"
      if "container_of T i = Some c" for i c
      using that container_of_cid [OF that] set_zs by (auto simp: set_root_facts)
  qed
qed

lemma update_roots_facts:
  assumes T: "forest T" and r: "r \<in> ids T"
  obtains T' where "update_roots old r T = Some T'" "forest T'" "same_parents T T'"
    "\<And>i c. old \<noteq> r \<Longrightarrow> reaches T i r \<Longrightarrow> container_of T' i = Some c \<Longrightarrow> root_id c = r"
    "old = r \<Longrightarrow> T' = T"
proof (cases "old = r")
  case True
  with T show thesis
    by (intro that [of T]) (auto simp: update_roots_def same_parents_def)
next
  case False
  obtain T1 where T1: "reroot (\<lambda>c. cid c = r) r T = Some T1" "forest T1" "same_parents T T1"
    and c1: "\<And>i c. container_of T i = Some c \<Longrightarrow>
       container_of T1 i = Some (if \<exists>b \<in> set (rows_of T). cid b = r \<and> reaches T i (cid b)
                                 then c\<lparr>root_id := r\<rparr> else c)"
    using reroot_facts [OF T, of "\<lambda>c. cid c = r" r] by blast
  obtain T2 where T2: "reroot (\<lambda>c. root_id c = old) r T1 = Some T2" "forest T2" "same_parents T1 T2"
    and c2: "\<And>i c. container_of T1 i = Some c \<Longrightarrow>
       container_of T2 i = Some (if \<exists>b \<in> set (rows_of T1). root_id b = old \<and> reaches T1 i (cid b)
                                 then c\<lparr>root_id := r\<rparr> else c)"
    using reroot_facts [OF T1(2), of "\<lambda>c. root_id c = old" r] by blast
  have root_row: "\<exists>b \<in> set (rows_of T). cid b = r"
    using r by (auto simp: ids_def keys_of_def)
  show thesis
  proof (rule that [of T2])
    show "update_roots old r T = Some T2"
      using False T1(1) T2(1) by (simp add: update_roots_def)
    show "same_parents T T2"
      using T1(3) T2(3) by (simp add: same_parents_def)
    show "root_id c = r" if "reaches T i r" "container_of T2 i = Some c" for i c
    proof -
      have "i \<in> ids T"
        using that(2) container_of_None [of T2 i] T1(3) T2(3) by (auto simp: same_parents_def)
      then obtain c0 where c0: "container_of T i = Some c0"
        using container_of_None [of T i] by auto
      have ex: "\<exists>b \<in> set (rows_of T). cid b = r \<and> reaches T i (cid b)"
        using root_row that(1) by auto
      have "container_of T1 i = Some (c0\<lparr>root_id := r\<rparr>)"
        using c1 [OF c0] ex by simp
      from c2 [OF this] that(2) show ?thesis by (auto split: if_splits)
    qed
  qed (use False T2 in auto)
qed

end
