(* ===== verification/Threading_Props.thy ===== *)
theory Threading_Props
  imports Threading_Forest
begin

text \<open>
  \<^verbatim>\<open>Store::set_threading\<close> on top of \<^verbatim>\<open>ingest\<close>, and the properties of the two.
\<close>

section \<open>set\_threading\<close>

text \<open>
  A message without a Message-ID gets the synthetic one \<^verbatim>\<open>folder/uid/uidvalidity\<close>. The
  row of the message itself is written last, whether or not its id is in the index.
\<close>

definition set_threading ::
  "string \<Rightarrow> int \<Rightarrow> int \<Rightarrow> string option \<Rightarrow> string option \<Rightarrow> string list \<Rightarrow> db \<Rightarrow>
   (db \<times> unit result) option" where
  "set_threading f u uv mid irt rs d =
     (let subj = (case lookup_key message_key (f, u, uv) (messages d) of
                    None \<Rightarrow> None | Some m \<Rightarrow> subject m);
          synthetic = f @ ''/'' @ show_int u @ ''/'' @ show_int uv;
          i = (case mid of Some x \<Rightarrow> x | None \<Rightarrow> synthetic)
      in case ingest PLACEHOLDER_BATCH_SIZE i irt rs subj d of
           None \<Rightarrow> None
         | Some (d', Inl e) \<Rightarrow> Some (d', Inl e)
         | Some (d', Inr tid) \<Rightarrow>
             Some (update_messages_where (\<lambda>m. message_key m = (f, u, uv))
                     (\<lambda>m. m\<lparr>in_reply_to := irt,
                            refs := (if rs = [] then None else Some (join [CHR 0x0A] rs)),
                            thread_id := Some tid\<rparr>) d',
                   Inr ()))"

section \<open>The denormalised root\<close>

definition root_id_of :: "container table \<Rightarrow> string \<Rightarrow> string option" where
  "root_id_of T i = map_option root_id (container_of T i)"

text \<open>Steps 2 to 5 never write \<open>root_id\<close> of an existing container.\<close>

definition keeps_roots :: "container table \<Rightarrow> container table \<Rightarrow> bool" where
  "keeps_roots T T' \<longleftrightarrow> (\<forall>i. root_id_of T i = None \<or> root_id_of T' i = root_id_of T i)"

lemma keeps_roots_refl [simp]: "keeps_roots T T"
  by (simp add: keeps_roots_def)

lemma keeps_roots_trans: "keeps_roots T U \<Longrightarrow> keeps_roots U V \<Longrightarrow> keeps_roots T V"
  unfolding keeps_roots_def by (metis)

lemma keeps_roots_upsert:
  assumes "keyed_table cid m" and "\<And>new old. root_id (m new old) = root_id old"
  shows "keeps_roots T (upsert cid m c T)"
  by (auto simp: keeps_roots_def root_id_of_def container_of_def
      keyed_table.lookup_upsert [OF assms(1)] assms(2) split: option.splits)

lemma keeps_roots_set_parent: "keeps_roots T (set_parent child p T)"
proof -
  have "container_of (set_parent child p T) i =
      map_option (\<lambda>c. if cid c = child then c\<lparr>parent_id := Some p\<rparr> else c) (container_of T i)" for i
    unfolding set_parent_def container_of_def by (rule lookup_key_update_where) simp
  then show ?thesis
    by (simp add: keeps_roots_def root_id_of_def option.map_comp comp_def if_distrib
        cong: if_cong)
qed

lemma keeps_roots_link: "keeps_roots T (link p child T)"
  by (auto simp: link_def keeps_roots_set_parent split: option.splits)

lemma keeps_roots_fold: "(\<And>x T. keeps_roots T (f x T)) \<Longrightarrow> keeps_roots T (fold f xs T)"
  by (induction xs arbitrary: T) (auto intro: keeps_roots_trans)

lemma keeps_roots_batch: "keeps_roots T (insert_batch b T)"
  unfolding insert_batch_def
  by (intro keeps_roots_fold keeps_roots_upsert placeholder.keyed_table_axioms)
    (simp add: merge_nothing_def)

lemma keeps_roots_link_chain: "keeps_roots T (link_chain chain T)"
  unfolding link_chain_def by (intro keeps_roots_fold) (auto simp: keeps_roots_link)

lemma keeps_roots_group: "keeps_roots T (group_by_subject ms mid subj T)"
proof (cases "group_by_subject ms mid subj T = T")
  case False
  then show ?thesis using group_by_subject_cases [OF False] keeps_roots_set_parent by metis
qed simp

lemma root_id_of_link_steps:
  "root_id_of (link_steps n mid irt rs subj ms T) mid =
     Some (case root_id_of T mid of Some r \<Rightarrow> r | None \<Rightarrow> mid)"
proof -
  let ?T2 = "upsert_main mid (map_option normalize_subject subj) T"
  let ?chain = "reference_chain irt rs"
  let ?T3 = "link_chain ?chain (insert_batch ?chain ?T2)"
  let ?T4 = "link_message ?chain mid ?T3"
  have "keeps_roots ?T2 ?T3"
    using keeps_roots_batch keeps_roots_link_chain by (rule keeps_roots_trans)
  moreover have "keeps_roots ?T3 ?T4"
    by (simp add: link_message_def keeps_roots_link)
  ultimately have "keeps_roots ?T2 ?T4" by (rule keeps_roots_trans)
  then have "keeps_roots ?T2 (group_by_subject ms mid subj ?T4)"
    using keeps_roots_group by (rule keeps_roots_trans)
  then have "keeps_roots ?T2 (link_steps n mid irt rs subj ms T)"
    by (simp only: link_steps_def Let_def insert_placeholders_eq)
  moreover have "root_id_of ?T2 mid = Some (case root_id_of T mid of Some r \<Rightarrow> r | None \<Rightarrow> mid)"
    by (simp add: root_id_of_def container_of_def upsert_main_def main_container.lookup_upsert
        merge_main_def new_container_def split: option.split)
  ultimately show ?thesis
    unfolding keeps_roots_def by (metis option.distinct(1))
qed

section \<open>What ingest does\<close>

lemma ingest_result:
  assumes T: "forest (containers d)"
  obtains T' r where
    "ingest n mid irt rs subj d = Some (set_thread_ids r (d\<lparr>containers := T'\<rparr>), Inr r)"
    "forest T'" "ids T' = insert mid (set (reference_chain irt rs) \<union> ids (containers d))"
    "root_of T' mid r" "root_id_of T' mid = Some r"
    "parent_of T' = parent_of (link_steps n mid irt rs subj (messages d) (containers d))"
    "\<And>i c. root_id_of (containers d) mid \<noteq> Some r \<Longrightarrow> r \<noteq> mid \<or> mid \<in> ids (containers d) \<Longrightarrow>
       reaches T' i r \<Longrightarrow> container_of T' i = Some c \<Longrightarrow> root_id c = r"
proof -
  let ?T5 = "link_steps n mid irt rs subj (messages d) (containers d)"
  have T5: "forest ?T5" "ids ?T5 = insert mid (set (reference_chain irt rs) \<union> ids (containers d))"
    using T by (simp_all add: link_steps_facts)
  then have "mid \<in> ids ?T5" by simp
  then obtain r where r: "find_root ?T5 mid = Inr r" "root_of ?T5 mid r"
    using find_root_total [OF T5(1)] by metis
  define old where "old = (case container_of ?T5 mid of Some c \<Rightarrow> root_id c | None \<Rightarrow> mid)"
  have old: "root_id_of ?T5 mid = Some old"
    using root_id_of_link_steps [of n mid irt rs subj "messages d" "containers d"]
    by (auto simp: old_def root_id_of_def)
  have old': "old = (case root_id_of (containers d) mid of Some r \<Rightarrow> r | None \<Rightarrow> mid)"
    using old root_id_of_link_steps [of n mid irt rs subj "messages d" "containers d"] by simp
  have "r \<in> ids ?T5" using r(2) by (simp add: root_of_def)
  then obtain T' where T': "update_roots old r ?T5 = Some T'" "forest T'" "same_parents ?T5 T'"
    and moved: "\<And>i c. old \<noteq> r \<Longrightarrow> reaches ?T5 i r \<Longrightarrow> container_of T' i = Some c \<Longrightarrow> root_id c = r"
    and unmoved: "old = r \<Longrightarrow> T' = ?T5"
    using update_roots_facts [OF T5(1)] by metis
  have rel: "parent_rel T' = parent_rel ?T5" using T'(3) by (rule parent_rel_cong)
  have root': "root_of T' mid r"
    using r(2) T'(3) by (simp add: root_of_def rel) (simp add: same_parents_def)
  have "mid \<in> ids T'" using T'(3) T5 by (simp add: same_parents_def)
  then obtain cm where cm: "container_of T' mid = Some cm"
    using container_of_None [of T' mid] by auto
  show thesis
  proof (rule that)
    show "ingest n mid irt rs subj d = Some (set_thread_ids r (d\<lparr>containers := T'\<rparr>), Inr r)"
      using r(1) T'(1) by (simp add: ingest_def Let_def flip: old_def)
    show "forest T'" "root_of T' mid r" by fact+
    show "ids T' = insert mid (set (reference_chain irt rs) \<union> ids (containers d))"
      "parent_of T' = parent_of ?T5"
      using T'(3) T5(2) by (simp_all add: same_parents_def)
    show "root_id_of T' mid = Some r"
    proof (cases "old = r")
      case True
      with unmoved old show ?thesis by simp
    next
      case False
      have "reaches ?T5 mid r" using r(2) by (simp add: root_of_def)
      from moved [OF False this cm] cm show ?thesis by (simp add: root_id_of_def)
    qed
    show "root_id c = r"
      if "root_id_of (containers d) mid \<noteq> Some r" "r \<noteq> mid \<or> mid \<in> ids (containers d)"
        "reaches T' i r" "container_of T' i = Some c" for i c
    proof (rule moved)
      show "old \<noteq> r"
        using that(1,2) container_of_None [of "containers d" mid]
        by (auto simp: old' root_id_of_def split: option.splits)
    qed (use that rel in auto)
  qed
qed

lemma set_thread_ids_messages:
  assumes "c \<in> set (rows_of (containers d))" "root_id c = r"
    and "m \<in> set (rows_of (messages (set_thread_ids r d)))" "message_id m = Some (cid c)"
  shows "thread_id m = Some r"
  using assms by (auto simp: set_thread_ids_def split: if_splits)

text \<open>
  C1. Ingesting a message into a forest of containers always returns, keeps the forest (no
  cycle, no dangling parent, unique ids), and what it returns is the root that the upward
  query now finds for the message, also stored in the message's own \<^verbatim>\<open>root_id\<close>. In
  particular \<^verbatim>\<open>Error::ThreadRoot\<close> cannot occur and no recursive query runs forever,
  whatever ids the References header holds.
\<close>

theorem ingest_resolves_root:
  assumes "forest (containers d)"
  shows "\<exists>d' r. ingest n mid irt rs subj d = Some (d', Inr r) \<and> forest (containers d') \<and>
     find_root (containers d') mid = Inr r \<and> root_id_of (containers d') mid = Some r"
proof -
  obtain T' r where "ingest n mid irt rs subj d = Some (set_thread_ids r (d\<lparr>containers := T'\<rparr>), Inr r)"
      "forest T'" "root_of T' mid r" "root_id_of T' mid = Some r" "mid \<in> ids T'"
    using ingest_result [OF assms] by (metis insertI1)
  then show ?thesis
    by (simp add: find_root_iff set_thread_ids_def)
qed

definition d_witness :: db where
  "d_witness = empty_db\<lparr>messages :=
     [(1, \<lparr>folder = ''INBOX'', uid = 7, uidvalidity = 1, message_id = Some ''m'',
           subject = Some ''Re: plan'', from_addr = None, to_addrs = None, date_unix = None,
           flags = '''', maildir_path = None, headers_only = 1, fetched_at_unix = 0,
           in_reply_to = None, refs = None, thread_id = None, provider_id = None\<rparr>)]\<rparr>"

theorem ingest_resolves_root_witness:
  "\<exists>d' r. ingest 2 ''m'' (Some ''b'') [''a'', ''b''] (Some ''Re: plan'') d_witness = Some (d', Inr r) \<and>
     forest (containers d') \<and> find_root (containers d') ''m'' = Inr r \<and>
     root_id_of (containers d') ''m'' = Some r"
proof -
  have "forest (containers d_witness)" by (simp add: d_witness_def empty_db_def)
  then show ?thesis by (rule ingest_resolves_root)
qed

text \<open>
  C9. When a newly arrived message joins a thread under another root, the whole thread is
  relabelled: every container below that root carries it as \<^verbatim>\<open>root_id\<close>, and every stored
  message with the id of such a container has it as its thread id.
\<close>

theorem ingest_moves_thread:
  assumes "forest (containers d)" and "mid \<notin> ids (containers d)"
    and "ingest n mid irt rs subj d = Some (d', Inr r)" and "r \<noteq> mid"
    and "reaches (containers d') i r" and "i \<in> ids (containers d')"
  shows "root_id_of (containers d') i = Some r \<and>
     (\<forall>m \<in> set (rows_of (messages d')). message_id m = Some i \<longrightarrow> thread_id m = Some r)"
proof (rule ingest_result [OF assms(1), of n mid irt rs subj])
  fix T' r'
  assume "ingest n mid irt rs subj d = Some (set_thread_ids r' (d\<lparr>containers := T'\<rparr>), Inr r')"
    and moved: "\<And>i c. root_id_of (containers d) mid \<noteq> Some r' \<Longrightarrow> r' \<noteq> mid \<or> mid \<in> ids (containers d) \<Longrightarrow>
       reaches T' i r' \<Longrightarrow> container_of T' i = Some c \<Longrightarrow> root_id c = r'"
  with assms(3) have d': "d' = set_thread_ids r (d\<lparr>containers := T'\<rparr>)" and rr: "r' = r" by auto
  have T': "containers d' = T'" by (simp add: d' set_thread_ids_def)
  have "container_of (containers d) mid = None"
    using assms(2) by (simp add: container_of_None)
  then have none: "root_id_of (containers d) mid \<noteq> Some r'" by (simp add: root_id_of_def)
  obtain c where c: "container_of T' i = Some c"
    using assms(6) container_of_None [of T' i] T' by (cases "container_of T' i") auto
  have r: "root_id c = r"
    using moved [OF none _ _ c] assms(4,5) T' rr by simp
  have "c \<in> set (rows_of (containers (d\<lparr>containers := T'\<rparr>)))" "cid c = i"
    using container_of_in_rows [OF c] container_of_cid [OF c] by simp_all
  then have "\<forall>m \<in> set (rows_of (messages d')). message_id m = Some i \<longrightarrow> thread_id m = Some r"
    using set_thread_ids_messages [OF _ r] d' by blast
  then show ?thesis using r c T' by (simp add: root_id_of_def)
qed

definition d_joined :: db where
  "d_joined = fst (the (ingest 2 ''m'' None [''a''] None d_witness))"

lemma d_joined: "ingest 2 ''m'' None [''a''] None d_witness = Some (d_joined, Inr ''a'')"
  unfolding d_joined_def by code_simp

theorem ingest_moves_thread_witness:
  "root_id_of (containers d_joined) ''m'' = Some ''a'' \<and>
     thread_id ` {m \<in> set (rows_of (messages d_joined)). message_id m = Some ''m''} \<subseteq> {Some ''a''}"
proof -
  have f: "forest (containers d_witness)" and n: "''m'' \<notin> ids (containers d_witness)"
    by (simp_all add: d_witness_def empty_db_def ids_def)
  have p: "parent_of (containers d_joined) ''m'' = Some ''a''"
    unfolding d_joined_def by code_simp
  then have "''m'' \<in> ids (containers d_joined)" by (rule parent_of_ids)
  moreover have "reaches (containers d_joined) ''m'' ''a''"
    using p by (simp add: parent_rel_iff r_into_rtrancl)
  ultimately show ?thesis
    using ingest_moves_thread [OF f n d_joined] by auto
qed

text \<open>
  Relabelling follows the ingested message only. A message that is already in a thread
  when its own References link two other containers leaves the linked child with a stale
  \<^verbatim>\<open>root_id\<close>: its parent chain ends at another root. Here a reply first places \<^verbatim>\<open>m\<close> under
  \<^verbatim>\<open>a\<close>; then \<^verbatim>\<open>m\<close> itself arrives with References \<^verbatim>\<open>p, q\<close>; \<^verbatim>\<open>q\<close> becomes a child of
  \<^verbatim>\<open>p\<close> but keeps itself as its root.
\<close>

definition ingest_all :: "(string \<times> string list) list \<Rightarrow> db \<Rightarrow> db" where
  "ingest_all ms d = fold (\<lambda>(mid, rs) d. fst (the (ingest 2 mid None rs None d))) ms d"

definition d_stale :: db where
  "d_stale = ingest_all [(''q'', []), (''c'', [''a'', ''m'']), (''m'', [''p'', ''q''])] empty_db"

theorem ingest_leaves_stale_root:
  "find_root (containers d_stale) ''q'' = Inr ''p'' \<and>
   root_id_of (containers d_stale) ''q'' = Some ''q''"
  by code_simp

text \<open>
  The placeholder INSERTs lose nothing to batching: whatever the batch size, the
  batches concatenate to the reference chain, each statement binds at most three values
  for each of at most \<^verbatim>\<open>batch_size\<close> rows (so the program's batch size stays within SQLite's
  32766), and the table is the one that inserting the chain in a single statement gives.
\<close>

theorem placeholder_batches_complete:
  "concat (placeholder_batches chain n) = chain \<and>
   (\<forall>b \<in> set (placeholder_batches chain PLACEHOLDER_BATCH_SIZE). 3 * length b \<le> 32766) \<and>
   insert_placeholders n chain T = insert_batch chain T"
  using length_chunks [of _ PLACEHOLDER_BATCH_SIZE chain]
  by (fastforce simp: placeholder_batches_def concat_chunks insert_placeholders_eq
      PLACEHOLDER_BATCH_SIZE_def)

theorem placeholder_batches_complete_witness:
  "concat (placeholder_batches [''a'', ''b'', ''c''] 2) = [''a'', ''b'', ''c'']"
  using placeholder_batches_complete [of "[''a'', ''b'', ''c'']" 2 "[]"] by simp

text \<open>
  Subject normalisation reaches a normal form: normalising a normalised subject changes
  nothing, so the keys that step 5 compares are canonical.
\<close>

theorem normalize_subject_idempotent:
  "normalize_subject (normalize_subject s) = normalize_subject s"
  by (rule normalize_subject_normal)

end
