(* ===== verification/Store_Messages.thy ===== *)
theory Store_Messages
  imports Store_Folders Threading_Props
begin

text \<open>
  The message statements of crates/inbx-store/src/lib.rs: writing and re-keying rows, the
  search index, flags, deletion, listings and the Maildir names. A query without a unique
  ORDER BY lists ties in row-id order.
\<close>

section \<open>Writing rows\<close>

definition merge_message :: "message_row \<Rightarrow> message_row \<Rightarrow> message_row" where
  "merge_message new old =
     new\<lparr>maildir_path := coalesce (maildir_path new) (maildir_path old),
         headers_only := min (headers_only new) (headers_only old),
         in_reply_to := coalesce (in_reply_to new) (in_reply_to old),
         refs := coalesce (refs new) (refs old),
         thread_id := coalesce (thread_id new) (thread_id old),
         provider_id := coalesce (provider_id new) (provider_id old)\<rparr>"

definition upsert_message :: "message_row \<Rightarrow> db \<Rightarrow> db" where
  "upsert_message m d = d\<lparr>messages := upsert message_key merge_message m (messages d)\<rparr>"

definition rekey_opaque_message :: "string \<Rightarrow> string \<Rightarrow> int \<Rightarrow> int \<Rightarrow> db \<Rightarrow> db \<times> unit result" where
  "rekey_opaque_message f p u uv d =
     (case keeper_of f p d of
        None \<Rightarrow> (d, Inr ())
      | Some k \<Rightarrow>
          (case rekey_message (f, uid k, uidvalidity k) (\<lambda>r. r\<lparr>uid := u, uidvalidity := uv\<rparr>)
                  (delete_messages_where
                     (\<lambda>r. folder r = f \<and> provider_id r = Some p \<and>
                          \<not> (uid r = uid k \<and> uidvalidity r = uidvalidity k)) d) of
             Inl e \<Rightarrow> (d, Inl e)
           | Inr d' \<Rightarrow> (d', Inr ())))"

definition delete_provider_ids_not_in :: "string \<Rightarrow> string set \<Rightarrow> db \<Rightarrow> db" where
  "delete_provider_ids_not_in f ps d =
     fold (\<lambda>p. delete_messages_where (\<lambda>m. folder m = f \<and> provider_id m = Some p))
       (filter (\<lambda>p. p \<notin> ps) (folder_provider_ids f d)) d"

definition provider_id_for :: "string \<Rightarrow> int \<Rightarrow> db \<Rightarrow> string option" where
  "provider_id_for f u d =
     (case select_where (\<lambda>m. folder m = f \<and> uid m = u \<and> provider_id m \<noteq> None) (messages d) of
        [] \<Rightarrow> None | m # _ \<Rightarrow> provider_id m)"

definition set_maildir_path :: "string \<Rightarrow> int \<Rightarrow> int \<Rightarrow> string \<Rightarrow> db \<Rightarrow> db" where
  "set_maildir_path f u uv path d =
     update_messages_where (\<lambda>m. message_key m = (f, u, uv))
       (\<lambda>m. m\<lparr>maildir_path := Some path, headers_only := 0\<rparr>) d"

section \<open>The search index\<close>

definition rowid_of :: "string \<times> int \<times> int \<Rightarrow> db \<Rightarrow> int option" where
  "rowid_of k d = map_option fst (List.find (\<lambda>(i, m). message_key m = k) (messages d))"

definition index_for_search ::
  "string \<Rightarrow> int \<Rightarrow> int \<Rightarrow> string \<Rightarrow> string \<Rightarrow> string \<Rightarrow> string \<Rightarrow> db \<Rightarrow> db" where
  "index_for_search f u uv subj from to body d =
     (case rowid_of (f, u, uv) d of
        None \<Rightarrow> d
      | Some i \<Rightarrow>
          d\<lparr>messages_fts := filter (\<lambda>e. fts_rowid e \<noteq> i) (messages_fts d) @
              [\<lparr>fts_rowid = i, fts_subject = subj, fts_from_addr = from, fts_to_addrs = to,
                fts_body = body\<rparr>]\<rparr>)"

text \<open>
  FTS5's MATCH is a parameter: \<open>fts_match q es\<close> lists the entries that match, best first.
  The join drops an entry without a message.
\<close>

definition search ::
  "(string \<Rightarrow> fts_row list \<Rightarrow> fts_row list) \<Rightarrow> string \<Rightarrow> nat \<Rightarrow> db \<Rightarrow> message_row list" where
  "search fts_match q limit d =
     take limit (concat (map (\<lambda>e. map snd (filter (\<lambda>(i, m). i = fts_rowid e) (messages d)))
       (fts_match q (messages_fts d))))"

section \<open>Flags\<close>

definition remove_tokens :: "string list \<Rightarrow> string list \<Rightarrow> string list" where
  "remove_tokens rm tokens = fold (\<lambda>r ts. filter (\<lambda>t. \<not> eq_ignore_ascii_case t r) ts) rm tokens"

definition add_token :: "string \<Rightarrow> string list \<Rightarrow> string list" where
  "add_token a ts = (if \<exists>t \<in> set ts. eq_ignore_ascii_case t a then ts else ts @ [a])"

definition new_flags :: "string list \<Rightarrow> string list \<Rightarrow> string \<Rightarrow> string" where
  "new_flags add rm fl = join '' '' (fold add_token add (remove_tokens rm (split_whitespace fl)))"

definition mutate_flags :: "string \<Rightarrow> int list \<Rightarrow> string list \<Rightarrow> string list \<Rightarrow> db \<Rightarrow> db" where
  "mutate_flags f uids add rm d =
     (if uids = [] then d
      else fold (\<lambda>m. update_messages_where
                       (\<lambda>r. folder r = f \<and> uid r = uid m \<and> uidvalidity r = uidvalidity m)
                       (\<lambda>r. r\<lparr>flags := new_flags add rm (flags m)\<rparr>))
             (select_where (\<lambda>m. folder m = f \<and> uid m \<in> set uids) (messages d)) d)"

section \<open>Deleting\<close>

definition delete_messages :: "string \<Rightarrow> int list \<Rightarrow> db \<Rightarrow> db" where
  "delete_messages f uids d =
     (if uids = [] then d else delete_messages_where (\<lambda>m. folder m = f \<and> uid m \<in> set uids) d)"

definition SQLITE_BIND_LIMIT :: nat where
  "SQLITE_BIND_LIMIT = 999"

definition PROVIDER_ID_BATCH_SIZE :: nat where
  "PROVIDER_ID_BATCH_SIZE = SQLITE_BIND_LIMIT - 1"

definition delete_messages_by_provider_ids :: "string \<Rightarrow> string list \<Rightarrow> db \<Rightarrow> db" where
  "delete_messages_by_provider_ids f ps d =
     fold (\<lambda>batch. delete_messages_where (\<lambda>m. folder m = f \<and> provider_id m \<in> Some ` set batch))
       (chunks PROVIDER_ID_BATCH_SIZE ps) d"

definition has_deleted_flag :: "string \<Rightarrow> bool" where
  "has_deleted_flag fl =
     (contains ('' '' @ fl @ '' '') ('' '' @ backslash # ''Deleted '') \<or> contains ('' '' @ fl @ '' '') '' Deleted '')"

text \<open>The purged database and the number of rows affected.\<close>

definition purge_deleted :: "string \<Rightarrow> db \<Rightarrow> db \<times> nat" where
  "purge_deleted f d =
     (let P = (\<lambda>m. folder m = f \<and> has_deleted_flag (flags m)) in
      (delete_messages_where P d, length (select_where P (messages d))))"

section \<open>Listings\<close>

text \<open>\<^verbatim>\<open>ORDER BY date_unix DESC NULLS LAST\<close> and \<^verbatim>\<open>ASC NULLS LAST\<close>.\<close>

definition newest_first :: "message_row \<Rightarrow> int \<times> int" where
  "newest_first m = (case date_unix m of Some t \<Rightarrow> (0, - t) | None \<Rightarrow> (1, 0))"

definition oldest_first :: "message_row \<Rightarrow> int \<times> int" where
  "oldest_first m = (case date_unix m of Some t \<Rightarrow> (0, t) | None \<Rightarrow> (1, 0))"

definition list_messages :: "string \<Rightarrow> nat \<Rightarrow> db \<Rightarrow> message_row list" where
  "list_messages f limit d =
     take limit (sort_key newest_first (select_where (\<lambda>m. folder m = f) (messages d)))"

definition list_thread :: "string \<Rightarrow> db \<Rightarrow> message_row list" where
  "list_thread t d = sort_key oldest_first (select_where (\<lambda>m. thread_id m = Some t) (messages d))"

definition list_unfetched :: "string \<Rightarrow> nat \<Rightarrow> db \<Rightarrow> int list" where
  "list_unfetched f limit d =
     map uid (take limit (sort_key newest_first
       (select_where (\<lambda>m. folder m = f \<and> maildir_path m = None) (messages d))))"

definition folder_uids :: "string \<Rightarrow> int \<Rightarrow> db \<Rightarrow> int list" where
  "folder_uids f uv d = map uid (select_where (\<lambda>m. folder m = f \<and> uidvalidity m = uv) (messages d))"

definition is_unread :: "message_row \<Rightarrow> bool" where
  "is_unread m =
     (\<not> contains (to_ascii_lowercase (flags m)) ''seen'' \<and>
      \<not> contains (to_ascii_lowercase (flags m)) ''deleted'')"

definition folder_unread_counts :: "db \<Rightarrow> (string \<times> nat) list" where
  "folder_unread_counts d =
     (let unread = select_where is_unread (messages d) in
      map (\<lambda>f. (f, length (filter (\<lambda>m. folder m = f) unread)))
        (sort (remdups (map folder unread))))"

section \<open>Maildir\<close>

definition maildir_for :: "string \<Rightarrow> string \<Rightarrow> string" where
  "maildir_for root f = root @ ''/'' @ replace_char (CHR ''/'') ''.'' f"

text \<open>\<^verbatim>\<open>sort_unstable\<close> on distinct letters is a sort.\<close>

definition maildir_info :: "string \<Rightarrow> string" where
  "maildir_info fl =
     (let lower = to_ascii_lowercase fl in
      sort ((if contains lower (backslash # ''seen'') then ''S'' else '''') @
            (if contains lower (backslash # ''answered'') then ''R'' else '''') @
            (if contains lower (backslash # ''flagged'') then ''F'' else '''') @
            (if contains lower (backslash # ''draft'') then ''D'' else '''') @
            (if contains lower (backslash # ''deleted'') then ''T'' else '''')))"

text \<open>
  The file name \<^verbatim>\<open>write_maildir\<close> chooses: time, process id, counter and host name come
  from the system.
\<close>

definition safe_host :: "string \<Rightarrow> string" where
  "safe_host host = map (\<lambda>c. if c = CHR '':'' \<or> c = CHR ''/'' then CHR ''_'' else c) host"

definition maildir_name :: "nat \<Rightarrow> nat \<Rightarrow> nat \<Rightarrow> string \<Rightarrow> string \<Rightarrow> string" where
  "maildir_name ts pid n host fl =
     show_nat ts @ ''.'' @ show_nat pid @ ''_'' @ show_nat n @ ''.'' @ safe_host host @
     '':2,'' @ maildir_info fl"

definition write_maildir_path :: "string \<Rightarrow> string \<Rightarrow> nat \<Rightarrow> nat \<Rightarrow> nat \<Rightarrow> string \<Rightarrow> string \<Rightarrow> string" where
  "write_maildir_path root f ts pid n host fl =
     maildir_for root f @ ''/cur/'' @ maildir_name ts pid n host fl"

end
