(* ===== verification/Snapshot_Mirror.thy ===== *)
theory Snapshot_Mirror
  imports Snapshot_Props
begin

text \<open>
  What an applied snapshot leaves in the message table: the listed headers, exactly the
  listed messages when the listing is complete, and the bodies and threads that were there.
\<close>

section \<open>Writing the headers\<close>

lemma upsert_headers_Nil [simp]: "upsert_headers f [] d = d"
  by (simp add: upsert_headers_def)

lemma upsert_headers_Cons [simp]:
  "upsert_headers f (h # hs) d = upsert_headers f hs (upsert_header f h d)"
  by (simp add: upsert_headers_def)

lemma keys_upsert_headers:
  "keys_of message_key (messages (upsert_headers f hs d)) =
     (\<lambda>h. (f, h_uid h, h_uidvalidity h)) ` set hs \<union> keys_of message_key (messages d)"
  by (induction hs arbitrary: d) (auto simp: upsert_header_def header_row.keys_upsert)

lemma lookup_upsert_header:
  "lookup_key message_key k (messages (upsert_header f h d)) =
     (if k = (f, h_uid h, h_uidvalidity h)
      then Some (case lookup_key message_key k (messages d) of
                   None \<Rightarrow> header_message f h | Some old \<Rightarrow> merge_header (header_message f h) old)
      else lookup_key message_key k (messages d))"
  by (simp add: upsert_header_def header_row.lookup_upsert)

text \<open>An upsert refreshes headers and never forgets a body, a thread or a reference.\<close>

definition body_kept :: "message_row \<Rightarrow> message_row \<Rightarrow> bool" where
  "body_kept old new \<longleftrightarrow>
     maildir_path new = maildir_path old \<and> headers_only new \<le> headers_only old \<and>
     thread_id new = thread_id old \<and> in_reply_to new = in_reply_to old \<and> refs new = refs old"

lemma body_kept_refl [simp]: "body_kept m m"
  by (simp add: body_kept_def)

lemma body_kept_trans: "body_kept a b \<Longrightarrow> body_kept b c \<Longrightarrow> body_kept a c"
  by (auto simp: body_kept_def)

lemma upsert_headers_keep:
  "lookup_key message_key k (messages d) = Some m \<Longrightarrow>
     \<exists>m'. lookup_key message_key k (messages (upsert_headers f hs d)) = Some m' \<and> body_kept m m'"
proof (induction hs arbitrary: d m)
  case (Cons h hs)
  let ?m1 = "if k = (f, h_uid h, h_uidvalidity h) then merge_header (header_message f h) m else m"
  have m1: "lookup_key message_key k (messages (upsert_header f h d)) = Some ?m1"
    using Cons.prems by (auto simp: lookup_upsert_header)
  have k1: "body_kept m ?m1" by (simp add: body_kept_def merge_header_def)
  from Cons.IH [OF m1] k1 show ?case by (auto intro: body_kept_trans)
qed simp

text \<open>\<open>shows_header h m\<close>: the columns a listing refreshes have the listed values.\<close>

definition shows_header :: "snapshot_header \<Rightarrow> message_row \<Rightarrow> bool" where
  "shows_header h m \<longleftrightarrow>
     message_id m = h_message_id h \<and> subject m = h_subject h \<and> from_addr m = h_from_addr h \<and>
     to_addrs m = h_to_addrs h \<and> date_unix m = h_date_unix h \<and> flags m = h_flags h \<and>
     fetched_at_unix m = h_fetched_at_unix h \<and>
     (h_provider_id h = None \<or> provider_id m = h_provider_id h)"

lemma lookup_upsert_headers_other:
  "k \<notin> (\<lambda>h. (f, h_uid h, h_uidvalidity h)) ` set hs \<Longrightarrow>
     lookup_key message_key k (messages (upsert_headers f hs d)) = lookup_key message_key k (messages d)"
  by (induction hs arbitrary: d) (auto simp: lookup_upsert_header)

lemma upsert_headers_show:
  "distinct (map h_uid hs) \<Longrightarrow> h \<in> set hs \<Longrightarrow>
     \<exists>m. lookup_key message_key (f, h_uid h, h_uidvalidity h) (messages (upsert_headers f hs d)) = Some m
       \<and> shows_header h m"
proof (induction hs arbitrary: d)
  case (Cons g hs)
  show ?case
  proof (cases "h = g")
    case True
    with Cons.prems have "(f, h_uid h, h_uidvalidity h) \<notin> (\<lambda>h. (f, h_uid h, h_uidvalidity h)) ` set hs"
      by auto
    with True show ?thesis
      by (auto simp: lookup_upsert_headers_other lookup_upsert_header shows_header_def
          merge_header_def header_message_def coalesce_def split: option.splits)
  next
    case False
    with Cons show ?thesis by simp
  qed
qed simp

section \<open>Pruning\<close>

lemma rows_prune_imap:
  "set (rows_of (messages (prune_imap f uv hs d))) =
     {m \<in> set (rows_of (messages d)). \<not> (folder m = f \<and> uidvalidity m = uv \<and> uid m \<notin> h_uid ` set hs)}"
proof -
  define H where "H = h_uid ` set hs"
  show ?thesis
    unfolding prune_imap_def Let_def messages_fold_delete H_def [symmetric] by auto
qed

lemma rows_prune_opaque:
  "set (rows_of (messages (prune_opaque f ids hs d))) =
     {m \<in> set (rows_of (messages d)).
        \<not> (folder m = f \<and> (\<exists>p \<in> set ids. provider_id m = Some p \<and> Some p \<notin> h_provider_id ` set hs))}"
  unfolding prune_opaque_def messages_fold_delete by auto

lemma messages_set_last_sync [simp]: "messages (set_last_sync f now d) = messages d"
  by (simp add: set_last_sync_def)

lemma messages_record_generation [simp]: "messages (record_generation inp d) = messages d"
  by (simp add: record_generation_def)

lemma reconcile_imap:
  "transport inp = Imap uv \<Longrightarrow> reconcile_opaque inp d = Inr (d, [])"
  by (simp add: reconcile_opaque_def)

lemma apply_imap_messages:
  assumes "apply_snapshot now inp d = (d', Inr out)" and "applied out" and "transport inp = Imap uv"
  obtains d1 where "d1 = wipe_on_uidvalidity_change inp d" and
    "messages d' = messages (prune inp (folder_provider_ids (in_folder inp) d)
        (upsert_headers (in_folder inp) (in_rows inp) (record_generation inp d1)))"
  using assms(1)
proof (cases rule: apply_snapshot_cases)
  case (applied r out')
  show ?thesis
    by (rule write_snapshot_cases [OF applied(6)]) (auto simp: reconcile_imap [OF assms(3)] intro: that)
qed (use assms(2) in auto)

lemma imap_listing:
  assumes "apply_snapshot now inp d = (d', Inr out)" and "applied out"
    and "transport inp = Imap uv" and "complete inp"
    and "\<forall>h \<in> set (in_rows inp). h_uidvalidity h = uv"
  shows "uid ` {m \<in> set (rows_of (messages d')). folder m = in_folder inp \<and> uidvalidity m = uv} =
     h_uid ` set (in_rows inp)"
proof -
  let ?f = "in_folder inp" and ?hs = "in_rows inp"
  obtain d1 where "messages d' = messages (prune inp (folder_provider_ids ?f d)
        (upsert_headers ?f ?hs (record_generation inp d1)))"
    using apply_imap_messages [OF assms(1-3)] by metis
  then have rows: "set (rows_of (messages d')) =
      {m \<in> set (rows_of (messages (upsert_headers ?f ?hs (record_generation inp d1)))).
         \<not> (folder m = ?f \<and> uidvalidity m = uv \<and> uid m \<notin> h_uid ` set ?hs)}"
    using assms(3,4) by (simp add: prune_def rows_prune_imap)
  have "h_uid h \<in> uid ` {m \<in> set (rows_of (messages d')). folder m = ?f \<and> uidvalidity m = uv}"
    if h: "h \<in> set ?hs" for h
  proof -
    have "(?f, h_uid h, uv) \<in> keys_of message_key (messages (upsert_headers ?f ?hs (record_generation inp d1)))"
      using h assms(5) by (force simp: keys_upsert_headers)
    then obtain m where "m \<in> set (rows_of (messages (upsert_headers ?f ?hs (record_generation inp d1))))"
        "folder m = ?f" "uid m = h_uid h" "uidvalidity m = uv"
      by (auto simp: keys_of_def message_key_def)
    with h show ?thesis unfolding rows by force
  qed
  then show ?thesis unfolding rows by blast
qed

text \<open>
  C6. After a complete IMAP listing has been applied, the UIDs stored for the folder under
  that UIDVALIDITY are exactly the listed ones: what the server no longer has is gone, and
  every listed message is there.
\<close>

theorem imap_listing_mirrored:
  assumes "apply_snapshot now inp d = (d', Inr out)" and "applied out"
    and "transport inp = Imap uv" and "complete inp"
    and "\<forall>h \<in> set (in_rows inp). h_uidvalidity h = uv"
  shows "uid ` {m \<in> set (rows_of (messages d')). folder m = in_folder inp \<and> uidvalidity m = uv} =
     h_uid ` set (in_rows inp)"
  by (rule imap_listing [OF assms])

lemma example_applied:
  "\<exists>out. apply_snapshot 100 inp_example d_reserved =
     (fst (apply_snapshot 100 inp_example d_reserved), Inr out) \<and> applied out"
proof -
  have "(case snd (apply_snapshot 100 inp_example d_reserved) of Inr out \<Rightarrow> applied out | Inl _ \<Rightarrow> False)"
    by code_simp
  then show ?thesis by (cases "apply_snapshot 100 inp_example d_reserved") (auto split: sum.splits)
qed

theorem imap_listing_mirrored_witness:
  "uid ` {m \<in> set (rows_of (messages (fst (apply_snapshot 100 inp_example d_reserved)))).
     folder m = ''INBOX'' \<and> uidvalidity m = 9} = {5}"
proof -
  obtain out where "apply_snapshot 100 inp_example d_reserved =
     (fst (apply_snapshot 100 inp_example d_reserved), Inr out)" "applied out"
    using example_applied by blast
  from imap_listing_mirrored [OF this, of 9] show ?thesis
    by (simp add: inp_example_def h_example_def)
qed

text \<open>
  C7. Refreshing an IMAP folder whose UIDVALIDITY has not changed shows the server's
  headers and flags for every listed message and keeps what was fetched and computed
  locally: the path of a downloaded body, the thread and the references; a message whose
  body is there is not reset to headers-only.
\<close>

theorem imap_refresh_keeps_bodies:
  assumes "apply_snapshot now inp d = (d', Inr out)" and "applied out" and "schema_ok d"
    and "transport inp = Imap uv" and "distinct (map h_uid (in_rows inp))"
    and "Option.bind (folder_of d (in_folder inp)) folder_uidvalidity \<in> {None, Some uv}"
    and "h \<in> set (in_rows inp)" and "h_uidvalidity h = uv"
    and "lookup_key message_key (in_folder inp, h_uid h, uv) (messages d) = Some m"
  shows "\<exists>m'. lookup_key message_key (in_folder inp, h_uid h, uv) (messages d') = Some m' \<and>
     shows_header h m' \<and> body_kept m m'"
proof -
  let ?f = "in_folder inp" and ?hs = "in_rows inp" and ?k = "(in_folder inp, h_uid h, uv)"
  have "wipe_on_uidvalidity_change inp d = d"
    using assms(4,6) by (auto simp: wipe_on_uidvalidity_change_def split: option.splits)
  then have d': "messages d' = messages (prune inp (folder_provider_ids ?f d)
        (upsert_headers ?f ?hs (record_generation inp d)))"
    using apply_imap_messages [OF assms(1,2,4)] by metis
  let ?u = "upsert_headers ?f ?hs (record_generation inp d)"
  obtain m' where m': "lookup_key message_key ?k (messages ?u) = Some m'" "body_kept m m'"
    using upsert_headers_keep [of ?k "record_generation inp d" m] assms(9) by auto
  have "shows_header h m'"
    using upsert_headers_show [OF assms(5,7), of ?f "record_generation inp d"] m'(1) assms(8) by auto
  moreover have "lookup_key message_key ?k (messages d') = Some m'"
  proof -
    have "schema_ok ?u"
      using before_rows_schema_ok [OF assms(3), of inp] \<open>wipe_on_uidvalidity_change inp d = d\<close>
      by (simp add: schema_ok_upsert_headers)
    then have ok: "table_ok message_key (messages ?u)" "table_ok message_key (messages d')"
      using d' by (auto simp: schema_ok_tables prune_facts)
    have m'r: "m' \<in> set (rows_of (messages ?u))" "message_key m' = ?k"
      using m'(1) ok(1) by (auto simp: lookup_key_iff_row)
    then have "m' \<in> set (rows_of (messages d'))"
      using assms(4,7) by (auto simp: d' prune_def rows_prune_imap message_key_def)
    with m'r(2) show ?thesis by (simp add: lookup_key_iff_row [OF ok(2)])
  qed
  ultimately show ?thesis using m'(2) by blast
qed

definition d_with_body :: db where
  "d_with_body = d_reserved\<lparr>messages := [(1, (header_message ''INBOX'' h_example)
      \<lparr>flags := '''', maildir_path := Some ''cur/x'', headers_only := 0\<rparr>)]\<rparr>"

theorem imap_refresh_keeps_bodies_witness:
  "\<exists>m'. lookup_key message_key (''INBOX'', 5, 9)
      (messages (fst (apply_snapshot 100 inp_example d_with_body))) = Some m' \<and>
     shows_header h_example m' \<and> maildir_path m' = Some ''cur/x'' \<and> headers_only m' \<le> 0"
proof -
  let ?m = "(header_message ''INBOX'' h_example)
      \<lparr>flags := '''', maildir_path := Some ''cur/x'', headers_only := 0\<rparr>"
  have "(case snd (apply_snapshot 100 inp_example d_with_body) of Inr out \<Rightarrow> applied out | Inl _ \<Rightarrow> False)"
    by code_simp
  then obtain out where a: "apply_snapshot 100 inp_example d_with_body =
      (fst (apply_snapshot 100 inp_example d_with_body), Inr out)" "applied out"
    by (cases "apply_snapshot 100 inp_example d_with_body") (auto split: sum.splits)
  have ok: "schema_ok d_with_body"
    by (simp add: schema_ok_def d_with_body_def d_reserved_def empty_db_def table_ok_def fts_ok_def
        reserve_snapshot_generation_def Let_def upsert_def insert_row_def)
  have u: "Option.bind (folder_of d_with_body ''INBOX'') folder_uidvalidity = None"
    by code_simp
  have l: "lookup_key message_key (''INBOX'', 5, 9) (messages d_with_body) = Some ?m"
    by (simp add: d_with_body_def message_key_def header_message_def h_example_def)
  show ?thesis
    using imap_refresh_keeps_bodies [OF a ok, of 9 h_example ?m] u l
    by (simp add: inp_example_def h_example_def body_kept_def del: imp_disjL)
      (fastforce simp: h_example_def)
qed

section \<open>Opaque listings\<close>

lemma validate_opaque_Inr:
  "validate_opaque ps us hs = Inr () \<Longrightarrow>
     (\<forall>h \<in> set hs. h_provider_id h \<noteq> None \<and> h_uid h \<notin> set us \<and> the (h_provider_id h) \<notin> set ps) \<and>
     distinct (map h_uid hs) \<and> distinct (map h_provider_id hs)"
proof (induction ps us hs rule: validate_opaque.induct)
  case (2 ps us h hs)
  then show ?case by (force split: option.splits if_splits)
qed simp

text \<open>Every provider id in folder \<open>f\<close> is one of \<open>S\<close>.\<close>

definition providers_in :: "string \<Rightarrow> string set \<Rightarrow> db \<Rightarrow> bool" where
  "providers_in f S d \<longleftrightarrow>
     (\<forall>m \<in> set (rows_of (messages d)). folder m = f \<longrightarrow> provider_id m = None \<or> provider_id m \<in> Some ` S)"

lemma providers_in_delete [intro]: "providers_in f S d \<Longrightarrow> providers_in f S (delete_messages_where P d)"
  by (auto simp: providers_in_def)

lemma providers_in_rekey:
  assumes "rekey_message k g d = Inr d'" "providers_in f S d"
    and "\<And>m. folder (g m) = folder m" and "\<And>m. provider_id (g m) = provider_id m \<or> provider_id (g m) \<in> Some ` S"
  shows "providers_in f S d'"
proof -
  from assms(1) have rows: "rows_of (messages d') =
      map (\<lambda>m. if message_key m = k then g m else m) (rows_of (messages d))"
    by (auto simp: rekey_message_def update_unique_def Let_def split: option.splits if_splits)
  have old: "provider_id x = None \<or> provider_id x \<in> Some ` S"
    if "x \<in> set (rows_of (messages d))" "folder x = f" for x
    using assms(2) that by (simp add: providers_in_def)
  show ?thesis
    unfolding providers_in_def
  proof (intro ballI impI)
    fix y assume y: "y \<in> set (rows_of (messages d'))" "folder y = f"
    then obtain x where x: "x \<in> set (rows_of (messages d))" "y = (if message_key x = k then g x else x)"
      unfolding rows by auto
    then have "folder x = f" using y(2) assms(3) by (metis (full_types))
    from old [OF x(1) this] show "provider_id y = None \<or> provider_id y \<in> Some ` S"
      using assms(4) [of x] x(2) by (auto split: if_splits)
  qed
qed

lemma providers_in_reconcile_row:
  assumes "reconcile_row f hs (i, h) s = Inr s'" "providers_in f S (fst s)"
    and "h_provider_id h \<in> Some ` S"
  shows "providers_in f S (fst s')"
proof -
  obtain p where p: "h_provider_id h = Some p" "p \<in> S" using assms(3) by auto
  have merge: "providers_in f S (fst s2)"
    if "merge_legacy f hs i h p s1 = Inr s2" "providers_in f S (fst s1)" for s1 s2
    using that p(2)
    by (auto simp: merge_legacy_def and_then_Inr split: list.splits prod.splits
        intro: providers_in_rekey [where S = S])
  have collapse: "providers_in f S d2"
    if "collapse_duplicates f h p d1 = Inr d2" "providers_in f S d1" for d1 d2
    using that
    by (auto simp: collapse_duplicates_def Let_def split: option.splits if_splits
        intro: providers_in_rekey [where S = S])
  from assms(1,2) p(1) show ?thesis
    by (auto simp: reconcile_row_def and_then_Inr split: prod.splits dest!: merge intro: collapse)
qed

lemma in_enumerate: "x \<in> set (enumerate n xs) \<Longrightarrow> snd x \<in> set xs"
  by (metis enumerate_eq_zip prod.collapse set_zip_rightD)

lemma providers_in_reconcile:
  assumes "reconcile_opaque inp d = Inr (d', rec)" "providers_in (in_folder inp) S d"
    and "\<forall>h \<in> set (in_rows inp). h_provider_id h \<in> Some ` S"
  shows "providers_in (in_folder inp) S d'"
proof (cases "transport inp = Opaque")
  case True
  have "providers_in (in_folder inp) S (fst (d', rec))"
  proof (rule for_each_invariant [where I = "\<lambda>s. providers_in (in_folder inp) S (fst s)"])
    show "for_each (reconcile_row (in_folder inp) (in_rows inp)) (enumerate 0 (in_rows inp)) (d, []) =
        Inr (d', rec)"
      using True assms(1) by (simp add: reconcile_opaque_def)
    show "providers_in (in_folder inp) S (fst s')"
      if "x \<in> set (enumerate 0 (in_rows inp))" "providers_in (in_folder inp) S (fst s)"
        "reconcile_row (in_folder inp) (in_rows inp) x s = Inr s'" for x s s'
    proof -
      obtain i h where x: "x = (i, h)" by (cases x)
      have "h_provider_id h \<in> Some ` S" using assms(3) in_enumerate [OF that(1)] x by simp
      from providers_in_reconcile_row [OF that(3) [unfolded x] that(2) this] show ?thesis .
    qed
  qed (use assms(2) in simp)
  then show ?thesis by simp
qed (use assms in \<open>simp add: reconcile_opaque_def\<close>)

lemma providers_in_upsert_headers:
  assumes "providers_in f S d" "\<forall>h \<in> set hs. h_provider_id h \<in> Some ` S"
  shows "providers_in f S (upsert_headers f hs d)"
  using assms
proof (induction hs arbitrary: d)
  case (Cons h hs)
  then obtain p where "h_provider_id h = Some p" "p \<in> S" by auto
  then have "providers_in f S (upsert_header f h d)"
    using Cons.prems(1)
    by (auto simp: providers_in_def upsert_header_def upsert_def merge_header_def header_message_def)
  with Cons show ?case by simp
qed simp

lemma set_folder_provider_ids:
  "set (folder_provider_ids f d) =
     {p. \<exists>m \<in> set (rows_of (messages d)). folder m = f \<and> provider_id m = Some p}"
  by (force simp: folder_provider_ids_def)

text \<open>
  The rows after an opaque snapshot: those of the folder belong to old or listed provider
  ids, and the old rows that are not listed are gone.
\<close>

lemma opaque_snapshot_rows:
  assumes "apply_snapshot now inp d = (d', Inr out)" and "applied out"
    and "transport inp = Opaque" and "complete inp"
  obtains d2 S where
    "\<forall>h \<in> set (in_rows inp). h_provider_id h \<noteq> None" "distinct (map h_uid (in_rows inp))"
    "S = set (folder_provider_ids (in_folder inp) d) \<union> {p. Some p \<in> h_provider_id ` set (in_rows inp)}"
    "providers_in (in_folder inp) S (upsert_headers (in_folder inp) (in_rows inp) d2)"
    "set (rows_of (messages d')) = {m \<in> set (rows_of (messages (upsert_headers (in_folder inp) (in_rows inp) d2))).
        \<not> (folder m = in_folder inp \<and> (\<exists>p \<in> set (folder_provider_ids (in_folder inp) d).
             provider_id m = Some p \<and> Some p \<notin> h_provider_id ` set (in_rows inp)))}"
  using assms(1)
proof (cases rule: apply_snapshot_cases)
  case (applied r out')
  let ?f = "in_folder inp" and ?hs = "in_rows inp"
  let ?old = "folder_provider_ids ?f d"
  have valid: "\<forall>h \<in> set ?hs. h_provider_id h \<noteq> None" "distinct (map h_uid ?hs)"
    using applied(5) assms(3) validate_opaque_Inr [of "[]" "[]" ?hs] by (auto simp: validate_rows_def)
  obtain d2 rec where d2: "reconcile_opaque inp (record_generation inp (wipe_on_uidvalidity_change inp d)) = Inr (d2, rec)"
    and d': "d' = set_last_sync ?f now (prune inp ?old (upsert_headers ?f ?hs d2))"
    using write_snapshot_cases [OF applied(6)] by metis
  define S where "S = set ?old \<union> {p. Some p \<in> h_provider_id ` set ?hs}"
  have S: "\<forall>h \<in> set ?hs. h_provider_id h \<in> Some ` S"
  proof
    fix h assume h: "h \<in> set ?hs"
    then obtain p where p: "h_provider_id h = Some p" using valid(1) by auto
    have "Some p \<in> h_provider_id ` set ?hs" using h p by (metis imageI)
    then show "h_provider_id h \<in> Some ` S" by (simp add: p S_def)
  qed
  have "\<exists>p \<in> S. provider_id m = Some p"
    if "m \<in> set (rows_of (messages d))" "folder m = ?f" "provider_id m \<noteq> None" for m
    using that by (auto simp: S_def set_folder_provider_ids)
  then have "providers_in ?f S (record_generation inp (wipe_on_uidvalidity_change inp d))"
    using assms(3) by (fastforce simp: providers_in_def wipe_on_uidvalidity_change_def record_generation_def)
  then have "providers_in ?f S (upsert_headers ?f ?hs d2)"
    using providers_in_reconcile [OF d2] providers_in_upsert_headers S by blast
  moreover have "set (rows_of (messages d')) = {m \<in> set (rows_of (messages (upsert_headers ?f ?hs d2))).
        \<not> (folder m = ?f \<and> (\<exists>p \<in> set ?old. provider_id m = Some p \<and> Some p \<notin> h_provider_id ` set ?hs))}"
    using assms(3,4) by (simp add: d' prune_def rows_prune_opaque)
  ultimately show ?thesis using that valid S_def by blast
qed (use assms(2) in auto)

lemma opaque_snapshot_ids:
  assumes "apply_snapshot now inp d = (d', Inr out)" and "applied out"
    and "transport inp = Opaque" and "complete inp"
  shows "Some ` set (folder_provider_ids (in_folder inp) d') = h_provider_id ` set (in_rows inp)"
proof (rule opaque_snapshot_rows [OF assms], intro set_eqI iffI)
  let ?f = "in_folder inp" and ?hs = "in_rows inp"
  fix d2 S x
  assume valid: "\<forall>h \<in> set ?hs. h_provider_id h \<noteq> None" "distinct (map h_uid ?hs)"
    and S: "S = set (folder_provider_ids ?f d) \<union> {p. Some p \<in> h_provider_id ` set ?hs}"
    and all: "providers_in ?f S (upsert_headers ?f ?hs d2)"
    and rows: "set (rows_of (messages d')) = {m \<in> set (rows_of (messages (upsert_headers ?f ?hs d2))).
        \<not> (folder m = ?f \<and> (\<exists>p \<in> set (folder_provider_ids ?f d). provider_id m = Some p \<and> Some p \<notin> h_provider_id ` set ?hs))}"
  {
    assume "x \<in> Some ` set (folder_provider_ids ?f d')"
    then obtain m p where m: "m \<in> set (rows_of (messages d'))" "folder m = ?f" "provider_id m = Some p" "x = Some p"
      by (auto simp: set_folder_provider_ids)
    moreover from this have "m \<in> set (rows_of (messages (upsert_headers ?f ?hs d2)))" using rows by blast
    ultimately have "provider_id m = None \<or> provider_id m \<in> Some ` S"
      using all [unfolded providers_in_def, rule_format] m(2) by blast
    with m(3) have "p \<in> S" by auto
    with m rows show "x \<in> h_provider_id ` set ?hs" by (auto simp: S)
  next
    assume "x \<in> h_provider_id ` set ?hs"
    then obtain h where h: "h \<in> set ?hs" "x = h_provider_id h" by auto
    then obtain p where p: "h_provider_id h = Some p" using valid(1) by auto
    obtain m where "lookup_key message_key (?f, h_uid h, h_uidvalidity h) (messages (upsert_headers ?f ?hs d2)) = Some m"
        "shows_header h m"
      using upsert_headers_show [OF valid(2) h(1)] by metis
    then have "m \<in> set (rows_of (messages (upsert_headers ?f ?hs d2)))" "folder m = ?f" "provider_id m = Some p"
      using p by (auto simp: shows_header_def message_key_def dest: lookup_key_SomeD)
    moreover from this have "m \<in> set (rows_of (messages d'))"
      unfolding rows using imageI [OF h(1), of h_provider_id] p by auto
    ultimately show "x \<in> Some ` set (folder_provider_ids ?f d')"
      using h p by (auto simp: set_folder_provider_ids)
  }
qed

text \<open>
  C8. After a complete listing from an opaque provider (JMAP, Graph) has been applied, the
  provider ids stored for the folder are exactly the listed ones.
\<close>

theorem opaque_listing_mirrored:
  assumes "apply_snapshot now inp d = (d', Inr out)" and "applied out"
    and "transport inp = Opaque" and "complete inp"
  shows "Some ` set (folder_provider_ids (in_folder inp) d') = h_provider_id ` set (in_rows inp)"
  by (rule opaque_snapshot_ids [OF assms])

definition h_opaque :: "int \<Rightarrow> string \<Rightarrow> snapshot_header" where
  "h_opaque u p = h_example\<lparr>h_uid := u, h_uidvalidity := 0, h_provider_id := Some p\<rparr>"

definition inp_opaque :: snapshot_input where
  "inp_opaque = inp_example\<lparr>transport := Opaque, in_rows := [h_opaque 5 ''p'', h_opaque 6 ''q'']\<rparr>"

theorem opaque_listing_mirrored_witness:
  "Some ` set (folder_provider_ids ''INBOX'' (fst (apply_snapshot 100 inp_opaque d_reserved))) =
     {Some ''p'', Some ''q''}"
proof -
  have "(case snd (apply_snapshot 100 inp_opaque d_reserved) of Inr out \<Rightarrow> applied out | Inl _ \<Rightarrow> False)"
    by code_simp
  then obtain out where a: "apply_snapshot 100 inp_opaque d_reserved =
      (fst (apply_snapshot 100 inp_opaque d_reserved), Inr out)" "applied out"
    by (cases "apply_snapshot 100 inp_opaque d_reserved") (auto split: sum.splits)
  from opaque_listing_mirrored [OF a] show ?thesis
    by (simp add: inp_opaque_def inp_example_def h_opaque_def h_example_def)
qed

text \<open>
  The schema's constraints (unique folders, messages and containers, no orphan search
  entry) survive every snapshot, applied or not.
\<close>

theorem apply_snapshot_schema_ok:
  assumes "schema_ok d"
  shows "schema_ok (fst (apply_snapshot now inp d))"
proof (cases "apply_snapshot now inp d")
  case (Pair d' res)
  then show ?thesis
  proof (cases rule: apply_snapshot_cases)
    case (applied r out)
    then show ?thesis using Pair schema_ok_write [OF _ assms] by simp
  qed (use Pair assms in simp)
qed

text \<open>
  A legacy row that the re-keying pass leaves alone as ambiguous can block its folder.
  Here two rows without provider id match the listed message (one by its uid, one by the
  low 32 bits of it) and a third row already has its provider id: moving that row to the
  canonical uid collides with the first, the UNIQUE constraint fails, and the whole
  snapshot is rolled back, at every sync.
\<close>

definition d_ambiguous :: db where
  "d_ambiguous = d_reserved\<lparr>messages :=
     [(1, (header_message ''INBOX'' (h_opaque (2 ^ 32 + 5) ''p''))\<lparr>provider_id := None\<rparr>),
      (2, (header_message ''INBOX'' (h_opaque 5 ''p''))\<lparr>provider_id := None\<rparr>),
      (3, header_message ''INBOX'' (h_opaque 77 ''p''))]\<rparr>"

theorem ambiguous_legacy_row_blocks_snapshot:
  "apply_snapshot 100 (inp_opaque\<lparr>in_rows := [h_opaque (2 ^ 32 + 5) ''p'']\<rparr>) d_ambiguous =
     (d_ambiguous, Inl Sqlx)"
  by code_simp

end
