(* ===== verification/Messages_Props.thy ===== *)
theory Messages_Props
  imports Store_Messages Snapshot_Mirror
begin

text \<open>
  Properties of the message statements: upserts, re-keying, flags, the search index, batched
  deletion, unread counts, Maildir names.
\<close>

section \<open>Upserts\<close>

lemma message_key_merge [simp]: "message_key (merge_message new old) = message_key new"
  by (simp add: merge_message_def message_key_def)

lemma coalesce_again [simp]:
  "coalesce a (coalesce a b) = coalesce a b"
  "coalesce a a = a"
  by (cases a; simp)+

interpretation stored_message: repeatable_table message_key merge_message
  by unfold_locales (simp_all add: merge_message_def message_key_def)

interpretation listed_folder_again: repeatable_table fname merge_folder
  by unfold_locales (simp_all add: merge_folder_def)

lemma schema_ok_upsert_message: "schema_ok d \<Longrightarrow> schema_ok (upsert_message m d)"
  unfolding upsert_message_def
  by (rule schema_ok_messages)
    (auto dest: schema_ok_tables intro: stored_message.upsert_ok subsetD [OF stored_message.upsert_keeps_ids])

text \<open>
  Writing the same message twice is writing it once, whatever the index holds, so a
  sync that is interrupted and repeated does no harm.
\<close>

theorem upsert_message_idempotent:
  "upsert_message m (upsert_message m d) = upsert_message m d"
  by (simp add: upsert_message_def stored_message.upsert_twice)

section \<open>Re-keying an opaque message\<close>

text \<open>
  The laws of the keeper: it is one of the rows that carry the provider id, and no other
  such row has a better rank.
\<close>

lemma keeper_of_Some:
  assumes "keeper_of f p d = Some k"
  shows "k \<in> set (rows_of (messages d)) \<and> folder k = f \<and> provider_id k = Some p \<and>
    (\<forall>m \<in> set (rows_of (messages d)). folder m = f \<longrightarrow> provider_id m = Some p \<longrightarrow> keeper_rank k \<le> keeper_rank m)"
proof -
  let ?xs = "select_where (\<lambda>m. folder m = f \<and> provider_id m = Some p) (messages d)"
  obtain ys where ys: "sort_key keeper_rank ?xs = k # ys"
    using assms by (auto simp: keeper_of_def split: list.splits)
  have "sorted (map keeper_rank (k # ys))" by (metis ys sorted_sort_key)
  moreover have "set (k # ys) = set ?xs" by (metis ys set_sort)
  moreover have "k \<in> set ?xs" using calculation(2) by auto
  ultimately show ?thesis by auto
qed

lemma keeper_of_None: "keeper_of f p d = None \<Longrightarrow> m \<in> set (rows_of (messages d)) \<Longrightarrow> folder m = f \<Longrightarrow> provider_id m \<noteq> Some p"
proof -
  assume "keeper_of f p d = None"
  then have "sort_key keeper_rank (select_where (\<lambda>m. folder m = f \<and> provider_id m = Some p) (messages d)) = []"
    by (auto simp: keeper_of_def split: list.splits)
  then have "set (select_where (\<lambda>m. folder m = f \<and> provider_id m = Some p) (messages d)) = {}"
    by (metis set_sort set_empty)
  then show "m \<in> set (rows_of (messages d)) \<Longrightarrow> folder m = f \<Longrightarrow> provider_id m \<noteq> Some p"
    by (auto simp: filter_empty_conv select_where_def)
qed

text \<open>
  A successful re-keying leaves exactly one row with the provider id: the best of the
  rows there were (a downloaded body first), moved to the canonical uid with everything
  else kept. A failing one leaves the index as it was.
\<close>

theorem rekey_opaque_message_collapses:
  assumes "rekey_opaque_message f p u uv d = (d', res)" and "schema_ok d" and "keeper_of f p d = Some k"
  shows "case res of
      Inl e \<Rightarrow> d' = d
    | Inr _ \<Rightarrow> select_where (\<lambda>m. folder m = f \<and> provider_id m = Some p) (messages d') =
                 [k\<lparr>uid := u, uidvalidity := uv\<rparr>]"
proof (cases "rekey_message (f, uid k, uidvalidity k) (\<lambda>r. r\<lparr>uid := u, uidvalidity := uv\<rparr>)
    (delete_messages_where
       (\<lambda>r. folder r = f \<and> provider_id r = Some p \<and> \<not> (uid r = uid k \<and> uidvalidity r = uidvalidity k)) d)")
  case (Inl e)
  then show ?thesis using assms(1,3) by (auto simp: rekey_opaque_message_def)
next
  case (Inr d2)
  have d': "d' = d2" "res = Inr ()" using Inr assms(1,3) by (auto simp: rekey_opaque_message_def)
  have k: "k \<in> set (rows_of (messages d))" "folder k = f" "provider_id k = Some p"
    using keeper_of_Some [OF assms(3)] by auto
  let ?g = "\<lambda>r. if message_key r = (f, uid k, uidvalidity k) then r\<lparr>uid := u, uidvalidity := uv\<rparr> else r"
  let ?keep = "\<lambda>r. \<not> (folder r = f \<and> provider_id r = Some p \<and> \<not> (uid r = uid k \<and> uidvalidity r = uidvalidity k))"
  have rows: "rows_of (messages d2) = map ?g (filter ?keep (rows_of (messages d)))"
    using Inr by (auto simp: rekey_message_def update_unique_def Let_def split: option.splits if_splits)
  have dist: "distinct (map message_key (rows_of (messages d)))"
    using assms(2) by (simp add: schema_ok_def table_ok_def)
  have "select_where (\<lambda>m. folder m = f \<and> provider_id m = Some p) (messages d2) =
      map ?g (filter (\<lambda>r. folder r = f \<and> provider_id r = Some p \<and> uid r = uid k \<and> uidvalidity r = uidvalidity k)
        (rows_of (messages d)))"
    unfolding select_where_def rows filter_map filter_filter
    by (intro arg_cong2 [where f = map] filter_cong refl) (auto split: if_splits)
  also have "filter (\<lambda>r. folder r = f \<and> provider_id r = Some p \<and> uid r = uid k \<and> uidvalidity r = uidvalidity k)
        (rows_of (messages d)) = [k]"
    using k by (intro filter_key_singleton [OF dist]) (auto simp: message_key_def)
  finally show ?thesis using d' k(2) by (simp add: message_key_def)
qed

definition d_rekey :: db where
  "d_rekey = empty_db\<lparr>messages :=
     [(1, header_message ''INBOX'' (h_opaque 5 ''p'')),
      (2, (header_message ''INBOX'' (h_opaque 6 ''p''))\<lparr>maildir_path := Some ''cur/x''\<rparr>)]\<rparr>"

theorem rekey_opaque_message_collapses_witness:
  "select_where (\<lambda>m. folder m = ''INBOX'' \<and> provider_id m = Some ''p'')
     (messages (fst (rekey_opaque_message ''INBOX'' ''p'' 9 0 d_rekey))) =
   [(header_message ''INBOX'' (h_opaque 9 ''p''))\<lparr>maildir_path := Some ''cur/x''\<rparr>]"
proof -
  let ?k = "(header_message ''INBOX'' (h_opaque 6 ''p''))\<lparr>maildir_path := Some ''cur/x''\<rparr>"
  have k: "keeper_of ''INBOX'' ''p'' d_rekey = Some ?k" by code_simp
  have ok: "schema_ok d_rekey"
    by (simp add: schema_ok_def d_rekey_def empty_db_def table_ok_def fts_ok_def message_key_def
        header_message_def h_opaque_def h_example_def)
  have "snd (rekey_opaque_message ''INBOX'' ''p'' 9 0 d_rekey) = Inr ()" by code_simp
  then obtain d' where "rekey_opaque_message ''INBOX'' ''p'' 9 0 d_rekey = (d', Inr ())"
    by (cases "rekey_opaque_message ''INBOX'' ''p'' 9 0 d_rekey") auto
  from rekey_opaque_message_collapses [OF this ok k] this show ?thesis
    by (simp add: header_message_def h_opaque_def h_example_def)
qed

section \<open>Flags\<close>

lemma fold_update_messages:
  "fold (\<lambda>m. update_messages_where (P m) (g m)) ms d =
     d\<lparr>messages := map (\<lambda>(i, r). (i, fold (\<lambda>m r. if P m r then g m r else r) ms r)) (messages d)\<rparr>"
proof (induction ms arbitrary: d)
  case (Cons m ms)
  show ?case
    unfolding fold_Cons comp_def Cons.IH
    by (simp add: update_messages_where_def update_where_def case_prod_beta)
qed (simp add: case_prod_beta)

lemma fold_other: "(\<And>m. m \<in> set ms \<Longrightarrow> \<not> P m r) \<Longrightarrow> fold (\<lambda>m r. if P m r then g m r else r) ms r = r"
  by (induction ms) auto

text \<open>On a database with unique keys the loop is a single UPDATE of the selected rows.\<close>

lemma mutate_flags_update:
  assumes "schema_ok d"
  shows "mutate_flags f uids add rm d =
    update_messages_where (\<lambda>r. folder r = f \<and> uid r \<in> set uids)
      (\<lambda>r. r\<lparr>flags := new_flags add rm (flags r)\<rparr>) d"
proof -
  let ?S = "\<lambda>r. folder r = f \<and> uid r \<in> set uids"
  let ?ms = "select_where ?S (messages d)"
  let ?P = "\<lambda>m r. folder r = f \<and> uid r = uid m \<and> uidvalidity r = uidvalidity m"
  let ?g = "\<lambda>m r. r\<lparr>flags := new_flags add rm (flags m)\<rparr>"
  have dist: "distinct (map message_key ?ms)"
    using assms by (simp add: schema_ok_def table_ok_def select_where_def distinct_map_filter)
  have P: "?P m r \<longleftrightarrow> message_key r = message_key m" if "m \<in> set ?ms" for m r
    using that by (auto simp: message_key_def)
  have row: "fold (\<lambda>m r. if ?P m r then ?g m r else r) ?ms r =
      (if ?S r then r\<lparr>flags := new_flags add rm (flags r)\<rparr> else r)"
    if r: "r \<in> set (rows_of (messages d))" for r
  proof (cases "?S r")
    case True
    with r have "r \<in> set ?ms" by simp
    then obtain xs ys where ms: "?ms = xs @ r # ys" by (meson split_list)
    have keys: "message_key m \<noteq> message_key r" if "m \<in> set xs \<union> set ys" for m
      using dist that unfolding ms by (auto simp: image_iff)
    have other: "\<not> ?P m s" if "m \<in> set xs \<union> set ys" "message_key s = message_key r" for m s
      using keys [OF that(1)] P [of m s] that ms by auto
    have "fold (\<lambda>m r. if ?P m r then ?g m r else r) xs r = r"
      by (rule fold_other) (use other in auto)
    moreover have "fold (\<lambda>m r. if ?P m r then ?g m r else r) ys (?g r r) = ?g r r"
      by (rule fold_other) (use other [of _ "?g r r"] in \<open>auto simp: message_key_def\<close>)
    ultimately show ?thesis unfolding ms using True by simp
  next
    case False
    then have "fold (\<lambda>m r. if ?P m r then ?g m r else r) ?ms r = r"
      by (intro fold_other) auto
    with False show ?thesis by (simp only: if_False)
  qed
  have "map (\<lambda>(i, r). (i, fold (\<lambda>m r. if ?P m r then ?g m r else r) ?ms r)) (messages d) =
      update_where ?S (\<lambda>r. r\<lparr>flags := new_flags add rm (flags r)\<rparr>) (messages d)"
    unfolding update_where_def using row by (fastforce simp: rows_of_def intro: map_cong)
  moreover have "update_where ?S (\<lambda>r. r\<lparr>flags := new_flags add rm (flags r)\<rparr>) (messages d) = messages d"
    if "uids = []"
    using that by (intro update_where_none) simp
  ultimately show ?thesis
    by (simp add: mutate_flags_def fold_update_messages update_messages_where_def)
qed

definition has_flag :: "string \<Rightarrow> string \<Rightarrow> bool" where
  "has_flag t fl \<longleftrightarrow> (\<exists>x \<in> set (split_whitespace fl). eq_ignore_ascii_case x t)"

lemma set_remove_tokens:
  "set (remove_tokens rm ts) = {t \<in> set ts. \<forall>r \<in> set rm. \<not> eq_ignore_ascii_case t r}"
  unfolding remove_tokens_def by (induction rm arbitrary: ts) auto

lemma fold_add_token_same:
  "(\<exists>x \<in> set (fold add_token add ts). eq_ignore_ascii_case x t) \<longleftrightarrow>
   (\<exists>x \<in> set ts. eq_ignore_ascii_case x t) \<or> (\<exists>a \<in> set add. eq_ignore_ascii_case a t)"
proof (induction add arbitrary: ts)
  case (Cons a add)
  have "(\<exists>x \<in> set (add_token a ts). eq_ignore_ascii_case x t) \<longleftrightarrow>
      (\<exists>x \<in> set ts. eq_ignore_ascii_case x t) \<or> eq_ignore_ascii_case a t"
    by (auto simp: add_token_def intro: eq_ignore_ascii_case_trans)
  with Cons show ?case by auto
qed simp

lemma set_fold_add_token: "set (fold add_token add ts) \<subseteq> set ts \<union> set add"
proof (induction add arbitrary: ts)
  case (Cons a add)
  have "set (add_token a ts) \<subseteq> insert a (set ts)" by (auto simp: add_token_def)
  with Cons [of "add_token a ts"] show ?case by auto
qed simp

lemma has_flag_new_flags:
  assumes "\<forall>a \<in> set add. token a"
  shows "has_flag t (new_flags add rm fl) \<longleftrightarrow>
    (\<exists>a \<in> set add. eq_ignore_ascii_case a t) \<or>
    (has_flag t fl \<and> \<not> (\<exists>r \<in> set rm. eq_ignore_ascii_case r t))"
proof -
  let ?ts = "remove_tokens rm (split_whitespace fl)"
  have "\<forall>x \<in> set (fold add_token add ?ts). token x"
    using assms set_fold_add_token [of add ?ts] split_whitespace_tokens
    by (auto simp: set_remove_tokens)
  then have "has_flag t (new_flags add rm fl) \<longleftrightarrow>
      (\<exists>x \<in> set ?ts. eq_ignore_ascii_case x t) \<or> (\<exists>a \<in> set add. eq_ignore_ascii_case a t)"
    by (simp add: has_flag_def new_flags_def split_whitespace_join fold_add_token_same)
  moreover have "(\<exists>x \<in> set ?ts. eq_ignore_ascii_case x t) \<longleftrightarrow>
      has_flag t fl \<and> \<not> (\<exists>r \<in> set rm. eq_ignore_ascii_case r t)"
    by (auto simp: set_remove_tokens has_flag_def)
      (metis eq_ignore_ascii_case_sym eq_ignore_ascii_case_trans)+
  ultimately show ?thesis by blast
qed

text \<open>
  \<^verbatim>\<open>mutate_flags\<close> gives each selected row exactly the added flags and those of its old
  ones that are not removed, whatever the case they are written in, and nothing else of the
  row changes.
\<close>

theorem mutate_flags_effect:
  assumes "schema_ok d" and "\<forall>a \<in> set add. token a"
    and "lookup_key message_key (f, u, uv) (messages d) = Some m" and "u \<in> set uids"
  shows "\<exists>fl. lookup_key message_key (f, u, uv) (messages (mutate_flags f uids add rm d)) =
        Some (m\<lparr>flags := fl\<rparr>) \<and>
      (\<forall>t. has_flag t fl \<longleftrightarrow>
         (\<exists>a \<in> set add. eq_ignore_ascii_case a t) \<or>
         (has_flag t (flags m) \<and> \<not> (\<exists>r \<in> set rm. eq_ignore_ascii_case r t)))"
proof -
  have "folder m = f" "uid m = u"
    using lookup_key_SomeD [OF assms(3)] by (simp_all add: message_key_def)
  then have "lookup_key message_key (f, u, uv) (messages (mutate_flags f uids add rm d)) =
      Some (m\<lparr>flags := new_flags add rm (flags m)\<rparr>)"
    using assms(3,4) by (simp add: mutate_flags_update [OF assms(1)] lookup_key_update_where message_key_def)
  with has_flag_new_flags [OF assms(2)] show ?thesis by blast
qed

theorem mutate_flags_effect_witness:
  "\<exists>fl. lookup_key message_key (''INBOX'', 6, 0) (messages (mutate_flags ''INBOX'' [6] [''Seen''] [''Flagged''] d_rekey)) =
        Some ((header_message ''INBOX'' (h_opaque 6 ''p''))\<lparr>maildir_path := Some ''cur/x'', flags := fl\<rparr>) \<and>
      has_flag ''SEEN'' fl \<and> \<not> has_flag ''flagged'' fl"
proof -
  have ok: "schema_ok d_rekey"
    by (simp add: schema_ok_def d_rekey_def empty_db_def table_ok_def fts_ok_def message_key_def
        header_message_def h_opaque_def h_example_def)
  have "ws_at ws_seqs (drop i ''Seen'') = 0" if "i < 4" for i
  proof -
    have "list_all (\<lambda>i. ws_at ws_seqs (drop i ''Seen'') = 0) [0..<4]" by code_simp
    with that show ?thesis by (simp add: list_all_iff)
  qed
  then have tok: "\<forall>a \<in> set [''Seen'']. token a"
    by (simp add: token_def no_ws_def)
  have l: "lookup_key message_key (''INBOX'', 6, 0) (messages d_rekey) =
      Some ((header_message ''INBOX'' (h_opaque 6 ''p''))\<lparr>maildir_path := Some ''cur/x''\<rparr>)"
    by code_simp
  from mutate_flags_effect [OF ok tok l, of "[6]" "[''Flagged'']"]
  obtain fl where a: "lookup_key message_key (''INBOX'', 6, 0)
        (messages (mutate_flags ''INBOX'' [6] [''Seen''] [''Flagged''] d_rekey)) =
      Some ((header_message ''INBOX'' (h_opaque 6 ''p''))\<lparr>maildir_path := Some ''cur/x'', flags := fl\<rparr>)"
    and b: "\<And>t. has_flag t fl \<longleftrightarrow> eq_ignore_ascii_case ''Seen'' t \<or>
      (has_flag t (flags ((header_message ''INBOX'' (h_opaque 6 ''p''))\<lparr>maildir_path := Some ''cur/x''\<rparr>)) \<and>
       \<not> eq_ignore_ascii_case ''Flagged'' t)"
    by auto
  have "eq_ignore_ascii_case ''Seen'' ''SEEN''" "\<not> eq_ignore_ascii_case ''Seen'' ''flagged''"
    "eq_ignore_ascii_case ''Flagged'' ''flagged''"
    by code_simp+
  with a b [of "''SEEN''"] b [of "''flagged''"] show ?thesis by blast
qed

section \<open>Batched deletion\<close>

lemma messages_fts_delete:
  "messages_fts (delete_messages_where P d) =
     filter (\<lambda>e. fts_rowid e \<notin> fst ` {x \<in> set (messages d). P (snd x)}) (messages_fts d)"
  by (simp add: delete_messages_where_def Let_def case_prod_beta)

lemma delete_messages_twice:
  "delete_messages_where Q (delete_messages_where P d) = delete_messages_where (\<lambda>m. P m \<or> Q m) d"
proof (rule db.equality)
  have "fst ` {x \<in> set (messages d). P (snd x) \<or> Q (snd x)} =
      fst ` {x \<in> set (messages d). P (snd x)} \<union> fst ` {x \<in> set (delete_where P (messages d)). Q (snd x)}"
    by (force simp: delete_where_def)
  then show "messages_fts (delete_messages_where Q (delete_messages_where P d)) =
      messages_fts (delete_messages_where (\<lambda>m. P m \<or> Q m) d)"
    by (simp only: messages_fts_delete filter_filter messages_delete_messages_where Un_iff de_Morgan_disj)
qed (simp_all add: delete_where_delete_where)

lemma delete_messages_none [simp]: "delete_messages_where (\<lambda>m. False) d = d"
  by (simp add: delete_messages_where_def)

lemma fold_delete_messages:
  "fold (\<lambda>b. delete_messages_where (P b)) bs d = delete_messages_where (\<lambda>m. \<exists>b \<in> set bs. P b m) d"
  by (induction bs arbitrary: d) (simp_all add: delete_messages_twice)

text \<open>
  Cutting the provider ids into batches below SQLite's bind limit deletes exactly what
  one unbounded DELETE would, search entries included, and no batch is over the limit.
\<close>

theorem delete_messages_by_provider_ids_batches:
  "delete_messages_by_provider_ids f ps d =
     delete_messages_where (\<lambda>m. folder m = f \<and> provider_id m \<in> Some ` set ps) d \<and>
   list_all (\<lambda>batch. length batch + 1 \<le> SQLITE_BIND_LIMIT) (chunks PROVIDER_ID_BATCH_SIZE ps)"
proof -
  let ?bs = "chunks PROVIDER_ID_BATCH_SIZE ps"
  have "set ps = (\<Union>b \<in> set ?bs. set b)"
    by (metis concat_chunks set_concat)
  then have "(\<lambda>m :: message_row. \<exists>b \<in> set ?bs. folder m = f \<and> provider_id m \<in> Some ` set b) =
      (\<lambda>m. folder m = f \<and> provider_id m \<in> Some ` set ps)"
    by (intro ext) auto
  then have "delete_messages_by_provider_ids f ps d =
      delete_messages_where (\<lambda>m. folder m = f \<and> provider_id m \<in> Some ` set ps) d"
    by (simp only: delete_messages_by_provider_ids_def fold_delete_messages)
  moreover have "length b + 1 \<le> SQLITE_BIND_LIMIT" if "b \<in> set ?bs" for b
    using length_chunks [OF that] by (simp add: PROVIDER_ID_BATCH_SIZE_def SQLITE_BIND_LIMIT_def)
  ultimately show ?thesis by (simp add: list_all_iff)
qed

section \<open>The search index\<close>

lemma rowid_of_Some: "rowid_of k d = Some i \<Longrightarrow> \<exists>m. (i, m) \<in> set (messages d) \<and> message_key m = k"
proof -
  assume "rowid_of k d = Some i"
  then obtain x where x: "List.find (\<lambda>(i, m). message_key m = k) (messages d) = Some x" "i = fst x"
    by (auto simp: rowid_of_def)
  from x(1) have "x \<in> set (messages d)" "case x of (i, m) \<Rightarrow> message_key m = k"
    by (auto dest!: find_SomeD)
  with x(2) show "\<exists>m. (i, m) \<in> set (messages d) \<and> message_key m = k"
    by (cases x) auto
qed

lemma fts_ok_index: "fts_ok d \<Longrightarrow> fts_ok (index_for_search f u uv s a t b d)"
  using rowid_of_Some [of "(f, u, uv)" d]
  by (force simp: fts_ok_def index_for_search_def split: option.splits)

text \<open>
  Every message a search lists is stored, at most \<open>limit\<close> are listed, and a message
  that is indexed again has one entry, with the new text, whatever MATCH does.
\<close>

theorem index_for_search_single_entry:
  assumes "rowid_of (f, u, uv) d = Some i"
  shows "filter (\<lambda>e. fts_rowid e = i) (messages_fts (index_for_search f u uv s a t b d)) =
      [\<lparr>fts_rowid = i, fts_subject = s, fts_from_addr = a, fts_to_addrs = t, fts_body = b\<rparr>] \<and>
    set (search fts_match q limit (index_for_search f u uv s a t b d)) \<subseteq> set (rows_of (messages d)) \<and>
    length (search fts_match q limit (index_for_search f u uv s a t b d)) \<le> limit"
proof -
  have "set (search fts_match q limit d') \<subseteq> set (rows_of (messages d'))" for d'
    unfolding search_def by (force dest!: in_set_takeD simp: rows_of_def)
  from this [of "index_for_search f u uv s a t b d"] show ?thesis
    using assms by (simp add: index_for_search_def search_def)
qed

theorem index_for_search_single_entry_witness:
  "filter (\<lambda>e. fts_rowid e = 2) (messages_fts (index_for_search ''INBOX'' 6 0 ''s'' ''a'' ''t'' ''b'' d_rekey)) =
     [\<lparr>fts_rowid = 2, fts_subject = ''s'', fts_from_addr = ''a'', fts_to_addrs = ''t'', fts_body = ''b''\<rparr>]"
proof -
  have "rowid_of (''INBOX'', 6, 0) d_rekey = Some 2" by code_simp
  from index_for_search_single_entry [OF this, of "''s''" "''a''" "''t''" "''b''" "\<lambda>q es. es" "''''" 1]
  show ?thesis by simp
qed

section \<open>Unread counts\<close>

text \<open>
  The unread counts are right: a folder is listed once, with the number of its rows
  whose flags name neither \<open>seen\<close> nor \<open>deleted\<close>, and only when that number is not zero.
\<close>

theorem folder_unread_counts_correct:
  "distinct (map fst (folder_unread_counts d)) \<and>
   ((f, n) \<in> set (folder_unread_counts d) \<longleftrightarrow>
      n = length (select_where (\<lambda>m. folder m = f \<and> is_unread m) (messages d)) \<and> n > 0)"
proof -
  let ?u = "select_where is_unread (messages d)"
  have fst: "map fst (folder_unread_counts d) = sort (remdups (map folder ?u))"
    by (simp add: folder_unread_counts_def Let_def comp_def)
  have sel: "select_where (\<lambda>m. folder m = f \<and> is_unread m) (messages d) = filter (\<lambda>m. folder m = f) ?u"
    by (simp add: select_where_def conj_commute)
  have "f \<in> folder ` set ?u \<longleftrightarrow> length (filter (\<lambda>m. folder m = f) ?u) > 0"
    by (auto simp: filter_empty_conv)
  then show ?thesis
    unfolding fst sel by (auto simp: folder_unread_counts_def Let_def image_iff)
qed

section \<open>Maildir names\<close>

definition info_letters :: "(char \<times> string) list" where
  "info_letters = [(CHR ''D'', ''draft''), (CHR ''F'', ''flagged''), (CHR ''R'', ''answered''),
     (CHR ''S'', ''seen''), (CHR ''T'', ''deleted'')]"

text \<open>
  The Maildir info section is what the format asks for: strictly ascending ASCII
  letters, one for each system flag the flag string contains.
\<close>

theorem maildir_info_letters:
  "maildir_info fl =
     map fst (filter (\<lambda>(c, name). contains (to_ascii_lowercase fl) (backslash # name)) info_letters) \<and>
   sorted_wrt (<) (maildir_info fl)"
proof -
  have e: "maildir_info fl =
     map fst (filter (\<lambda>(c, name). contains (to_ascii_lowercase fl) (backslash # name)) info_letters)"
    by (simp add: maildir_info_def Let_def info_letters_def less_eq_char_def)
  have "sorted_wrt (<) (map fst info_letters)"
    by (simp add: info_letters_def less_char_def)
  then show ?thesis
    unfolding e by (auto simp: sorted_wrt_map intro: sorted_wrt_filter)
qed

end
