(* ===== verification/Store_Outbox.thy ===== *)
theory Store_Outbox
  imports Store_Schema "HOL-Library.Multiset"
begin

text \<open>
  The outbox of crates/inbx-store/src/lib.rs: queued mail, its retry schedule, and the drain
  loop that \<^verbatim>\<open>sync_once\<close> (crates/inbx-sync/src/lib.rs) runs over it. The clock is a
  parameter; a row of the table carries its id.
\<close>

section \<open>Operations\<close>

definition outbox_enqueue :: "int \<Rightarrow> string \<Rightarrow> db \<Rightarrow> db \<times> int" where
  "outbox_enqueue now mail d =
     (d\<lparr>outbox := insert_row
        \<lparr>enqueued_unix = now, raw = mail, attempts = 0, next_retry_unix = now, last_error = None\<rparr>
        (outbox d)\<rparr>,
      next_rowid (outbox d))"

definition outbox_list :: "db \<Rightarrow> (int \<times> outbox_row) list" where
  "outbox_list d = sort_key (\<lambda>(i, r). enqueued_unix r) (outbox d)"

definition outbox_due :: "int \<Rightarrow> db \<Rightarrow> (int \<times> outbox_row) list" where
  "outbox_due now d =
     sort_key (\<lambda>(i, r). enqueued_unix r) (filter (\<lambda>(i, r). next_retry_unix r \<le> now) (outbox d))"

definition outbox_delete :: "int \<Rightarrow> db \<Rightarrow> db" where
  "outbox_delete i d = d\<lparr>outbox := filter (\<lambda>(j, r). j \<noteq> i) (outbox d)\<rparr>"

text \<open>
  \<^verbatim>\<open>30i64.saturating_mul(1 << (attempts - 1).min(7)).min(3600)\<close>, with \<open>attempts\<close> the
  number that includes this failure, so at least 1: the product is at most 3840 and never
  saturates.
\<close>

definition retry_delay :: "int \<Rightarrow> int" where
  "retry_delay n = min (30 * 2 ^ nat (min (n - 1) 7)) 3600"

definition outbox_attempts :: "int \<Rightarrow> db \<Rightarrow> int" where
  "outbox_attempts i d =
     (case List.find (\<lambda>(j, r). j = i) (outbox d) of None \<Rightarrow> 0 | Some (j, r) \<Rightarrow> attempts r)"

definition outbox_record_failure :: "int \<Rightarrow> int \<Rightarrow> string \<Rightarrow> db \<Rightarrow> db" where
  "outbox_record_failure now i err d =
     (let n = outbox_attempts i d + 1 in
      d\<lparr>outbox := map (\<lambda>(j, r). (j,
          if j = i
          then r\<lparr>attempts := n, next_retry_unix := now + retry_delay n, last_error := Some err\<rparr>
          else r)) (outbox d)\<rparr>)"

text \<open>
  The drain: every due row is sent once; a sent row is deleted, a failed one rescheduled.
  \<open>send\<close> is \<^verbatim>\<open>inbx_net::send_message\<close>, with the error's text.
\<close>

definition drain_one :: "(string \<Rightarrow> string + unit) \<Rightarrow> int \<Rightarrow> int \<times> outbox_row \<Rightarrow> db \<Rightarrow> db" where
  "drain_one send now ir d =
     (case send (raw (snd ir)) of
        Inr _ \<Rightarrow> outbox_delete (fst ir) d
      | Inl e \<Rightarrow> outbox_record_failure now (fst ir) e d)"

definition drain_outbox :: "(string \<Rightarrow> string + unit) \<Rightarrow> int \<Rightarrow> db \<Rightarrow> db" where
  "drain_outbox send now d = fold (drain_one send now) (outbox_due now d) d"

section \<open>Lemmas\<close>

lemma retry_delay_bounds: "1 \<le> n \<Longrightarrow> 30 \<le> retry_delay n \<and> retry_delay n \<le> 3600"
proof -
  have "(1 :: int) \<le> 2 ^ nat (min (n - 1) 7)" by simp
  then show ?thesis by (simp add: retry_delay_def)
qed

lemma outbox_attempts_row:
  "distinct (map fst (outbox d)) \<Longrightarrow> (i, r) \<in> set (outbox d) \<Longrightarrow> outbox_attempts i d = attempts r"
proof -
  assume d: "distinct (map fst (outbox d))" and r: "(i, r) \<in> set (outbox d)"
  obtain x where x: "List.find (\<lambda>(j, r). j = i) (outbox d) = Some x"
    using r by (cases "List.find (\<lambda>(j, r). j = i) (outbox d)") (auto simp: find_None_iff)
  then have "x \<in> set (outbox d)" "fst x = i"
    by (auto dest!: find_SomeD)
  with d r have "x = (i, r)" by (cases x) (auto dest: eq_key_imp_eq_value)
  with x show ?thesis by (simp add: outbox_attempts_def)
qed

definition reschedule :: "int \<Rightarrow> string \<Rightarrow> outbox_row \<Rightarrow> outbox_row" where
  "reschedule now err r =
     r\<lparr>attempts := attempts r + 1, next_retry_unix := now + retry_delay (attempts r + 1),
       last_error := Some err\<rparr>"

text \<open>What one turn of the drain does to each row of the table.\<close>

definition settle :: "(string \<Rightarrow> string + unit) \<Rightarrow> int \<Rightarrow> outbox_row \<Rightarrow> outbox_row option" where
  "settle send now r =
     (if next_retry_unix r \<le> now
      then (case send (raw r) of Inr _ \<Rightarrow> None | Inl e \<Rightarrow> Some (reschedule now e r))
      else Some r)"

definition entry :: "int \<Rightarrow> db \<Rightarrow> outbox_row option" where
  "entry i d = map_of (outbox d) i"

lemma distinct_drain_one:
  "distinct (map fst (outbox d)) \<Longrightarrow> distinct (map fst (outbox (drain_one send now ir d)))"
  by (auto simp: drain_one_def outbox_delete_def outbox_record_failure_def Let_def case_prod_beta
      comp_def distinct_map_filter split: sum.splits)

lemma map_of_filter_key: "map_of (filter (\<lambda>(j, r). j \<noteq> i) xs) = (map_of xs)(i := None)"
  by (induction xs) (auto simp: fun_eq_iff)

lemma map_of_update_key:
  "map_of (map (\<lambda>(j, r). (j, if j = i then f r else r)) xs) j =
     (if j = i then map_option f (map_of xs i) else map_of xs j)"
  by (induction xs) auto

lemma entry_drain_one:
  assumes "distinct (map fst (outbox d))" and "entry i d = Some r"
  shows "entry j (drain_one send now (i, r) d) =
    (if j = i then (case send (raw r) of Inr _ \<Rightarrow> None | Inl e \<Rightarrow> Some (reschedule now e r)) else entry j d)"
proof -
  have "outbox_attempts i d = attempts r"
    using outbox_attempts_row [OF assms(1)] assms(2) by (auto simp: entry_def dest: map_of_SomeD)
  then show ?thesis
    using assms(2)
    by (auto simp: drain_one_def entry_def outbox_delete_def outbox_record_failure_def Let_def
        map_of_filter_key map_of_update_key reschedule_def split: sum.splits)
qed

lemma entry_fold_drain:
  assumes "distinct (map fst (outbox d))" and "distinct (map fst rs)"
    and "\<forall>(i, r) \<in> set rs. entry i d = Some r"
  shows "entry j (fold (drain_one send now) rs d) =
    (case map_of rs j of
       None \<Rightarrow> entry j d
     | Some r \<Rightarrow> (case send (raw r) of Inr _ \<Rightarrow> None | Inl e \<Rightarrow> Some (reschedule now e r)))"
  using assms
proof (induction rs arbitrary: d)
  case (Cons ir rs)
  obtain i r where ir: "ir = (i, r)" by (cases ir)
  have e: "entry i d = Some r" using Cons.prems(3) ir by simp
  let ?d = "drain_one send now (i, r) d"
  have rest: "entry k ?d = Some x" if "(k, x) \<in> set rs" for k x
  proof -
    have "k \<noteq> i" using that Cons.prems(2) ir by (auto simp: image_iff)
    then show ?thesis
      using that Cons.prems(3) entry_drain_one [OF Cons.prems(1) e, of k send now] by auto
  qed
  have "entry j (fold (drain_one send now) rs ?d) =
    (case map_of rs j of
       None \<Rightarrow> entry j ?d
     | Some r \<Rightarrow> (case send (raw r) of Inr _ \<Rightarrow> None | Inl e \<Rightarrow> Some (reschedule now e r)))"
    by (rule Cons.IH) (use Cons.prems distinct_drain_one rest in auto)
  moreover have "map_of rs i = None" using Cons.prems(2) ir by (simp add: map_of_eq_None_iff)
  ultimately show ?case
    using entry_drain_one [OF Cons.prems(1) e, of j send now]
    by (cases "j = i"; cases "map_of rs j") (simp_all add: ir)
qed simp

lemma entry_drain:
  assumes "distinct (map fst (outbox d))"
  shows "entry i (drain_outbox send now d) = Option.bind (entry i d) (settle send now)"
proof -
  let ?due = "filter (\<lambda>(i, r). next_retry_unix r \<le> now) (outbox d)"
  have due: "set (outbox_due now d) = set ?due" by (simp add: outbox_due_def)
  have "distinct (map fst ?due)"
    using assms by (simp add: distinct_map_filter)
  moreover have "mset (map fst (outbox_due now d)) = mset (map fst ?due)"
    by (simp add: outbox_due_def)
  ultimately have dist: "distinct (map fst (outbox_due now d))"
    by (metis mset_eq_imp_distinct_iff)
  have iff: "map_of (outbox_due now d) i = Some r \<longleftrightarrow> entry i d = Some r \<and> next_retry_unix r \<le> now" for i r
    unfolding entry_def map_of_eq_Some_iff [OF dist] map_of_eq_Some_iff [OF assms] due by auto
  have "entry i (drain_outbox send now d) =
    (case map_of (outbox_due now d) i of
       None \<Rightarrow> entry i d
     | Some r \<Rightarrow> (case send (raw r) of Inr _ \<Rightarrow> None | Inl e \<Rightarrow> Some (reschedule now e r)))"
    unfolding drain_outbox_def
    by (rule entry_fold_drain [OF assms dist]) (use due assms in \<open>auto simp: entry_def\<close>)
  also have "\<dots> = Option.bind (entry i d) (settle send now)"
  proof (cases "map_of (outbox_due now d) i")
    case None
    then have "entry i d = Some r \<Longrightarrow> \<not> next_retry_unix r \<le> now" for r
      using iff [of i r] by simp
    with None show ?thesis by (cases "entry i d") (simp_all add: settle_def)
  next
    case (Some r)
    then show ?thesis using iff [of i r] by (simp add: settle_def)
  qed
  finally show ?thesis .
qed

section \<open>Properties\<close>

text \<open>
  C10. One drain settles every queued mail: a due mail that is sent is gone, a due mail
  whose sending fails stays with one more attempt, a later retry time and the error, and a
  mail that is not due is not touched.
\<close>

theorem drain_outbox_settles:
  assumes "distinct (map fst (outbox d))"
  shows "map_of (outbox (drain_outbox send now d)) i =
    (case map_of (outbox d) i of
       None \<Rightarrow> None
     | Some r \<Rightarrow>
         if now < next_retry_unix r then Some r
         else (case send (raw r) of
                 Inr _ \<Rightarrow> None
               | Inl e \<Rightarrow> Some (r\<lparr>attempts := attempts r + 1,
                   next_retry_unix := now + retry_delay (attempts r + 1), last_error := Some e\<rparr>)))"
  using entry_drain [OF assms, of i send now]
  by (auto simp: entry_def settle_def reschedule_def split: option.splits sum.splits)

definition outbox_example :: db where
  "outbox_example = fst (outbox_enqueue 10 ''b'' (fst (outbox_enqueue 5 ''a'' empty_db)))"

theorem drain_outbox_settles_witness:
  "map_of (outbox (drain_outbox (\<lambda>m. if m = ''a'' then Inr () else Inl ''no route'') 20 outbox_example)) 2 =
     Some \<lparr>enqueued_unix = 10, raw = ''b'', attempts = 1, next_retry_unix = 50,
           last_error = Some ''no route''\<rparr>"
proof -
  have "distinct (map fst (outbox outbox_example))" by code_simp
  from drain_outbox_settles [OF this, of "\<lambda>m. if m = ''a'' then Inr () else Inl ''no route''" 20 2]
  show ?thesis
    by (simp add: outbox_example_def outbox_enqueue_def empty_db_def insert_row_def next_rowid_def
        retry_delay_def)
qed

text \<open>
  The retry delays never shrink as failures add up, start at half a minute and stay at
  one hour from the eighth failure on.
\<close>

theorem retry_delay_backoff:
  assumes "1 \<le> m" and "m \<le> n"
  shows "retry_delay m \<le> retry_delay n \<and> 30 \<le> retry_delay m \<and> retry_delay n \<le> 3600 \<and>
    retry_delay 1 = 30 \<and> (8 \<le> n \<longrightarrow> retry_delay n = 3600)"
proof -
  have "nat (min (m - 1) 7) \<le> nat (min (n - 1) 7)" using assms(2) by auto
  then have "(2 :: int) ^ nat (min (m - 1) 7) \<le> 2 ^ nat (min (n - 1) 7)"
    by (intro power_increasing) simp_all
  then have "retry_delay m \<le> retry_delay n"
    unfolding retry_delay_def by (intro min.mono mult_left_mono) simp_all
  then show ?thesis
    using retry_delay_bounds [of m] retry_delay_bounds [of n] assms by (auto simp: retry_delay_def)
qed

theorem retry_delay_backoff_witness: "retry_delay 3 = 120 \<and> retry_delay 3 \<le> retry_delay 9"
  using retry_delay_backoff [of 3 9] by (simp add: retry_delay_def)

text \<open>
  The outbox ids are reused: when the newest mail is sent and deleted, the next mail
  that is queued has its id. A process that still holds the old row would delete the new
  mail unsent.
\<close>

theorem outbox_ids_reused:
  "let (d1, i) = outbox_enqueue 5 ''first'' empty_db;
       d2 = outbox_delete i d1;
       (d3, j) = outbox_enqueue 6 ''second'' d2
   in i = j \<and> outbox (outbox_delete i d3) = []"
  by code_simp

end
