(* ===== verification/Contacts.thy ===== *)
theory Contacts
  imports Sql_Table Rust_Str "HOL-Library.Product_Lexorder"
begin

text \<open>
  The contacts store (crates/inbx-contacts/src/lib.rs). The column \<^verbatim>\<open>email\<close> is UNIQUE with
  COLLATE NOCASE, so the key of a row is its address in ASCII lower case. The clock and the
  SHA-1 digest of the CardDAV resource name are parameters, and so are the addresses the
  MIME parser finds in a message.
\<close>

section \<open>Rows and statements\<close>

record contact =
  email :: string
  name :: "string option"
  frecency_count :: int
  last_used_unix :: int
  pgp_pubkey :: "string option"
  pgp_fingerprint :: "string option"
  pgp_seen_unix :: "int option"

definition contact_key :: "contact \<Rightarrow> string" where
  "contact_key c = to_ascii_lowercase (email c)"

definition new_contact :: "string \<Rightarrow> string option \<Rightarrow> int \<Rightarrow> int \<Rightarrow> contact" where
  "new_contact e n count now =
     \<lparr>email = e, name = n, frecency_count = count, last_used_unix = now,
      pgp_pubkey = None, pgp_fingerprint = None, pgp_seen_unix = None\<rparr>"

definition merge_upsert :: "contact \<Rightarrow> contact \<Rightarrow> contact" where
  "merge_upsert new old =
     old\<lparr>name := coalesce (name new) (name old), last_used_unix := last_used_unix new\<rparr>"

definition merge_bump :: "contact \<Rightarrow> contact \<Rightarrow> contact" where
  "merge_bump new old =
     old\<lparr>frecency_count := frecency_count old + 1, name := coalesce (name new) (name old),
         last_used_unix := last_used_unix new\<rparr>"

definition merge_autocrypt :: "contact \<Rightarrow> contact \<Rightarrow> contact" where
  "merge_autocrypt new old =
     old\<lparr>pgp_pubkey := pgp_pubkey new, pgp_fingerprint := pgp_fingerprint new,
         pgp_seen_unix := pgp_seen_unix new\<rparr>"

definition upsert_contact :: "int \<Rightarrow> string \<Rightarrow> string option \<Rightarrow> contact table \<Rightarrow> contact table" where
  "upsert_contact now e n t = upsert contact_key merge_upsert (new_contact e n 0 now) t"

definition bump :: "int \<Rightarrow> string \<Rightarrow> string option \<Rightarrow> contact table \<Rightarrow> contact table" where
  "bump now e n t = upsert contact_key merge_bump (new_contact e n 1 now) t"

text \<open>
  The From, To and Cc groups of a parsed message, in that order: for each entry its
  address, if it has one, and its display name. \<open>None\<close> is a message that does not parse.
\<close>

type_synonym mailbox = "string option \<times> string option"

fun harvest_groups :: "int \<Rightarrow> mailbox list \<Rightarrow> contact table \<times> nat \<Rightarrow> contact table \<times> nat" where
  "harvest_groups now [] s = s"
| "harvest_groups now ((None, n) # ms) s = harvest_groups now ms s"
| "harvest_groups now ((Some e, n) # ms) (t, touched) =
     harvest_groups now ms (bump now e n t, touched + 1)"

definition harvest :: "int \<Rightarrow> mailbox list list option \<Rightarrow> contact table \<Rightarrow> contact table \<times> nat" where
  "harvest now parsed t =
     (case parsed of None \<Rightarrow> (t, 0) | Some groups \<Rightarrow> harvest_groups now (concat groups) (t, 0))"

text \<open>\<^verbatim>\<open>ORDER BY frecency_count DESC, last_used_unix DESC\<close>.\<close>

definition frecency :: "contact \<Rightarrow> int \<times> int" where
  "frecency c = (- frecency_count c, - last_used_unix c)"

definition list_contacts :: "nat \<Rightarrow> contact table \<Rightarrow> contact list" where
  "list_contacts limit t = take limit (sort_key frecency (rows_of t))"

definition escape_like :: "string \<Rightarrow> string" where
  "escape_like s =
     concat (map (\<lambda>c. if c = CHR ''%'' \<or> c = CHR ''_'' \<or> c = CHR 0x5C then [CHR 0x5C, c] else [c]) s)"

text \<open>
  SQL's LIKE with the escape character \<^verbatim>\<open>\\<close>: \<^verbatim>\<open>%\<close> stands for any text, \<^verbatim>\<open>_\<close> for one
  character, and ASCII letters match in either case.
\<close>

fun like :: "string \<Rightarrow> string \<Rightarrow> bool" where
  "like [] s = (s = [])"
| "like (c # p) s =
     (if c = CHR ''%'' then list_ex (\<lambda>i. like p (drop i s)) [0..<Suc (length s)]
      else if c = CHR ''_'' then s \<noteq> [] \<and> like p (dropWhile is_cont (tl s))
      else if c = CHR 0x5C then
        (case p of
           [] \<Rightarrow> False
         | d # q \<Rightarrow> s \<noteq> [] \<and> lower_char (hd s) = lower_char d \<and> like q (tl s))
      else s \<noteq> [] \<and> lower_char (hd s) = lower_char c \<and> like p (tl s))"

definition matches_query :: "string \<Rightarrow> contact \<Rightarrow> bool" where
  "matches_query q c =
     (let pattern = ''%'' @ escape_like q @ ''%'' in
      like pattern (email c) \<or> (case name c of None \<Rightarrow> False | Some n \<Rightarrow> like pattern n))"

definition query_rank :: "string \<Rightarrow> contact \<Rightarrow> int \<times> int \<times> int" where
  "query_rank q c = (if like (escape_like q @ ''%'') (email c) then 0 else 1, frecency c)"

definition search_contacts :: "string \<Rightarrow> nat \<Rightarrow> contact table \<Rightarrow> contact list" where
  "search_contacts q limit t = take limit (sort_key (query_rank q) (select_where (matches_query q) t))"

definition delete_contact :: "string \<Rightarrow> contact table \<Rightarrow> contact table \<times> bool" where
  "delete_contact e t =
     (let P = (\<lambda>c. eq_ignore_ascii_case (email c) e) in
      (delete_where P t, select_where P t \<noteq> []))"

definition store_autocrypt :: "int \<Rightarrow> string \<Rightarrow> string \<Rightarrow> string \<Rightarrow> contact table \<Rightarrow> contact table" where
  "store_autocrypt now e key fp t =
     upsert contact_key merge_autocrypt
       ((new_contact e None 0 now)
          \<lparr>pgp_pubkey := Some key, pgp_fingerprint := Some fp, pgp_seen_unix := Some now\<rparr>) t"

definition lookup_pubkey :: "string \<Rightarrow> contact table \<Rightarrow> string option" where
  "lookup_pubkey e t =
     (case select_where (\<lambda>c. eq_ignore_ascii_case (email c) e) t of
        [] \<Rightarrow> None | c # _ \<Rightarrow> pgp_pubkey c)"

section \<open>The table\<close>

interpretation contact_upsert: keyed_table contact_key merge_upsert
  by unfold_locales (simp add: contact_key_def merge_upsert_def)

interpretation contact_bump: keyed_table contact_key merge_bump
  by unfold_locales (simp add: contact_key_def merge_bump_def)

interpretation contact_autocrypt: repeatable_table contact_key merge_autocrypt
  by unfold_locales (simp_all add: contact_key_def merge_autocrypt_def)

lemma contact_key_new [simp]: "contact_key (new_contact e n k now) = to_ascii_lowercase e"
  by (simp add: contact_key_def new_contact_def)

lemma table_ok_contacts:
  assumes "table_ok contact_key t"
  shows "table_ok contact_key (upsert_contact now e n t)"
    and "table_ok contact_key (bump now e n t)"
    and "table_ok contact_key (store_autocrypt now e k f t)"
    and "table_ok contact_key (fst (delete_contact e t))"
  using assms
  by (simp_all add: upsert_contact_def bump_def store_autocrypt_def delete_contact_def Let_def
      contact_upsert.upsert_ok contact_bump.upsert_ok contact_autocrypt.upsert_ok)

lemma select_email: "select_where (\<lambda>c. eq_ignore_ascii_case (email c) e) t =
    select_where (\<lambda>c. contact_key c = to_ascii_lowercase e) t"
  by (simp add: eq_ignore_ascii_case_def contact_key_def)

lemma lookup_key_hd:
  "lookup_key key k t = (case select_where (\<lambda>r. key r = k) t of [] \<Rightarrow> None | r # _ \<Rightarrow> Some r)"
proof (induction t)
  case (Cons a t)
  then show ?case by (cases a; cases "key (snd a) = k") (simp_all add: select_where_def)
qed (simp add: select_where_def)

lemma lookup_pubkey_key:
  "lookup_pubkey e t = Option.bind (lookup_key contact_key (to_ascii_lowercase e) t) pgp_pubkey"
  by (simp add: lookup_pubkey_def select_email lookup_key_hd split: list.splits)

definition uses :: "string \<Rightarrow> contact table \<Rightarrow> int" where
  "uses e t = (case lookup_key contact_key (to_ascii_lowercase e) t of None \<Rightarrow> 0 | Some c \<Rightarrow> frecency_count c)"

lemma uses_bump:
  "uses e (bump now x n t) = uses e t + (if eq_ignore_ascii_case x e then 1 else 0)"
proof -
  have [simp]: "frecency_count (new_contact x n 1 now) = 1"
    "frecency_count (merge_bump c old) = frecency_count old + 1" for c old
    by (simp_all add: new_contact_def merge_bump_def)
  show ?thesis
    by (cases "lookup_key contact_key (to_ascii_lowercase e) t")
      (auto simp: uses_def bump_def contact_bump.lookup_upsert eq_ignore_ascii_case_def)
qed

definition occurrences :: "string \<Rightarrow> mailbox list \<Rightarrow> nat" where
  "occurrences e ms = length (filter (\<lambda>(a, n). \<exists>x. a = Some x \<and> eq_ignore_ascii_case x e) ms)"

lemma harvest_groups_uses:
  "uses e (fst (harvest_groups now ms (t, k))) = uses e t + int (occurrences e ms) \<and>
   snd (harvest_groups now ms (t, k)) = k + length (filter (\<lambda>(a, n). a \<noteq> None) ms) \<and>
   (table_ok contact_key t \<longrightarrow> table_ok contact_key (fst (harvest_groups now ms (t, k))))"
proof (induction now ms "(t, k)" arbitrary: t k rule: harvest_groups.induct)
  case (3 now x n ms t k)
  then show ?case by (auto simp: uses_bump occurrences_def table_ok_contacts)
qed (simp_all add: occurrences_def)

text \<open>
  Harvesting a message counts right: the frecency of an address grows by the number of
  times it appears in the headers, in whatever case, the returned number is that of all
  addresses, and no address gets a second row.
\<close>

theorem harvest_counts:
  "uses e (fst (harvest now (Some groups) t)) = uses e t + int (occurrences e (concat groups)) \<and>
   snd (harvest now (Some groups) t) = length (filter (\<lambda>(a, n). a \<noteq> None) (concat groups)) \<and>
   (table_ok contact_key t \<longrightarrow> table_ok contact_key (fst (harvest now (Some groups) t)))"
  using harvest_groups_uses [of e now "concat groups" t 0] by (simp add: harvest_def)

theorem harvest_counts_witness:
  "uses ''a@x'' (fst (harvest 7 (Some [[(Some ''A@x'', None)], [(Some ''a@X'', None), (None, None)]]) [])) = 2 \<and>
   table_ok contact_key (fst (harvest 7 (Some [[(Some ''A@x'', None)], [(Some ''a@X'', None), (None, None)]]) []))"
proof -
  have "uses ''a@x'' [] = 0" "occurrences ''a@x'' (concat [[(Some ''A@x'', None)], [(Some ''a@X'', None), (None, None)]]) = 2"
    by (simp add: uses_def) (simp add: occurrences_def, code_simp)
  with harvest_counts [of "''a@x''" 7 "[[(Some ''A@x'', None)], [(Some ''a@X'', None), (None, None)]]" "[]"]
  show ?thesis by simp
qed

section \<open>LIKE\<close>

lemma like_escape_like:
  "like (escape_like q @ p) s \<longleftrightarrow>
     prefix (to_ascii_lowercase q) (to_ascii_lowercase s) \<and> like p (drop (length q) s)"
proof (induction q arbitrary: s)
  case (Cons c q)
  then show ?case
    by (cases s) (auto simp: escape_like_def to_ascii_lowercase_def)
qed (simp add: escape_like_def)

lemma like_any: "like (CHR ''%'' # p) s \<longleftrightarrow> (\<exists>i \<le> length s. like p (drop i s))"
  by (auto simp: list_ex_iff less_Suc_eq_le simp del: upt_Suc)

lemma like_percent: "like ''%'' s"
  unfolding like_any by (intro exI [of _ "length s"]) simp

lemma sublist_drop: "sublist p s \<longleftrightarrow> (\<exists>i \<le> length s. prefix p (drop i s))"
proof
  assume "sublist p s"
  then obtain a b where "s = a @ p @ b" by (auto simp: sublist_def)
  then show "\<exists>i \<le> length s. prefix p (drop i s)" by (intro exI [of _ "length a"]) simp
next
  assume "\<exists>i \<le> length s. prefix p (drop i s)"
  then obtain i b where "drop i s = p @ b" by (auto simp: prefix_def)
  then have "s = take i s @ p @ b" by (metis append_take_drop_id)
  then show "sublist p s" by (auto simp: sublist_def)
qed

lemma like_contains:
  "like (''%'' @ escape_like q @ ''%'') s \<longleftrightarrow> contains (to_ascii_lowercase s) (to_ascii_lowercase q)"
proof -
  have "like (''%'' @ escape_like q @ ''%'') s \<longleftrightarrow>
      (\<exists>i \<le> length s. like (escape_like q @ ''%'') (drop i s))"
    by (simp only: append_Cons append_Nil like_any)
  also have "\<dots> \<longleftrightarrow> sublist (to_ascii_lowercase q) (to_ascii_lowercase s)"
    by (simp only: like_escape_like like_percent sublist_drop to_ascii_lowercase_drop
        length_to_ascii_lowercase simp_thms)
  finally show ?thesis by (simp only: contains_iff)
qed

lemma matches_query_iff:
  "matches_query q c \<longleftrightarrow>
     contains (to_ascii_lowercase (email c)) (to_ascii_lowercase q) \<or>
     (\<exists>n. name c = Some n \<and> contains (to_ascii_lowercase n) (to_ascii_lowercase q))"
  unfolding matches_query_def Let_def like_contains by (auto split: option.splits)

text \<open>
  The contact search takes the query literally: with room for every row it lists
  exactly the contacts whose address or name contains the query in ASCII-insensitive case,
  so no character of the query acts as a wildcard; with a limit it lists the best of them.
\<close>

theorem search_contacts_literal:
  "(c \<in> set (search_contacts q (length t) t) \<longleftrightarrow>
      c \<in> set (rows_of t) \<and>
      (contains (to_ascii_lowercase (email c)) (to_ascii_lowercase q) \<or>
       (\<exists>n. name c = Some n \<and> contains (to_ascii_lowercase n) (to_ascii_lowercase q)))) \<and>
   search_contacts q limit t = take limit (search_contacts q (length t) t) \<and>
   sorted (map (query_rank q) (search_contacts q limit t))"
proof -
  let ?all = "sort_key (query_rank q) (select_where (matches_query q) t)"
  have "length ?all \<le> length t"
    by (simp add: select_where_def rows_of_def le_trans [OF length_filter_le])
  then have all: "search_contacts q (length t) t = ?all"
    by (simp add: search_contacts_def)
  moreover have "sorted (map (query_rank q) (take limit ?all))"
    by (simp add: sorted_wrt_take flip: take_map)
  ultimately show ?thesis
    by (simp add: matches_query_iff) (simp add: search_contacts_def)
qed

text \<open>
  A key that was harvested for an address is found again under every spelling of it
  that differs only in ASCII case, and the contact's name and frecency are not touched.
\<close>

theorem store_autocrypt_lookup:
  assumes "eq_ignore_ascii_case e e'"
  shows "lookup_pubkey e' (store_autocrypt now e key fp t) = Some key \<and>
    uses x (store_autocrypt now e key fp t) = uses x t"
proof -
  have [simp]: "pgp_pubkey (merge_autocrypt c old) = pgp_pubkey c"
    "frecency_count (merge_autocrypt c old) = frecency_count old" for c old
    by (simp_all add: merge_autocrypt_def)
  have [simp]: "contact_key (new_contact e None 0 now
      \<lparr>pgp_pubkey := Some key, pgp_fingerprint := Some fp, pgp_seen_unix := Some now\<rparr>) = to_ascii_lowercase e"
    by (simp add: contact_key_def new_contact_def)
  have "lookup_pubkey e' (store_autocrypt now e key fp t) = Some key"
    using assms
    by (simp add: lookup_pubkey_key store_autocrypt_def contact_autocrypt.lookup_upsert
        eq_ignore_ascii_case_def split: option.split)
  moreover have "uses x (store_autocrypt now e key fp t) = uses x t"
    by (auto simp: uses_def store_autocrypt_def contact_autocrypt.lookup_upsert new_contact_def
        split: option.split)
  ultimately show ?thesis ..
qed

theorem store_autocrypt_lookup_witness:
  "lookup_pubkey ''BOB@x'' (store_autocrypt 3 ''bob@X'' ''KEY'' ''FP'' []) = Some ''KEY''"
proof -
  have "eq_ignore_ascii_case ''bob@X'' ''BOB@x''" by code_simp
  from store_autocrypt_lookup [OF this, of 3 "''KEY''" "''FP''" "[]" "''a''"] show ?thesis by simp
qed

end
