(* ===== verification/Sync_Engine.thy ===== *)
theory Sync_Engine
  imports Messages_Props Store_Outbox Contacts "HOL-Library.Word"
begin

text \<open>
  The sync engine (crates/inbx-sync/src/lib.rs): \<^verbatim>\<open>sync_once\<close>, what it calls, and one turn
  of the account loop of \<^verbatim>\<open>run\<close>. The mail provider is a record of functions, the MIME parser
  and the Autocrypt reader are parameters, and the clock is read once per cycle. File and
  SQL I/O succeed; the errors that remain are the provider's and the store's own.
\<close>

section \<open>Types\<close>

text \<open>\<^verbatim>\<open>inbx_net::HeaderRow\<close>, whose UIDVALIDITY is a \<^verbatim>\<open>u32\<close>.\<close>

record header_row =
  n_uid :: int
  n_uidvalidity :: "32 word"
  n_message_id :: "string option"
  n_subject :: "string option"
  n_from_addr :: "string option"
  n_to_addrs :: "string option"
  n_date_unix :: "int option"
  n_flags :: string
  n_fetched_at_unix :: int
  n_provider_id :: "string option"

record header_snapshot =
  s_rows :: "header_row list"
  s_complete :: bool
  s_transport :: snapshot_transport

record folder_info =
  i_name :: string
  i_delim :: "string option"
  i_special_use :: "string option"
  i_attrs :: "string list"
  i_selectable :: bool

datatype sync_error = Store_Error store_error | Cannot_Fit int | Provider_Error string

record provider =
  list_folders_of :: "string + folder_info list"
  fetch_headers_of :: "string \<Rightarrow> string + header_snapshot"
  fetch_bodies_of :: "string \<Rightarrow> int list \<Rightarrow> string + (int \<times> string) list"

text \<open>The parts of a parsed message that the index uses.\<close>

record parsed =
  p_message_id :: "string option"
  p_in_reply_to :: "string list option"
  p_references :: "string list option"
  p_subject :: "string option"
  p_from :: "string option"
  p_to :: "string list"
  p_body :: "string option"

text \<open>What a cycle reads from its surroundings.\<close>

record env =
  now_unix :: int
  now_secs :: nat
  pid :: nat
  host :: string
  root_dir :: string
  send_mail :: "string \<Rightarrow> string + unit"
  parse_mail :: "string \<Rightarrow> parsed option"
  read_autocrypt :: "string \<Rightarrow> (string \<times> string \<times> string) option"

text \<open>What a cycle changes: index, Maildir files, the file counter, the contacts if they open.\<close>

record sync_state =
  store :: db
  maildir :: "(string \<times> string) list"
  counter :: nat
  contacts :: "contact table option"

section \<open>apply\_snapshot\<close>

definition to_store_header :: "header_row \<Rightarrow> snapshot_header" where
  "to_store_header h =
     \<lparr>h_uid = n_uid h, h_uidvalidity = uint (n_uidvalidity h), h_message_id = n_message_id h,
      h_subject = n_subject h, h_from_addr = n_from_addr h, h_to_addrs = n_to_addrs h,
      h_date_unix = n_date_unix h, h_flags = n_flags h, h_fetched_at_unix = n_fetched_at_unix h,
      h_provider_id = n_provider_id h\<rparr>"

definition of_store_header :: "snapshot_header \<Rightarrow> sync_error + header_row" where
  "of_store_header h =
     (if 0 \<le> h_uidvalidity h \<and> h_uidvalidity h < 2 ^ 32
      then Inr \<lparr>n_uid = h_uid h, n_uidvalidity = word_of_int (h_uidvalidity h),
                n_message_id = h_message_id h, n_subject = h_subject h,
                n_from_addr = h_from_addr h, n_to_addrs = h_to_addrs h,
                n_date_unix = h_date_unix h, n_flags = h_flags h,
                n_fetched_at_unix = h_fetched_at_unix h, n_provider_id = h_provider_id h\<rparr>
      else Inl (Cannot_Fit (h_uidvalidity h)))"

text \<open>\<^verbatim>\<open>collect::<Result<Vec<_>>>()\<close>: the first error, or all results.\<close>

fun collect_results :: "('a \<Rightarrow> 'e + 'b) \<Rightarrow> 'a list \<Rightarrow> 'e + 'b list" where
  "collect_results f [] = Inr []"
| "collect_results f (x # xs) = and_then (f x) (\<lambda>y. and_then (collect_results f xs) (\<lambda>ys. Inr (y # ys)))"

definition snapshot_input_of :: "string \<Rightarrow> int \<Rightarrow> header_snapshot \<Rightarrow> snapshot_input" where
  "snapshot_input_of f g snap =
     \<lparr>in_folder = f, generation = g, complete = s_complete snap, transport = s_transport snap,
      in_rows = map to_store_header (s_rows snap)\<rparr>"

definition sync_apply_snapshot ::
  "int \<Rightarrow> string \<Rightarrow> int \<Rightarrow> header_snapshot \<Rightarrow> db \<Rightarrow> db \<times> (sync_error + bool \<times> header_row list)" where
  "sync_apply_snapshot now f g snap d =
     (case apply_snapshot now (snapshot_input_of f g snap) d of
        (d', Inl e) \<Rightarrow> (d', Inl (Store_Error e))
      | (d', Inr out) \<Rightarrow>
          (d', and_then (collect_results of_store_header (new_rows out)) (\<lambda>rows. Inr (applied out, rows))))"

section \<open>Bodies\<close>

definition index_in_store ::
  "(string \<Rightarrow> parsed option) \<Rightarrow> string \<Rightarrow> int \<Rightarrow> int \<Rightarrow> string \<Rightarrow> db \<Rightarrow> (db \<times> unit result) option" where
  "index_in_store parse f u uv mail d =
     (case parse mail of
        None \<Rightarrow> Some (d, Inr ())
      | Some p \<Rightarrow>
          let irt = (case p_in_reply_to p of Some (x # _) \<Rightarrow> Some x | _ \<Rightarrow> None);
              rs = (case p_references p of Some rs \<Rightarrow> rs | None \<Rightarrow> [])
          in (case set_threading f u uv (p_message_id p) irt rs d of
                None \<Rightarrow> None
              | Some (d', Inl e) \<Rightarrow> Some (d', Inl e)
              | Some (d', Inr _) \<Rightarrow>
                  Some (index_for_search f u uv
                          (case p_subject p of Some s \<Rightarrow> s | None \<Rightarrow> [])
                          (case p_from p of Some a \<Rightarrow> a | None \<Rightarrow> [])
                          (join '', '' (p_to p))
                          (case p_body p of Some b \<Rightarrow> b | None \<Rightarrow> []) d', Inr ())))"

definition harvest_autocrypt :: "env \<Rightarrow> string \<Rightarrow> contact table \<Rightarrow> contact table" where
  "harvest_autocrypt ev mail t =
     (case read_autocrypt ev mail of
        None \<Rightarrow> t
      | Some (addr, key, fp) \<Rightarrow> Contacts.store_autocrypt (now_unix ev) addr key fp t)"

text \<open>One turn of the loop over the fetched bodies.\<close>

definition store_body ::
  "env \<Rightarrow> string \<Rightarrow> int \<Rightarrow> int \<times> string \<Rightarrow> sync_state \<Rightarrow> (sync_state \<times> (sync_error + unit)) option" where
  "store_body ev f uv body s =
     (let (u, mail) = body;
          path = write_maildir_path (root_dir ev) f (now_secs ev) (pid ev) (counter s) (host ev)
                   (backslash # ''Seen'');
          s1 = s\<lparr>maildir := (path, mail) # maildir s, counter := counter s + 1\<rparr>
      in case index_in_store (parse_mail ev) f u uv mail (store s1) of
           None \<Rightarrow> None
         | Some (d, Inl e) \<Rightarrow> Some (s1\<lparr>store := d\<rparr>, Inl (Store_Error e))
         | Some (d, Inr _) \<Rightarrow>
             Some (s1\<lparr>store := set_maildir_path f u uv path d,
                      contacts := map_option (harvest_autocrypt ev mail) (contacts s1)\<rparr>, Inr ()))"

fun store_bodies ::
  "env \<Rightarrow> string \<Rightarrow> int \<Rightarrow> (int \<times> string) list \<Rightarrow> sync_state \<Rightarrow> (sync_state \<times> (sync_error + unit)) option"
where
  "store_bodies ev f uv [] s = Some (s, Inr ())"
| "store_bodies ev f uv (b # bs) s =
     (case store_body ev f uv b s of
        None \<Rightarrow> None
      | Some (s', Inl e) \<Rightarrow> Some (s', Inl e)
      | Some (s', Inr _) \<Rightarrow> store_bodies ev f uv bs s')"

section \<open>sync\_once\<close>

definition canonical_folder_name :: "folder_info list \<Rightarrow> string \<Rightarrow> string" where
  "canonical_folder_name fs configured =
     (case List.find (\<lambda>c. eq_ignore_ascii_case (i_name c) configured) fs of
        Some c \<Rightarrow> i_name c | None \<Rightarrow> configured)"

definition folder_row_of :: "folder_info \<Rightarrow> folder_row" where
  "folder_row_of i =
     (blank_folder (i_name i))
       \<lparr>delim := i_delim i, special_use := i_special_use i,
        attrs := (if i_attrs i = [] then None else Some (join '','' (i_attrs i)))\<rparr>"

text \<open>The bodies that are still missing, when the caller wants bodies.\<close>

definition fetch_pending ::
  "env \<Rightarrow> provider \<Rightarrow> string \<Rightarrow> int \<Rightarrow> bool \<Rightarrow> nat \<Rightarrow> sync_state \<Rightarrow> (sync_state \<times> (sync_error + unit)) option"
where
  "fetch_pending ev p f uv fetch_bodies limit s =
     (if \<not> fetch_bodies then Some (s, Inr ())
      else case list_unfetched f limit (store s) of
             [] \<Rightarrow> Some (s, Inr ())
           | us \<Rightarrow>
               (case fetch_bodies_of p f us of
                  Inl e \<Rightarrow> Some (s, Inl (Provider_Error e))
                | Inr bodies \<Rightarrow> store_bodies ev f uv bodies s))"

text \<open>
  \<open>None\<close> is a cycle that does not return; the number of a successful one is that of the
  new messages. Logging out and the desktop notification change nothing here.
\<close>

definition sync_once ::
  "env \<Rightarrow> provider \<Rightarrow> string \<Rightarrow> bool \<Rightarrow> nat \<Rightarrow> sync_state \<Rightarrow> (sync_state \<times> (sync_error + nat)) option"
where
  "sync_once ev p configured fetch_bodies limit s =
     (let s1 = s\<lparr>store := drain_outbox (send_mail ev) (now_unix ev) (store s)\<rparr> in
      case list_folders_of p of
        Inl e \<Rightarrow> Some (s1, Inl (Provider_Error e))
      | Inr fs \<Rightarrow>
          let f = canonical_folder_name fs configured;
              (d2, g) = reserve_snapshot_generation f
                          (reconcile_folders (map folder_row_of fs) (store s1));
              s2 = s1\<lparr>store := d2\<rparr>
          in (case fetch_headers_of p f of
                Inl e \<Rightarrow> Some (s2, Inl (Provider_Error e))
              | Inr snap \<Rightarrow>
                  (case sync_apply_snapshot (now_unix ev) f g snap d2 of
                     (d3, Inl e) \<Rightarrow> Some (s2\<lparr>store := d3\<rparr>, Inl e)
                   | (d3, Inr (False, rows)) \<Rightarrow> Some (s2\<lparr>store := d3\<rparr>, Inr 0)
                   | (d3, Inr (True, rows)) \<Rightarrow>
                       (case fetch_pending ev p f (transport_uidvalidity (s_transport snap))
                               fetch_bodies limit (s2\<lparr>store := d3\<rparr>) of
                          None \<Rightarrow> None
                        | Some (s4, Inl e) \<Rightarrow> Some (s4, Inl e)
                        | Some (s4, Inr _) \<Rightarrow> Some (s4, Inr (length rows))))))"

section \<open>One turn of the account loop\<close>

definition selectable :: "folder_row \<Rightarrow> bool" where
  "selectable r = (case attrs r of None \<Rightarrow> True | Some a \<Rightarrow> \<not> contains a (backslash # ''Noselect''))"

text \<open>A folder that fails is skipped; a folder that succeeds is announced with its count.\<close>

fun sync_folders ::
  "(string \<Rightarrow> sync_state \<Rightarrow> (sync_state \<times> (sync_error + nat)) option) \<Rightarrow> string list \<Rightarrow> sync_state \<Rightarrow>
   (sync_state \<times> (string \<times> nat) list) option" where
  "sync_folders sync [] s = Some (s, [])"
| "sync_folders sync (f # fs) s =
     (case sync f s of
        None \<Rightarrow> None
      | Some (s', r) \<Rightarrow>
          (case sync_folders sync fs s' of
             None \<Rightarrow> None
           | Some (s'', evs) \<Rightarrow>
               Some (s'', (case r of Inl _ \<Rightarrow> evs | Inr n \<Rightarrow> (f, n) # evs))))"

definition sync_cycle ::
  "(string \<Rightarrow> sync_state \<Rightarrow> (sync_state \<times> (sync_error + nat)) option) \<Rightarrow> string \<Rightarrow> string list \<Rightarrow>
   sync_state \<Rightarrow> (sync_state \<times> (string \<times> nat) list) option" where
  "sync_cycle sync idle static s =
     (if static \<noteq> [] then sync_folders sync static s
      else case sync idle s of
             None \<Rightarrow> None
           | Some (s', Inl e) \<Rightarrow> Some (s', [])
           | Some (s', Inr n) \<Rightarrow>
               (case sync_folders sync
                       (filter (\<lambda>f. f \<noteq> idle) (map fname (filter selectable (list_folders (store s'))))) s' of
                  None \<Rightarrow> None
                | Some (s'', evs) \<Rightarrow> Some (s'', (idle, n) # evs)))"

section \<open>The desktop notification\<close>

definition notification :: "string \<Rightarrow> header_row list \<Rightarrow> string \<times> string" where
  "notification account rows =
     (show_nat (length rows) @ '' new in '' @ account,
      join [CHR 0x0A] (map (\<lambda>h. (case n_from_addr h of Some a \<Rightarrow> a | None \<Rightarrow> []) @
          map char_of [0x20, 0xE2, 0x80, 0x94, 0x20 :: nat] @
          (case n_subject h of Some x \<Rightarrow> x | None \<Rightarrow> [])) (take 5 rows)))"

end
