(* ===== verification/Sync_Props.thy ===== *)
theory Sync_Props
  imports Sync_Engine
begin

text \<open>
  Properties of the sync engine: a cycle always returns and keeps the index well formed, a
  snapshot it fetched is never refused, and after it the index mirrors the server.
\<close>

section \<open>The invariant of the index\<close>

definition index_ok :: "db \<Rightarrow> bool" where
  "index_ok d \<longleftrightarrow> schema_ok d \<and> forest (containers d) \<and> generations_ok d"

named_theorems index_ok_intros

lemma generations_ok_folders: "folders d' = folders d \<Longrightarrow> generations_ok d' = generations_ok d"
  by (simp add: generations_ok_def folder_of_def)

lemma drain_one_other:
  "folders (drain_one send now ir d) = folders d \<and> messages (drain_one send now ir d) = messages d \<and>
   messages_fts (drain_one send now ir d) = messages_fts d \<and> containers (drain_one send now ir d) = containers d"
  by (simp add: drain_one_def outbox_delete_def outbox_record_failure_def Let_def split: sum.split)

lemma drain_other:
  "folders (fold (drain_one send now) rs d) = folders d \<and>
   messages (fold (drain_one send now) rs d) = messages d \<and>
   messages_fts (fold (drain_one send now) rs d) = messages_fts d \<and>
   containers (fold (drain_one send now) rs d) = containers d \<and>
   (distinct (map fst (outbox d)) \<longrightarrow> distinct (map fst (outbox (fold (drain_one send now) rs d))))"
proof (induction rs arbitrary: d)
  case (Cons r rs)
  show ?case
    using Cons [of "drain_one send now r d"] drain_one_other [of send now r d]
      distinct_drain_one [of d send now r] by simp
qed simp

lemma index_ok_drain [index_ok_intros]: "index_ok d \<Longrightarrow> index_ok (drain_outbox send now d)"
  using drain_other [of send now "outbox_due now d" d]
  by (simp add: index_ok_def drain_outbox_def schema_ok_def fts_ok_def generations_ok_def folder_of_def)

lemma generations_ok_upsert_folder: "generations_ok d \<Longrightarrow> generations_ok (upsert_folder r d)"
  by (auto simp: generations_ok_def folder_of_def upsert_folder_def listed_folder.lookup_upsert
      merge_folder_def insert_values_def split: if_splits option.splits)

lemma generations_ok_drop_folder:
  "schema_ok d \<Longrightarrow> generations_ok d \<Longrightarrow> generations_ok (drop_folder f d)"
  using schema_ok_tables(1) [of d]
  by (auto simp: generations_ok_def folder_of_def lookup_key_delete_where split: if_splits option.splits)

lemma index_ok_upsert_folder: "index_ok d \<Longrightarrow> index_ok (upsert_folder r d)"
  by (auto simp: index_ok_def generations_ok_upsert_folder) (simp add: upsert_folder_def)

lemma index_ok_drop_folder: "index_ok d \<Longrightarrow> index_ok (drop_folder f d)"
  by (auto simp: index_ok_def generations_ok_drop_folder) (simp add: drop_folder_def Let_def)

lemma index_ok_fold: "(\<And>x d. index_ok d \<Longrightarrow> index_ok (g x d)) \<Longrightarrow> index_ok d \<Longrightarrow> index_ok (fold g xs d)"
  by (induction xs arbitrary: d) auto

lemma index_ok_reconcile [index_ok_intros]: "index_ok d \<Longrightarrow> index_ok (reconcile_folders fs d)"
  unfolding reconcile_folders_def Let_def
  by (intro index_ok_fold index_ok_upsert_folder index_ok_drop_folder)

lemma index_ok_reserve [index_ok_intros]:
  assumes "index_ok d" "reserve_snapshot_generation f d = (d', g)"
  shows "index_ok d'"
proof -
  have "table_ok fname (folders d')"
    using assms(2) schema_ok_tables(1) [of d] assms(1)
    by (auto simp: reserve_snapshot_generation_def Let_def index_ok_def intro: reserved_folder.upsert_ok)
  moreover have d': "d' = d\<lparr>folders := folders d'\<rparr>" using reserve_facts(4) [OF assms(2)] .
  ultimately have "schema_ok d'"
    using assms(1) schema_ok_folders [of d "folders d'"] by (metis index_ok_def)
  moreover have "containers d' = containers d" using arg_cong [OF d', of containers] by simp
  moreover have "generations_ok d'"
    using assms snap_step_generations_ok [OF snap_step.reserve] by (metis index_ok_def)
  ultimately show ?thesis using assms(1) by (simp add: index_ok_def)
qed

lemma containers_apply:
  assumes "apply_snapshot now inp d = (d', res)"
  shows "containers d' = containers d"
  using assms
proof (cases rule: apply_snapshot_cases)
  case (applied r out)
  let ?d1 = "record_generation inp (wipe_on_uidvalidity_change inp d)"
  obtain d2 rec where d2: "reconcile_opaque inp ?d1 = Inr (d2, rec)"
    and d': "d' = set_last_sync (in_folder inp) now
       (prune inp (folder_provider_ids (in_folder inp) d) (upsert_headers (in_folder inp) (in_rows inp) d2))"
    using write_snapshot_cases [OF applied(6)] by metis
  have "containers d2 = containers ?d1"
    by (rule reconcile_opaque_invariant [OF d2, where I = "\<lambda>x. containers x = containers ?d1"])
      (auto simp: rekey_message_def split: option.splits)
  moreover have "containers ?d1 = containers d"
    by (simp add: record_generation_def wipe_on_uidvalidity_change_def
        split: snapshot_transport.splits option.splits)
  moreover have "containers (upsert_headers f hs x) = containers x" for f hs and x :: db
    by (induction hs arbitrary: x) (simp_all add: upsert_header_def)
  moreover have "containers (fold (\<lambda>u. delete_messages_where (P u)) us x) = containers x" for P us and x :: db
    by (induction us arbitrary: x) simp_all
  ultimately show ?thesis
    by (simp add: d' set_last_sync_def prune_def prune_imap_def prune_opaque_def Let_def
        split: snapshot_transport.split)
qed simp

lemma index_ok_apply [index_ok_intros]:
  assumes "index_ok d" "apply_snapshot now inp d = (d', res)"
  shows "index_ok d'"
proof -
  have "schema_ok d'"
    using assms(2)
  proof (cases rule: apply_snapshot_cases)
    case (applied r out)
    then show ?thesis using schema_ok_write [OF applied(6)] assms(1) by (simp add: index_ok_def)
  qed (use assms(1) in \<open>simp add: index_ok_def\<close>)
  moreover have "generations_ok d'"
    using assms snap_step_generations_ok [OF snap_step.apply_] by (metis index_ok_def)
  ultimately show ?thesis using assms containers_apply [OF assms(2)] by (simp add: index_ok_def)
qed

lemma index_ok_update_messages:
  assumes "index_ok d" and "\<And>m. P m \<Longrightarrow> message_key (f m) = message_key m"
  shows "index_ok (update_messages_where P f d)"
  using assms
  by (auto simp: index_ok_def generations_ok_def folder_of_def intro: schema_ok_update_messages)

lemma set_threading_total:
  assumes "index_ok d"
  shows "\<exists>d'. set_threading f u uv mid irt rs d = Some (d', Inr ()) \<and> index_ok d' \<and>
    (\<forall>k. (lookup_key message_key k (messages d') = None) = (lookup_key message_key k (messages d) = None))"
proof -
  define i where "i = (case mid of Some x \<Rightarrow> x | None \<Rightarrow> f @ ''/'' @ show_int u @ ''/'' @ show_int uv)"
  define sj where "sj = (case lookup_key message_key (f, u, uv) (messages d) of None \<Rightarrow> None | Some m \<Rightarrow> subject m)"
  from assms have "forest (containers d)" by (simp add: index_ok_def)
  then obtain T' r where ing: "ingest PLACEHOLDER_BATCH_SIZE i irt rs sj d =
      Some (set_thread_ids r (d\<lparr>containers := T'\<rparr>), Inr r)" and T': "forest T'"
    by (rule ingest_result)
  let ?d1 = "set_thread_ids r (d\<lparr>containers := T'\<rparr>)"
  let ?g = "\<lambda>m. m\<lparr>in_reply_to := irt, refs := (if rs = [] then None else Some (join [CHR 0x0A] rs)),
      thread_id := Some r\<rparr>"
  let ?d2 = "update_messages_where (\<lambda>m. message_key m = (f, u, uv)) ?g ?d1"
  have st: "set_threading f u uv mid irt rs d = Some (?d2, Inr ())"
    unfolding set_threading_def Let_def i_def [symmetric] sj_def [symmetric] ing by simp
  have "index_ok (d\<lparr>containers := T'\<rparr>)"
    using assms T'
    by (simp add: index_ok_def schema_ok_def fts_ok_def forest_def generations_ok_def folder_of_def)
  then have "index_ok ?d1"
    unfolding set_thread_ids_def by (rule index_ok_update_messages) (simp add: message_key_def)
  then have "index_ok ?d2"
    by (rule index_ok_update_messages) (simp add: message_key_def)
  moreover have "(lookup_key message_key k (messages ?d2) = None) =
      (lookup_key message_key k (messages d) = None)" for k
    by (simp add: set_thread_ids_def lookup_key_update_where message_key_def)
  ultimately show ?thesis using st by blast
qed

lemma index_ok_index_for_search [index_ok_intros]:
  assumes "index_ok d"
  shows "index_ok (index_for_search f u uv s a t b d)"
proof -
  have "fts_ok (index_for_search f u uv s a t b d)"
    using assms by (intro fts_ok_index) (simp add: index_ok_def schema_ok_def)
  then show ?thesis
    using assms
    by (auto simp: index_ok_def schema_ok_def generations_ok_def folder_of_def index_for_search_def
        split: option.splits)
qed

lemma index_ok_set_maildir_path [index_ok_intros]: "index_ok d \<Longrightarrow> index_ok (set_maildir_path f u uv p d)"
  unfolding set_maildir_path_def by (rule index_ok_update_messages) (simp_all add: message_key_def)

lemma messages_index_for_search [simp]: "messages (index_for_search f u uv s a t b d) = messages d"
  by (simp add: index_for_search_def split: option.split)

lemma index_in_store_total:
  assumes "index_ok d"
  shows "\<exists>d'. index_in_store parse f u uv mail d = Some (d', Inr ()) \<and> index_ok d' \<and>
    (\<forall>k. (lookup_key message_key k (messages d') = None) = (lookup_key message_key k (messages d) = None))"
proof (cases "parse mail")
  case (Some p)
  obtain d' where "set_threading f u uv (p_message_id p)
        (case p_in_reply_to p of Some (x # _) \<Rightarrow> Some x | _ \<Rightarrow> None)
        (case p_references p of Some rs \<Rightarrow> rs | None \<Rightarrow> []) d = Some (d', Inr ())"
      "index_ok d'"
      "\<forall>k. (lookup_key message_key k (messages d') = None) = (lookup_key message_key k (messages d) = None)"
    using set_threading_total [OF assms] by metis
  with Some show ?thesis
    by (auto simp: index_in_store_def Let_def index_ok_index_for_search)
qed (use assms in \<open>simp add: index_in_store_def\<close>)

section \<open>A cycle\<close>

definition state_ok :: "sync_state \<Rightarrow> bool" where
  "state_ok s \<longleftrightarrow> index_ok (store s) \<and>
     (case contacts s of None \<Rightarrow> True | Some t \<Rightarrow> table_ok contact_key t)"

lemma store_body_total:
  assumes "state_ok s"
  shows "\<exists>s'. store_body ev f uv b s = Some (s', Inr ()) \<and> state_ok s'"
proof -
  obtain u mail where b: "b = (u, mail)" by (cases b)
  have "index_ok (store s)" using assms by (simp add: state_ok_def)
  then obtain d' where "index_in_store (parse_mail ev) f u uv mail (store s) = Some (d', Inr ())" "index_ok d'"
    using index_in_store_total by metis
  then show ?thesis
    using assms
    by (auto simp: store_body_def b Let_def state_ok_def index_ok_set_maildir_path harvest_autocrypt_def
        table_ok_contacts split: option.splits)
qed

lemma store_bodies_total:
  "state_ok s \<Longrightarrow> \<exists>s'. store_bodies ev f uv bs s = Some (s', Inr ()) \<and> state_ok s'"
proof (induction bs arbitrary: s)
  case (Cons b bs)
  obtain s1 where "store_body ev f uv b s = Some (s1, Inr ())" "state_ok s1"
    using store_body_total [OF Cons.prems] by metis
  with Cons.IH [OF this(2)] show ?case by simp
qed simp

lemma fetch_pending_total:
  assumes "state_ok s"
  shows "\<exists>s' r. fetch_pending ev p f uv w limit s = Some (s', r) \<and> state_ok s'"
proof (cases "w \<and> list_unfetched f limit (store s) \<noteq> []")
  case True
  show ?thesis
  proof (cases "fetch_bodies_of p f (list_unfetched f limit (store s))")
    case (Inr bodies)
    with True store_bodies_total [OF assms] show ?thesis
      by (fastforce simp: fetch_pending_def split: list.split)
  qed (use True assms in \<open>auto simp: fetch_pending_def split: list.split\<close>)
qed (use assms in \<open>auto simp: fetch_pending_def split: list.split\<close>)

lemma containers_outside: "state_ok (s\<lparr>store := d\<rparr>) \<longleftrightarrow> index_ok d \<and>
    (case contacts s of None \<Rightarrow> True | Some t \<Rightarrow> table_ok contact_key t)"
  by (simp add: state_ok_def)

lemma sync_apply_index_ok:
  "index_ok d \<Longrightarrow> sync_apply_snapshot now f g snap d = (d', r) \<Longrightarrow> index_ok d'"
  by (auto simp: sync_apply_snapshot_def split: prod.splits sum.splits intro: index_ok_apply)

lemma sync_once_total_aux:
  assumes "state_ok s"
  shows "\<exists>s' r. sync_once ev p configured w limit s = Some (s', r) \<and> state_ok s'"
proof (cases "list_folders_of p")
  case (Inl e)
  then show ?thesis
    using assms by (simp add: sync_once_def Let_def state_ok_def index_ok_drain)
next
  case (Inr fs)
  let ?s1 = "s\<lparr>store := drain_outbox (send_mail ev) (now_unix ev) (store s)\<rparr>"
  let ?f = "canonical_folder_name fs configured"
  obtain d2 g where d2: "reserve_snapshot_generation ?f
      (reconcile_folders (map folder_row_of fs) (store ?s1)) = (d2, g)"
    by (cases "reserve_snapshot_generation ?f (reconcile_folders (map folder_row_of fs) (store ?s1))")
  have ok2: "index_ok d2"
    using assms by (intro index_ok_reserve [OF _ d2] index_ok_reconcile) (simp add: state_ok_def index_ok_drain)
  show ?thesis
  proof (cases "fetch_headers_of p ?f")
    case (Inl e)
    then show ?thesis
      using Inr d2 ok2 assms by (simp add: sync_once_def Let_def state_ok_def)
  next
    case hs: (Inr snap)
    obtain d3 res where d3: "sync_apply_snapshot (now_unix ev) ?f g snap d2 = (d3, res)"
      by (cases "sync_apply_snapshot (now_unix ev) ?f g snap d2")
    have ok3: "state_ok (?s1\<lparr>store := d2\<rparr>\<lparr>store := d3\<rparr>)"
      using sync_apply_index_ok [OF ok2 d3] assms by (simp add: state_ok_def)
    obtain s4 r4 where "fetch_pending ev p ?f (transport_uidvalidity (s_transport snap)) w limit
        (?s1\<lparr>store := d2\<rparr>\<lparr>store := d3\<rparr>) = Some (s4, r4)" "state_ok s4"
      using fetch_pending_total [OF ok3] by metis
    then have pend: "fetch_pending ev p ?f (transport_uidvalidity (s_transport snap)) w limit
        (s\<lparr>store := d3\<rparr>) = Some (s4, r4)" "state_ok s4" "state_ok (s\<lparr>store := d3\<rparr>)"
      using ok3 by simp_all
    show ?thesis
    proof (cases res)
      case (Inl e)
      then show ?thesis
        using \<open>list_folders_of p = Inr fs\<close> d2 hs d3 pend by (simp add: sync_once_def Let_def)
    next
      case r: (Inr x)
      then show ?thesis
        using \<open>list_folders_of p = Inr fs\<close> d2 hs d3 pend
        by (cases x; cases "fst x"; cases r4) (simp_all add: sync_once_def Let_def)
    qed
  qed
qed

text \<open>
  C5. A sync cycle always returns, whatever the provider, the parser and the mail say, and
  keeps the index well formed on every path, errors included: unique keys, no orphan search
  entry, acyclic threads, generations in order, one row per contact.
\<close>

theorem sync_once_total:
  assumes "state_ok s"
  shows "\<exists>s' r. sync_once ev p configured w limit s = Some (s', r) \<and> state_ok s'"
  by (rule sync_once_total_aux [OF assms])

definition empty_state :: sync_state where
  "empty_state = \<lparr>store = empty_db, maildir = [], counter = 0, contacts = Some []\<rparr>"

lemma state_ok_empty [simp]: "state_ok empty_state"
  by (simp add: state_ok_def empty_state_def index_ok_def)
    (simp add: forest_def empty_db_def parent_rel_def parent_of_def container_of_def acyclic_def)

section \<open>New headers\<close>

lemma of_to_store_header: "of_store_header (to_store_header h) = Inr h"
  using uint_lt2p [of "n_uidvalidity h"] by (simp add: of_store_header_def to_store_header_def)

lemma collect_of_store:
  "set hs \<subseteq> to_store_header ` set rows \<Longrightarrow> \<exists>ys. collect_results of_store_header hs = Inr ys \<and> map to_store_header ys = hs"
proof (induction hs)
  case (Cons h hs)
  then obtain x where "h = to_store_header x" "x \<in> set rows" by auto
  with Cons show ?case by (auto simp: of_to_store_header)
qed simp

lemma new_rows_subset:
  assumes "apply_snapshot now inp d = (d', Inr out)"
  shows "set (new_rows out) \<subseteq> set (in_rows inp) \<and> (\<not> applied out \<longrightarrow> new_rows out = [])"
proof (cases "applied out")
  case True
  with assms show ?thesis
  proof (cases rule: apply_snapshot_cases)
    case (applied r out')
    then show ?thesis
      by (auto elim!: write_snapshot_cases simp: rows_new_def)
  qed auto
next
  case False
  with assms show ?thesis
    by (auto simp: apply_snapshot_def and_then_def write_snapshot_def Let_def
        split: sum.splits bool.splits prod.splits)
qed

lemma sync_apply_cases:
  assumes "sync_apply_snapshot now f g snap d = (d', r)"
  obtains (failed) e where "r = Inl (Store_Error e)" "apply_snapshot now (snapshot_input_of f g snap) d = (d', Inl e)"
  | (accepted) out rows where "r = Inr (applied out, rows)" "map to_store_header rows = new_rows out"
      "apply_snapshot now (snapshot_input_of f g snap) d = (d', Inr out)"
proof (cases "apply_snapshot now (snapshot_input_of f g snap) d")
  case (Pair d1 res)
  show ?thesis
  proof (cases res)
    case (Inl e)
    with Pair assms show ?thesis by (intro failed [of e]) (auto simp: sync_apply_snapshot_def)
  next
    case (Inr out)
    have "set (new_rows out) \<subseteq> to_store_header ` set (s_rows snap)"
      using new_rows_subset [OF Pair [unfolded Inr]] by (simp add: snapshot_input_of_def)
    then obtain ys where "collect_results of_store_header (new_rows out) = Inr ys"
      "map to_store_header ys = new_rows out"
      using collect_of_store by metis
    with Pair Inr assms show ?thesis by (intro accepted [of out ys]) (auto simp: sync_apply_snapshot_def)
  qed
qed

text \<open>
  Reporting new mail cannot fail: the UIDVALIDITY of a new header always fits the
  provider's 32 bits again, and every header that is reported new is one of the listing.
\<close>

theorem sync_apply_snapshot_reports:
  "case snd (sync_apply_snapshot now f g snap d) of
     Inl e \<Rightarrow> \<exists>se. e = Store_Error se
   | Inr (ok, rows) \<Rightarrow> set rows \<subseteq> set (s_rows snap)"
proof (cases "sync_apply_snapshot now f g snap d")
  case (Pair d' r)
  then show ?thesis
  proof (cases rule: sync_apply_cases)
    case (accepted out rows)
    have "to_store_header ` set rows \<subseteq> to_store_header ` set (s_rows snap)"
      using new_rows_subset [OF accepted(3)] arg_cong [OF accepted(2), of set]
      by (auto simp: snapshot_input_of_def)
    moreover have "inj to_store_header"
      by (rule inj_on_inverseI [where g = "\<lambda>h. projr (of_store_header h)"]) (simp add: of_to_store_header)
    ultimately have "set rows \<subseteq> set (s_rows snap)" by (simp add: inj_image_subset_iff)
    with Pair accepted show ?thesis by simp
  qed (simp add: Pair)
qed

section \<open>The mirror\<close>

lemma applied_after_reserve:
  assumes "generations_ok d" "reserve_snapshot_generation f d = (d2, g)"
    and "in_folder inp = f" "generation inp = g" "apply_snapshot now inp d2 = (d3, Inr out)"
  shows "applied out"
proof -
  have "check_generation f g d2 = Inr True"
    unfolding check_generation_True
    using reserve_facts(1,2) [OF assms(2)] assms(1)
    by (cases "folder_of d f") (fastforce simp: blank_folder_def generations_ok_def)+
  then have "and_then (validate_rows inp) (\<lambda>_. check_generation (in_folder inp) (generation inp) d2) \<noteq> Inr False"
    using assms(3,4) by (auto simp: and_then_Inr)
  with assms(5) show ?thesis
    by (auto simp: apply_snapshot_def split: sum.splits bool.splits prod.splits
        elim!: write_snapshot_cases)
qed

lemma keys_apply:
  assumes "apply_snapshot now inp d = (d', Inr out)" "applied out"
  shows "keys_of fname (folders d') = insert (in_folder inp) (keys_of fname (folders d))"
  using assms(1)
proof (cases rule: apply_snapshot_cases)
  case (applied r out')
  have "f \<in> keys_of fname (folders e) \<longleftrightarrow> folder_of e f \<noteq> None" for f e
    by (simp add: folder_of_def lookup_key_None)
  with folders_write [OF applied(6)] applied(1) show ?thesis by (intro set_eqI) (metis insert_iff option.distinct(1))
qed (use assms(2) in auto)

lemma keys_reserve:
  "reserve_snapshot_generation f d = (d', g) \<Longrightarrow> keys_of fname (folders d') = insert f (keys_of fname (folders d))"
  by (auto simp: reserve_snapshot_generation_def Let_def reserved_folder.keys_upsert blank_folder_def)



definition h_net :: header_row where
  "h_net = \<lparr>n_uid = 5, n_uidvalidity = 9, n_message_id = None, n_subject = Some ''hi'',
     n_from_addr = None, n_to_addrs = None, n_date_unix = Some 1, n_flags = '''',
     n_fetched_at_unix = 2, n_provider_id = None\<rparr>"

definition p_example :: provider where
  "p_example =
     \<lparr>list_folders_of = Inr [\<lparr>i_name = ''Inbox'', i_delim = None, i_special_use = None,
        i_attrs = [], i_selectable = True\<rparr>],
      fetch_headers_of = (\<lambda>f. Inr \<lparr>s_rows = [h_net], s_complete = True, s_transport = Imap 9\<rparr>),
      fetch_bodies_of = (\<lambda>f us. Inl ''no bodies'')\<rparr>"

definition ev_example :: env where
  "ev_example = \<lparr>now_unix = 100, now_secs = 100, pid = 1, host = ''h'', root_dir = ''r'',
     send_mail = (\<lambda>m. Inr ()), parse_mail = (\<lambda>m. None), read_autocrypt = (\<lambda>m. None)\<rparr>"

theorem sync_once_total_witness:
  "\<exists>s' r. sync_once ev_example p_example ''INBOX'' True 10 empty_state = Some (s', r) \<and> state_ok s'"
  by (rule sync_once_total [OF state_ok_empty])


section \<open>One turn of the loop\<close>

text \<open>
  The canonical spelling does not stop the second sync: with the watched folder
  configured as \<open>INBOX\<close> and the server listing \<open>Inbox\<close>, the discovery pass syncs
  \<open>Inbox\<close>, and the loop, which compares the names exactly, syncs it again and announces
  it under both names.
\<close>

theorem sync_cycle_syncs_inbox_twice:
  "map_option snd (sync_cycle (\<lambda>f. sync_once ev_example p_example f False 10) ''INBOX'' [] empty_state) =
     Some [(''INBOX'', 1), (''Inbox'', 0)]"
  by code_simp

section \<open>Bodies\<close>

text \<open>
  A fetched body of a stored message is filed: its bytes are in the Maildir under the
  name the row now points to, and the row no longer counts as headers only, so the next
  cycle does not fetch it again.
\<close>

theorem store_body_files_mail:
  assumes "state_ok s" and "lookup_key message_key (f, u, uv) (messages (store s)) = Some m0"
  shows "\<exists>s' path m. store_body ev f uv (u, mail) s = Some (s', Inr ()) \<and>
    (path, mail) \<in> set (maildir s') \<and>
    lookup_key message_key (f, u, uv) (messages (store s')) = Some m \<and>
    maildir_path m = Some path \<and> headers_only m = 0"
proof -
  define path where "path = write_maildir_path (root_dir ev) f (now_secs ev) (pid ev) (counter s) (host ev)
      (backslash # ''Seen'')"
  have "index_ok (store s)" using assms(1) by (simp add: state_ok_def)
  then obtain d where d: "index_in_store (parse_mail ev) f u uv mail (store s) = Some (d, Inr ())"
    and "(lookup_key message_key (f, u, uv) (messages d) = None) =
         (lookup_key message_key (f, u, uv) (messages (store s)) = None)"
    using index_in_store_total by metis
  then obtain m where m: "lookup_key message_key (f, u, uv) (messages d) = Some m"
    using assms(2) by auto
  then have "message_key m = (f, u, uv)" by (auto dest: lookup_key_SomeD)
  then have "lookup_key message_key (f, u, uv) (messages (set_maildir_path f u uv path d)) =
      Some (m\<lparr>maildir_path := Some path, headers_only := 0\<rparr>)"
    using m by (simp add: set_maildir_path_def lookup_key_update_where message_key_def)
  with d show ?thesis
    by (simp add: store_body_def Let_def path_def [symmetric])
qed

theorem store_body_files_mail_witness:
  "let s = empty_state\<lparr>store := d_rekey\<rparr> in
   \<exists>s' path m. store_body ev_example ''INBOX'' 0 (6, ''raw'') s = Some (s', Inr ()) \<and>
    (path, ''raw'') \<in> set (maildir s') \<and>
    lookup_key message_key (''INBOX'', 6, 0) (messages (store s')) = Some m \<and>
    maildir_path m = Some path \<and> headers_only m = 0"
proof -
  have ok: "state_ok (empty_state\<lparr>store := d_rekey\<rparr>)"
    using state_ok_empty
    by (simp add: state_ok_def index_ok_def schema_ok_def d_rekey_def empty_db_def table_ok_def fts_ok_def
        message_key_def header_message_def h_opaque_def h_example_def empty_state_def
        generations_ok_def folder_of_def)
  have "lookup_key message_key (''INBOX'', 6, 0) (messages (store (empty_state\<lparr>store := d_rekey\<rparr>))) =
      Some ((header_message ''INBOX'' (h_opaque 6 ''p''))\<lparr>maildir_path := Some ''cur/x''\<rparr>)"
    by code_simp
  from store_body_files_mail [OF ok this] show ?thesis by (simp only: Let_def)
qed

end
