(* ===== verification/Dav.thy ===== *)
theory Dav
  imports Contacts
begin

text \<open>
  The DAV helpers: the XML scraping of crates/inbx-dav/src/lib.rs and the vCards of
  crates/inbx-contacts/src/carddav.rs. HTTP exchanges are parameters: \<open>propfind url body
  depth\<close> is the text of the answer, or the error.
\<close>

section \<open>XML scraping\<close>

definition decode_xml_entities :: "string \<Rightarrow> string" where
  "decode_xml_entities s =
     replace_sub ''&amp;'' ''&''
       (replace_sub ''&apos;'' [CHR 0x27]
         (replace_sub ''&quot;'' [CHR 0x22]
           (replace_sub ''&gt;'' ''>'' (replace_sub ''&lt;'' ''<'' s))))"

text \<open>\<^verbatim>\<open>header.trim_start_matches('<').split(...).next()\<close>: up to white space or \<open>>\<close>.\<close>

fun tag_name :: "string \<Rightarrow> string" where
  "tag_name [] = []"
| "tag_name (c # s) = (if c = CHR ''>'' \<or> ws_at ws_seqs (c # s) \<noteq> 0 then [] else c # tag_name s)"

text \<open>
  The loop over \<^verbatim>\<open>cur\<close>, on the rest of the text. A tag that opens a \<open>response\<close> element
  takes everything up to its closing tag.
\<close>

function split_responses :: "string \<Rightarrow> string list" where
  "split_responses xml =
     (case find_sub ''<'' xml of
        None \<Rightarrow> []
      | Some i \<Rightarrow>
          let after = drop i xml in
          (case find_sub ''>'' after of
             None \<Rightarrow> []
           | Some e \<Rightarrow>
               let header = take (e + 1) after; rest = drop (e + 1) after in
               if contains header ''response'' \<and> \<not> contains header ''/>'' \<and> \<not> contains header ''</''
               then
                 let needle = ''</'' @ tag_name (trim_start_matches (\<lambda>c. c = CHR ''<'') header) @ ''>'' in
                 (case find_sub needle rest of
                    None \<Rightarrow> []
                  | Some j \<Rightarrow>
                      decode_xml_entities (header @ take (j + length needle) rest) #
                      split_responses (drop (j + length needle) rest))
               else split_responses rest))"
  by pat_completeness auto
termination
proof (relation "measure length", goal_cases)
  case 1
  show ?case by simp
next
  case (2 xml i after e header rest needle j)
  then have "i + 1 \<le> length xml" "e + 1 \<le> length after"
    using find_sub_bound [of "''<''" xml i] find_sub_bound [of "''>''" after e] by simp_all
  with 2 show ?case by simp
next
  case (3 xml i after e header rest)
  then have "i + 1 \<le> length xml" "e + 1 \<le> length after"
    using find_sub_bound [of "''<''" xml i] find_sub_bound [of "''>''" after e] by simp_all
  with 3 show ?case by simp
qed

declare split_responses.simps [simp del]

text \<open>
  \<open>extract_tag_text\<close>: the loop over \<^verbatim>\<open>cur\<close>. Lower-casing keeps byte positions, so the
  positions found in the lower-case copy are used in the text itself.
\<close>

function extract_tag_from :: "string \<Rightarrow> string \<Rightarrow> nat \<Rightarrow> string option" where
  "extract_tag_from xml tag cur =
     (let lower = to_ascii_lowercase xml; needle = tag @ ''>'' in
      case find_sub needle (drop cur lower) of
        None \<Rightarrow> None
      | Some off \<Rightarrow>
          let open_end = cur + off + length needle in
          if open_end < length needle + 1 then None
          else
            let preceding = lower ! (cur + off - 1) in
            if preceding \<noteq> CHR ''<'' \<and> preceding \<noteq> CHR '':''
            then extract_tag_from xml tag open_end
            else
              (case find_sub ''</'' (drop open_end lower) of
                 None \<Rightarrow> None
               | Some close \<Rightarrow>
                   Some (decode_xml_entities (trim (take close (drop open_end xml))))))"
  by pat_completeness auto
termination
proof (relation "measure (\<lambda>(xml, tag, cur). length xml - cur)", goal_cases)
  case (2 xml tag cur lower needle off open_end preceding)
  then have "off + length needle \<le> length xml - cur"
    by (auto dest!: find_sub_bound)
  with 2 show ?case by simp
qed simp

declare extract_tag_from.simps [simp del]

definition extract_tag_text :: "string \<Rightarrow> string \<Rightarrow> string option" where
  "extract_tag_text xml tag = extract_tag_from xml tag 0"

definition find_href_under :: "string \<Rightarrow> string \<Rightarrow> string option" where
  "find_href_under xml parent_tag =
     (let lower = to_ascii_lowercase xml; needle = to_ascii_lowercase parent_tag in
      case find_sub needle lower of
        None \<Rightarrow> None
      | Some start \<Rightarrow>
          let rest = drop start xml in
          (case find_sub (CHR ''/'' # needle) (drop start lower) of
             None \<Rightarrow> extract_tag_text rest ''href''
           | Some e \<Rightarrow> extract_tag_text (take e rest) ''href''))"

definition absolutize :: "string \<Rightarrow> string \<Rightarrow> string" where
  "absolutize base href =
     (if prefix ''http://'' href \<or> prefix ''https://'' href then href
      else case find_sub ''://'' base of
        None \<Rightarrow> href
      | Some scheme_end \<Rightarrow>
          let after = drop (scheme_end + 3) base;
              host_end = (case find_sub ''/'' after of
                            None \<Rightarrow> length base | Some i \<Rightarrow> scheme_end + 3 + i);
              host_part = take host_end base
          in if prefix ''/'' href then host_part @ href
             else trim_end_matches (\<lambda>c. c = CHR ''/'') base @ ''/'' @ href)"

section \<open>Discovery\<close>

text \<open>
  The three requests of \<^verbatim>\<open>carddav::discover\<close> and \<^verbatim>\<open>caldav::discover\<close>: the principal, its
  home set, then the members of the home of the wanted kind. \<open>kind\<close> is \<open>addressbook\<close> or
  \<open>calendar\<close>.
\<close>

definition propfind_extract ::
  "(string \<Rightarrow> string \<Rightarrow> string \<Rightarrow> string + string) \<Rightarrow> string \<Rightarrow> string \<Rightarrow> string \<Rightarrow> string + string option"
where
  "propfind_extract propfind url body parent_tag =
     (case propfind url body ''0'' of Inl e \<Rightarrow> Inl e | Inr xml \<Rightarrow> Inr (find_href_under xml parent_tag))"

definition discovered :: "string \<Rightarrow> string \<Rightarrow> string \<Rightarrow> (string \<times> string option) option" where
  "discovered kind home resp =
     (if \<not> contains resp (CHR ''<'' # kind) \<and> \<not> contains resp (CHR '':'' # kind) then None
      else case extract_tag_text resp ''href'' of
        None \<Rightarrow> None
      | Some href \<Rightarrow>
          let url = absolutize home href in
          if url = home then None else Some (url, extract_tag_text resp ''displayname''))"

fun filter_map :: "('a \<Rightarrow> 'b option) \<Rightarrow> 'a list \<Rightarrow> 'b list" where
  "filter_map f [] = []"
| "filter_map f (x # xs) = (case f x of None \<Rightarrow> filter_map f xs | Some y \<Rightarrow> y # filter_map f xs)"

definition discover ::
  "(string \<Rightarrow> string \<Rightarrow> string \<Rightarrow> string + string) \<Rightarrow> string \<Rightarrow> string \<Rightarrow> string \<Rightarrow> string \<Rightarrow> string \<Rightarrow>
   string + (string \<times> string option) list" where
  "discover propfind kind principal_body home_body members_body base =
     (case propfind_extract propfind base principal_body ''current-user-principal'' of
        Inl e \<Rightarrow> Inl e
      | Inr h \<Rightarrow>
          let principal = (case h of None \<Rightarrow> base | Some href \<Rightarrow> absolutize base href) in
          (case propfind_extract propfind principal home_body (kind @ ''-home-set'') of
             Inl e \<Rightarrow> Inl e
           | Inr h2 \<Rightarrow>
               let home = (case h2 of None \<Rightarrow> principal | Some href \<Rightarrow> absolutize principal href) in
               (case propfind home members_body ''1'' of
                  Inl e \<Rightarrow> Inl e
                | Inr xml \<Rightarrow> Inr (filter_map (discovered kind home) (split_responses xml)))))"

section \<open>vCards\<close>

text \<open>With no uid given the code makes one from the clock; \<open>fresh\<close> is that value.\<close>

definition build_vcard :: "string \<Rightarrow> string \<Rightarrow> string option \<Rightarrow> string option \<Rightarrow> string" where
  "build_vcard fresh e n u =
     (let uid = (case u of None \<Rightarrow> fresh | Some x \<Rightarrow> x);
          display = (case n of None \<Rightarrow> e | Some x \<Rightarrow> x)
      in ''BEGIN:VCARD'' @ crlf @ ''VERSION:3.0'' @ crlf @ ''FN:'' @ display @ crlf @
         ''EMAIL;TYPE=INTERNET:'' @ e @ crlf @ ''UID:'' @ uid @ crlf @ ''END:VCARD'' @ crlf)"

text \<open>\<open>extract_vcards\<close> and caldav's \<open>extract_calendar_data_blocks\<close> are this loop.\<close>

function extract_blocks :: "string \<Rightarrow> string \<Rightarrow> string list" where
  "extract_blocks kind xml =
     (case find_sub (''BEGIN:'' @ kind) xml of
        None \<Rightarrow> []
      | Some i \<Rightarrow>
          (case find_sub (''END:'' @ kind) (drop i xml) of
             None \<Rightarrow> []
           | Some j \<Rightarrow>
               let n = j + length (''END:'' @ kind) in
               decode_xml_entities (take n (drop i xml)) # extract_blocks kind (drop (i + n) xml)))"
  by pat_completeness auto
termination
proof (relation "measure (length \<circ> snd)", goal_cases)
  case (2 kind xml i j n)
  then have "i + length (''BEGIN:'' @ kind) \<le> length xml" by (auto dest: find_sub_bound)
  with 2 show ?case by simp
qed simp

declare extract_blocks.simps [simp del]

definition extract_vcards :: "string \<Rightarrow> string list" where
  "extract_vcards xml = extract_blocks ''VCARD'' xml"

definition parse_vcard_line :: "string option \<times> string list \<Rightarrow> string \<Rightarrow> string option \<times> string list" where
  "parse_vcard_line acc l =
     (let (fn, emails) = acc; line = trim l; upper = to_ascii_uppercase line in
      if prefix ''FN:'' upper then (Some (drop 3 line), emails)
      else if prefix ''EMAIL'' upper then
        (case find_idx (\<lambda>c. c = CHR '':'') line of
           None \<Rightarrow> (fn, emails)
         | Some i \<Rightarrow>
             let value = trim (drop (i + 1) line) in
             if value = [] then (fn, emails) else (fn, emails @ [value]))
      else (fn, emails))"

definition parse_vcard :: "string \<Rightarrow> string option \<times> string list" where
  "parse_vcard text = foldl parse_vcard_line (None, []) (lines text)"

definition import_vcard :: "int \<Rightarrow> string \<Rightarrow> contact table \<times> nat \<times> nat \<Rightarrow> contact table \<times> nat \<times> nat" where
  "import_vcard now vc s =
     (let (t, seen, imported) = s; (fn, emails) = parse_vcard vc
      in (fold (\<lambda>e. upsert_contact now e fn) emails t, seen + 1, imported + length emails))"

text \<open>\<^verbatim>\<open>carddav::sync\<close> after the REPORT: the contacts, and the numbers of its report.\<close>

definition carddav_sync :: "int \<Rightarrow> string + string \<Rightarrow> contact table \<Rightarrow> contact table \<times> (string + nat \<times> nat)" where
  "carddav_sync now answer t =
     (case answer of
        Inl e \<Rightarrow> (t, Inl e)
      | Inr body \<Rightarrow>
          let (t', seen, imported) = fold (import_vcard now) (extract_vcards body) (t, 0, 0)
          in (t', Inr (seen, imported)))"

text \<open>
  \<^verbatim>\<open>with_carddav\<close> and \<^verbatim>\<open>push_to_carddav\<close>: the resource and the card a write of a contact
  puts on the server. \<open>sha1_hex\<close> is the hexadecimal SHA-1 digest.
\<close>

definition carddav_url :: "string \<Rightarrow> string" where
  "carddav_url url = (if url \<noteq> [] \<and> last url = CHR ''/'' then url else url @ ''/'')"

definition stable_uid_for :: "(string \<Rightarrow> string) \<Rightarrow> string \<Rightarrow> string" where
  "stable_uid_for sha1_hex e = ''inbx-'' @ sha1_hex (to_ascii_lowercase e)"

definition push_to_carddav ::
  "(string \<Rightarrow> string) \<Rightarrow> string \<Rightarrow> string \<Rightarrow> string option \<Rightarrow> string \<times> string" where
  "push_to_carddav sha1_hex url e n =
     (let uid = stable_uid_for sha1_hex e
      in (carddav_url url @ uid @ ''.vcf'', build_vcard uid e n (Some uid)))"

section \<open>Properties\<close>

lemma to_ascii_uppercase_append [simp]:
  "to_ascii_uppercase (a @ b) = to_ascii_uppercase a @ to_ascii_uppercase b"
  by (simp add: to_ascii_uppercase_def)

lemma parse_vcard_line_other:
  assumes "trim l = l" and "\<not> prefix ''FN:'' (to_ascii_uppercase l)" and "\<not> prefix ''EMAIL'' (to_ascii_uppercase l)"
  shows "parse_vcard_line acc l = acc"
  using assms by (simp add: parse_vcard_line_def case_prod_beta)

lemma plain_literal:
  "\<forall>c \<in> set ''FN:''. plain_char c" "\<forall>c \<in> set ''UID:''. plain_char c"
  "\<forall>c \<in> set ''EMAIL;TYPE=INTERNET:''. plain_char c"
proof -
  have "list_all plain_char (''FN:'' @ ''UID:'' @ ''EMAIL;TYPE=INTERNET:'')" by code_simp
  then show "\<forall>c \<in> set ''FN:''. plain_char c" "\<forall>c \<in> set ''UID:''. plain_char c"
    "\<forall>c \<in> set ''EMAIL;TYPE=INTERNET:''. plain_char c"
    by (simp_all add: list_all_iff)
qed

lemma upper_literal:
  "to_ascii_uppercase (''FN:'' @ s) = ''FN:'' @ to_ascii_uppercase s"
  "to_ascii_uppercase (''UID:'' @ s) = ''UID:'' @ to_ascii_uppercase s"
  "to_ascii_uppercase (''EMAIL;TYPE=INTERNET:'' @ s) = ''EMAIL;TYPE=INTERNET:'' @ to_ascii_uppercase s"
proof -
  have "to_ascii_uppercase ''FN:'' = ''FN:''" "to_ascii_uppercase ''UID:'' = ''UID:''"
    "to_ascii_uppercase ''EMAIL;TYPE=INTERNET:'' = ''EMAIL;TYPE=INTERNET:''"
    by code_simp+
  then show "to_ascii_uppercase (''FN:'' @ s) = ''FN:'' @ to_ascii_uppercase s"
    "to_ascii_uppercase (''UID:'' @ s) = ''UID:'' @ to_ascii_uppercase s"
    "to_ascii_uppercase (''EMAIL;TYPE=INTERNET:'' @ s) = ''EMAIL;TYPE=INTERNET:'' @ to_ascii_uppercase s"
    by (simp_all only: to_ascii_uppercase_append)
qed

lemma parse_fn: "trimmed d \<Longrightarrow> parse_vcard_line (fn, es) (''FN:'' @ d) = (Some d, es)"
proof -
  assume "trimmed d"
  then have t: "trim (''FN:'' @ d) = ''FN:'' @ d"
    by (intro trim_plain_prefix [OF _ plain_literal(1)]) simp
  show ?thesis unfolding parse_vcard_line_def Let_def t upper_literal by simp
qed

lemma parse_uid: "trimmed u \<Longrightarrow> parse_vcard_line acc (''UID:'' @ u) = acc"
proof -
  assume "trimmed u"
  then have t: "trim (''UID:'' @ u) = ''UID:'' @ u"
    by (intro trim_plain_prefix [OF _ plain_literal(2)]) simp
  show ?thesis by (rule parse_vcard_line_other [OF t]; unfold upper_literal; simp)
qed

lemma parse_email:
  assumes "trimmed e" "e \<noteq> []"
  shows "parse_vcard_line (fn, es) (''EMAIL;TYPE=INTERNET:'' @ e) = (fn, es @ [e])"
proof -
  have t: "trim (''EMAIL;TYPE=INTERNET:'' @ e) = ''EMAIL;TYPE=INTERNET:'' @ e"
    by (rule trim_plain_prefix [OF _ plain_literal(3) assms(1)]) simp
  have f: "find_idx (\<lambda>c. c = CHR '':'') (''EMAIL;TYPE=INTERNET:'' @ e) = Some 19"
    by simp
  show ?thesis
    unfolding parse_vcard_line_def Let_def t upper_literal f
    using assms trim_id [OF assms(1)] by simp
qed

lemma vcard_frame:
  "parse_vcard_line acc ''BEGIN:VCARD'' = acc" "parse_vcard_line acc ''VERSION:3.0'' = acc"
  "parse_vcard_line acc ''END:VCARD'' = acc"
  by (rule parse_vcard_line_other; code_simp)+

lemma lines_build:
  assumes "CHR 0x0A \<notin> set d" "CHR 0x0A \<notin> set e" "CHR 0x0A \<notin> set u"
  shows "lines (''BEGIN:VCARD'' @ crlf @ ''VERSION:3.0'' @ crlf @ ''FN:'' @ d @ crlf @
         ''EMAIL;TYPE=INTERNET:'' @ e @ crlf @ ''UID:'' @ u @ crlf @ ''END:VCARD'' @ crlf) =
     [''BEGIN:VCARD'', ''VERSION:3.0'', ''FN:'' @ d, ''EMAIL;TYPE=INTERNET:'' @ e, ''UID:'' @ u, ''END:VCARD'']"
  using assms lines_crlf [of "''BEGIN:VCARD''"] lines_crlf [of "''VERSION:3.0''"]
    lines_crlf [of "''FN:'' @ d"] lines_crlf [of "''EMAIL;TYPE=INTERNET:'' @ e"]
    lines_crlf [of "''UID:'' @ u"] lines_crlf [of "''END:VCARD''" "[]"]
  by (simp add: crlf_def)

text \<open>
  A vCard the program writes is read back with its name and its address, when those are
  single lines without surrounding white space.
\<close>

theorem vcard_roundtrip:
  assumes "trimmed e" and "e \<noteq> []" and "trimmed d" and "trimmed u"
    and "CHR 0x0A \<notin> set (d @ e @ u)"
  shows "parse_vcard (build_vcard fresh e (Some d) (Some u)) = (Some d, [e])"
proof -
  have "build_vcard fresh e (Some d) (Some u) =
      ''BEGIN:VCARD'' @ crlf @ ''VERSION:3.0'' @ crlf @ ''FN:'' @ d @ crlf @
         ''EMAIL;TYPE=INTERNET:'' @ e @ crlf @ ''UID:'' @ u @ crlf @ ''END:VCARD'' @ crlf"
    by (simp only: build_vcard_def Let_def option.case)
  then have "parse_vcard (build_vcard fresh e (Some d) (Some u)) =
      foldl parse_vcard_line (None, [])
        [''BEGIN:VCARD'', ''VERSION:3.0'', ''FN:'' @ d, ''EMAIL;TYPE=INTERNET:'' @ e, ''UID:'' @ u, ''END:VCARD'']"
    using lines_build [of d e u] assms(5) by (simp only: parse_vcard_def) simp
  also have "\<dots> = (Some d, [e])"
    by (simp only: foldl_Cons foldl_Nil vcard_frame parse_fn [OF assms(3)]
        parse_email [OF assms(1,2)] parse_uid [OF assms(4)] append_Nil)
  finally show ?thesis .
qed

theorem vcard_roundtrip_witness:
  "parse_vcard (build_vcard ''x'' ''a@b'' (Some ''A B'') (Some ''u'')) = (Some ''A B'', [''a@b''])"
  by (rule vcard_roundtrip; code_simp)

text \<open>
  Nothing in a vCard is escaped: a display name with a line break puts a second address
  on the card, which a later import reads before the contact's own.
\<close>

theorem vcard_name_injection:
  "parse_vcard (build_vcard '''' ''a@x'' (Some (''A'' @ crlf @ ''EMAIL:evil@y'')) (Some ''u'')) =
     (Some ''A'', [''evil@y'', ''a@x''])"
  by code_simp

end
