(* ===== verification/Caldav.thy ===== *)
theory Caldav
  imports Dav
begin

text \<open>
  The incremental CalDAV pull (crates/inbx-ical/src/caldav.rs): the local index of events,
  its diff against the server's etags, and the sync that brings files and index up to date.
  The directory is an association list from file names to contents, newest first; the
  HTTP requests are parameters.
\<close>

section \<open>The index\<close>

record index_entry =
  href :: string
  entry_uid :: string
  etag :: string
  filename :: string

definition find_by_uid :: "string \<Rightarrow> index_entry list \<Rightarrow> index_entry option" where
  "find_by_uid u es = List.find (\<lambda>e. entry_uid e = u) es"

fun remove_by_uid :: "string \<Rightarrow> index_entry list \<Rightarrow> index_entry option \<times> index_entry list" where
  "remove_by_uid u [] = (None, [])"
| "remove_by_uid u (e # es) =
     (if entry_uid e = u then (Some e, es)
      else let (r, es') = remove_by_uid u es in (r, e # es'))"

text \<open>
  Collecting pairs into a \<^verbatim>\<open>HashMap\<close> keeps the last value of a key.
\<close>

definition hash_map :: "('k \<times> 'v) list \<Rightarrow> 'k \<Rightarrow> 'v option" where
  "hash_map kvs = map_of (rev kvs)"

definition compute_diff :: "(string \<times> string) list \<Rightarrow> index_entry list \<Rightarrow> string list \<times> string list" where
  "compute_diff server index =
     (let server_map = hash_map server;
          local_map = hash_map (map (\<lambda>e. (href e, etag e)) index)
      in (map fst (filter (\<lambda>(h, t). local_map h \<noteq> Some t) server),
          map href (filter (\<lambda>e. server_map (href e) = None) index)))"

section \<open>Scraping\<close>

definition list_etags :: "string \<Rightarrow> (string \<times> string) list" where
  "list_etags body =
     filter_map
       (\<lambda>resp. case extract_tag_text resp ''href'' of
          None \<Rightarrow> None
        | Some h \<Rightarrow>
            (case extract_tag_text resp ''getetag'' of
               None \<Rightarrow> None
             | Some t \<Rightarrow> if suffix ''/'' h then None else Some (h, t)))
       (split_responses body)"

definition escape_href :: "string \<Rightarrow> string" where
  "escape_href h = replace_sub ''>'' ''&gt;'' (replace_sub ''<'' ''&lt;'' (replace_sub ''&'' ''&amp;'' h))"

definition calendar_of_response :: "string \<Rightarrow> (string \<times> string) option" where
  "calendar_of_response resp =
     (case extract_tag_text resp ''href'' of
        None \<Rightarrow> None
      | Some h \<Rightarrow>
          (case extract_blocks ''VCALENDAR'' resp of [] \<Rightarrow> None | b # _ \<Rightarrow> Some (h, b)))"

fun uid_of_lines :: "string list \<Rightarrow> string option" where
  "uid_of_lines [] = None"
| "uid_of_lines (l # ls) =
     (let line = trim l in
      if prefix ''UID:'' (to_ascii_uppercase line) \<and> trim (drop 4 line) \<noteq> []
      then Some (trim (drop 4 line)) else uid_of_lines ls)"

definition parse_uid_from_ical :: "string \<Rightarrow> string option" where
  "parse_uid_from_ical text = uid_of_lines (lines text)"

text \<open>\<^verbatim>\<open>char::is_control\<close>: U+0000 to U+001F, U+007F, and U+0080 to U+009F.\<close>

definition is_control :: "string \<Rightarrow> bool" where
  "is_control ch =
     (case ch of
        [c] \<Rightarrow> byte c < 32 \<or> byte c = 127
      | [a, b] \<Rightarrow> byte a = 0xC2 \<and> 0x80 \<le> byte b \<and> byte b \<le> 0x9F
      | _ \<Rightarrow> False)"

definition sanitize_uid :: "string \<Rightarrow> string" where
  "sanitize_uid u =
     concat (map (\<lambda>ch. if ch = ''/'' \<or> ch = [CHR 0x5C] \<or> is_control ch then ''_'' else ch) (chars u))"

definition derive_event_href :: "string \<Rightarrow> string \<Rightarrow> string" where
  "derive_event_href calendar_url u =
     (if suffix ''/'' calendar_url then calendar_url @ sanitize_uid u @ ''.ics''
      else calendar_url @ ''/'' @ sanitize_uid u @ ''.ics'')"

section \<open>Sync\<close>

type_synonym files = "(string \<times> string) list"

definition write_file :: "string \<Rightarrow> string \<Rightarrow> files \<Rightarrow> files" where
  "write_file n content fs = (n, content) # filter (\<lambda>(m, c). m \<noteq> n) fs"

definition remove_file :: "string \<Rightarrow> files \<Rightarrow> files" where
  "remove_file n fs = filter (\<lambda>(m, c). m \<noteq> n) fs"

definition remove_gone :: "string list \<Rightarrow> index_entry list \<Rightarrow> files \<Rightarrow> files" where
  "remove_gone removed index fs =
     fold (\<lambda>h fs. case List.find (\<lambda>e. href e = h) index of
                    None \<Rightarrow> fs | Some e \<Rightarrow> remove_file (filename e) fs) removed fs"

fun put_entry :: "index_entry \<Rightarrow> index_entry list \<Rightarrow> index_entry list" where
  "put_entry n [] = [n]"
| "put_entry n (e # es) = (if href e = href n then n # es else e # put_entry n es)"

definition store_event ::
  "(string \<Rightarrow> string option) \<Rightarrow> string \<times> string \<Rightarrow> index_entry list \<times> files \<times> nat \<Rightarrow>
   index_entry list \<times> files \<times> nat" where
  "store_event etag_map ev s =
     (let (h, data) = ev; (index, fs, stored) = s;
          u = (case parse_uid_from_ical data of Some u \<Rightarrow> u | None \<Rightarrow> ''inbx-'' @ show_nat stored);
          fname = sanitize_uid u @ ''.ics'';
          t = (case etag_map h of Some t \<Rightarrow> t | None \<Rightarrow> [])
      in (put_entry \<lparr>href = h, entry_uid = u, etag = t, filename = fname\<rparr> index,
          write_file fname data fs, stored + 1))"

definition store_events ::
  "(string \<Rightarrow> string option) \<Rightarrow> (string \<times> string) list \<Rightarrow> index_entry list \<times> files \<times> nat \<Rightarrow>
   index_entry list \<times> files \<times> nat" where
  "store_events etag_map evs s = fold (store_event etag_map) evs s"

text \<open>
  The saved index, the files and the report (events seen, events stored). A failing
  multiget leaves the saved index alone, with the files of the removed events gone.
\<close>

definition caldav_sync ::
  "string + string \<Rightarrow> (string list \<Rightarrow> string + string) \<Rightarrow> index_entry list \<times> files \<Rightarrow>
   (index_entry list \<times> files) \<times> (string + nat \<times> nat)" where
  "caldav_sync etags multiget s =
     (let (index, fs) = s in
      case etags of
        Inl e \<Rightarrow> (s, Inl e)
      | Inr body \<Rightarrow>
          let server = list_etags body;
              (changed, removed) = compute_diff server index;
              fs1 = remove_gone removed index fs;
              index1 = filter (\<lambda>e. href e \<notin> set removed) index
          in if changed = [] then ((index1, fs1), Inr (length server, 0))
             else (case multiget changed of
                     Inl e \<Rightarrow> ((index, fs1), Inl e)
                   | Inr xml \<Rightarrow>
                       let evs = filter_map calendar_of_response (split_responses xml);
                           (index2, fs2, stored) = store_events (hash_map server) evs (index1, fs1, 0)
                       in ((index2, fs2), Inr (length server, stored))))"

section \<open>The diff\<close>

lemma hash_map_distinct: "distinct (map fst kvs) \<Longrightarrow> hash_map kvs = map_of kvs"
  by (simp add: hash_map_def map_of_inject_set flip: rev_map)

lemma hash_map_None: "hash_map kvs k = None \<longleftrightarrow> k \<notin> fst ` set kvs"
  by (simp add: hash_map_def map_of_eq_None_iff)

definition etags_of :: "index_entry list \<Rightarrow> string \<Rightarrow> string option" where
  "etags_of index = map_of (map (\<lambda>e. (href e, etag e)) index)"

lemma map_fst_etags: "map fst (map (\<lambda>e. (href e, etag e)) index) = map href index"
  by simp

lemma compute_diff_changed:
  assumes "distinct (map href index)" "distinct (map fst server)"
  shows "set (fst (compute_diff server index)) = {h. \<exists>t. map_of server h = Some t \<and> etags_of index h \<noteq> Some t}"
  using assms
  by (auto simp: compute_diff_def Let_def etags_of_def hash_map_distinct comp_def
      map_of_eq_Some_iff image_iff)

lemma compute_diff_removed:
  "set (snd (compute_diff server index)) = href ` set index - fst ` set server"
  by (auto simp: compute_diff_def Let_def hash_map_None)

lemma etags_put_entry: "etags_of (put_entry n es) = (etags_of es)(href n := Some (etag n))"
  by (induction es) (auto simp: etags_of_def fun_eq_iff)

lemma href_put_entry: "href ` set (put_entry n es) = insert (href n) (href ` set es)"
  by (induction es) auto

lemma distinct_put_entry: "distinct (map href es) \<Longrightarrow> distinct (map href (put_entry n es))"
proof (induction es)
  case (Cons e es)
  have "href e \<notin> href ` set (put_entry n es)" if "href e \<noteq> href n"
    using that Cons.prems by (simp add: href_put_entry)
  with Cons show ?case by (auto simp: image_iff)
qed simp

lemma store_events_index:
  assumes "store_events em evs (index, fs, k) = (index', fs', k')" and "distinct (map href index)"
  shows "distinct (map href index') \<and>
    (\<forall>h. etags_of index' h =
       (if h \<in> fst ` set evs then Some (case em h of Some t \<Rightarrow> t | None \<Rightarrow> []) else etags_of index h)) \<and>
    k' = k + length evs"
  using assms
proof (induction evs arbitrary: index fs k)
  case (Cons ev evs)
  obtain h data where ev: "ev = (h, data)" by (cases ev)
  obtain i1 f1 k1 where s1: "store_event em ev (index, fs, k) = (i1, f1, k1)"
    by (cases "store_event em ev (index, fs, k)")
  have i1: "etags_of i1 = (etags_of index)(h := Some (case em h of Some t \<Rightarrow> t | None \<Rightarrow> []))"
    "distinct (map href i1)" "k1 = k + 1"
    using s1 Cons.prems(2) by (auto simp: store_event_def ev Let_def etags_put_entry distinct_put_entry)
  have "store_events em evs (i1, f1, k1) = (index', fs', k')"
    using Cons.prems(1) s1 by (simp add: store_events_def)
  from Cons.IH [OF this i1(2)] i1 show ?case by (auto simp: ev)
qed (simp add: store_events_def)

lemma etags_filter: "etags_of (filter (\<lambda>e. href e \<notin> R) es) h = (if h \<in> R then None else etags_of es h)"
  by (induction es) (auto simp: etags_of_def)

lemma etags_None: "etags_of es h = None \<longleftrightarrow> h \<notin> href ` set es"
  by (simp add: etags_of_def map_of_eq_None_iff image_image)

lemma distinct_href_filter: "distinct (map href es) \<Longrightarrow> distinct (map href (filter P es))"
  by (rule distinct_map_filter)

text \<open>No event is missing and none is left over: the diff is empty.\<close>

lemma compute_diff_settled:
  assumes "distinct (map href index)" "distinct (map fst server)"
    and "\<And>h. etags_of index h = map_of server h"
  shows "compute_diff server index = ([], [])"
proof -
  have "set (fst (compute_diff server index)) = {}"
    using assms by (simp add: compute_diff_changed)
  moreover have "href ` set index \<subseteq> fst ` set server"
  proof
    fix h assume "h \<in> href ` set index"
    then have "map_of server h \<noteq> None" using etags_None [of index h] assms(3) [of h] by simp
    then show "h \<in> fst ` set server" by (simp add: map_of_eq_None_iff)
  qed
  then have "set (snd (compute_diff server index)) = {}"
    unfolding compute_diff_removed by blast
  ultimately show ?thesis by (cases "compute_diff server index") simp
qed

lemma caldav_sync_index:
  assumes "caldav_sync (Inr body) multiget (index, fs) = ((index', fs'), Inr report)"
    and "distinct (map href index)" and "distinct (map fst (list_etags body))"
    and "\<And>xml. multiget (fst (compute_diff (list_etags body) index)) = Inr xml \<Longrightarrow>
           fst ` set (filter_map calendar_of_response (split_responses xml)) =
             set (fst (compute_diff (list_etags body) index))"
  shows "distinct (map href index') \<and> (\<forall>h. etags_of index' h = map_of (list_etags body) h)"
proof -
  define server where "server = list_etags body"
  define changed where "changed = fst (compute_diff server index)"
  define removed where "removed = snd (compute_diff server index)"
  define index1 where "index1 = filter (\<lambda>e. href e \<notin> set removed) index"
  have ch: "set changed = {h. \<exists>t. map_of server h = Some t \<and> etags_of index h \<noteq> Some t}"
    using assms(2,3) unfolding changed_def server_def by (rule compute_diff_changed)
  have rm: "set removed = href ` set index - fst ` set server"
    unfolding removed_def by (rule compute_diff_removed)
  have d1: "distinct (map href index1)"
    using assms(2) by (simp add: index1_def distinct_href_filter)
  have e1: "etags_of index1 h = (if h \<in> fst ` set server then etags_of index h else None)" for h
    using etags_None [of index h] unfolding index1_def etags_filter rm by auto
  have keep: "etags_of index1 h = map_of server h" if "h \<notin> set changed" for h
    using that map_of_eq_None_iff [of server h] unfolding ch e1 by (cases "map_of server h") auto
  show ?thesis
  proof (cases "changed = []")
    case True
    then have "index' = index1"
      using assms(1)
      by (simp add: caldav_sync_def Let_def case_prod_beta server_def changed_def removed_def index1_def)
    with True d1 keep show ?thesis by (simp add: server_def)
  next
    case False
    then obtain xml where xml: "multiget changed = Inr xml"
      using assms(1)
      by (cases "multiget changed")
        (auto simp: caldav_sync_def Let_def case_prod_beta server_def changed_def)
    define evs where "evs = filter_map calendar_of_response (split_responses xml)"
    have evs: "fst ` set evs = set changed"
      using assms(4) xml by (simp add: evs_def changed_def server_def)
    obtain a b k where st: "store_events (hash_map server) evs
        (index1, remove_gone removed index fs, 0) = (a, b, k)"
      by (metis prod_cases3)
    moreover have "a = index'"
      using assms(1) False xml st
      by (simp add: caldav_sync_def Let_def case_prod_beta server_def changed_def removed_def
          index1_def evs_def)
    ultimately have "store_events (hash_map server) evs
        (index1, remove_gone removed index fs, 0) = (index', b, k)" by simp
    from store_events_index [OF this d1] have
      i: "distinct (map href index')"
      "\<And>h. etags_of index' h = (if h \<in> set changed then Some (case hash_map server h of Some t \<Rightarrow> t | None \<Rightarrow> [])
          else etags_of index1 h)"
      unfolding evs by auto
    have "etags_of index' h = map_of server h" for h
      using keep [of h] ch assms(3)
      by (auto simp: i(2) hash_map_distinct server_def split: option.splits)
    with i(1) show ?thesis by (simp add: server_def)
  qed
qed

section \<open>Properties\<close>

text \<open>
  C23. The CalDAV sync converges: when the server answers the multiget for exactly the
  events that were asked for, a second sync against the same etags finds nothing to fetch
  and nothing to delete.
\<close>

theorem caldav_sync_converges:
  assumes "caldav_sync (Inr body) multiget (index, fs) = ((index', fs'), Inr report)"
    and "distinct (map href index)" and "distinct (map fst (list_etags body))"
    and "\<And>xml. multiget (fst (compute_diff (list_etags body) index)) = Inr xml \<Longrightarrow>
           fst ` set (filter_map calendar_of_response (split_responses xml)) =
             set (fst (compute_diff (list_etags body) index))"
  shows "compute_diff (list_etags body) index' = ([], []) \<and>
    caldav_sync (Inr body) multiget (index', fs') =
      ((index', fs'), Inr (length (list_etags body), 0))"
proof -
  have "distinct (map href index')" "\<And>h. etags_of index' h = map_of (list_etags body) h"
    using caldav_sync_index [OF assms] by auto
  then have d: "compute_diff (list_etags body) index' = ([], [])"
    by (intro compute_diff_settled [OF _ assms(3)]) auto
  then show ?thesis by (simp add: caldav_sync_def Let_def remove_gone_def)
qed

definition etags_body :: string where
  "etags_body = ''<response><href>/c/1.ics</href><getetag>e1</getetag></response>''"

definition multiget_body :: string where
  "multiget_body = ''<response><href>/c/1.ics</href>BEGIN:VCALENDAR UID:a END:VCALENDAR</response>''"

theorem caldav_sync_converges_witness:
  "compute_diff (list_etags etags_body)
     (fst (fst (caldav_sync (Inr etags_body) (\<lambda>hs. Inr multiget_body) ([], [])))) = ([], [])"
proof -
  let ?r = "caldav_sync (Inr etags_body) (\<lambda>hs. Inr multiget_body) ([], [])"
  have "(case snd ?r of Inr _ \<Rightarrow> True | Inl _ \<Rightarrow> False)" by code_simp
  then obtain index' fs' report where r: "?r = ((index', fs'), Inr report)"
    by (cases ?r) (auto split: sum.splits)
  have d: "distinct (map fst (list_etags etags_body))" by code_simp
  have "filter_map calendar_of_response (split_responses multiget_body) =
      [(''/c/1.ics'', ''BEGIN:VCALENDAR UID:a END:VCALENDAR'')]" by code_simp
  moreover have "fst (compute_diff (list_etags etags_body) []) = [''/c/1.ics'']" by code_simp
  ultimately have m: "fst ` set (filter_map calendar_of_response (split_responses xml)) =
             set (fst (compute_diff (list_etags etags_body) []))" if "Inr multiget_body = Inr xml" for xml
    using that by auto
  have "distinct (map href ([] :: index_entry list))" by simp
  from caldav_sync_converges [OF r this d m] r show ?thesis by simp
qed

definition escape_char :: "char \<Rightarrow> string" where
  "escape_char c =
     (if c = CHR ''&'' then ''&amp;'' else if c = CHR ''<'' then ''&lt;''
      else if c = CHR ''>'' then ''&gt;'' else [c])"

text \<open>
  An href that is escaped for a multiget body comes back when its entities are decoded.
\<close>

theorem decode_escape_href: "decode_xml_entities (escape_href h) = h"
proof -
  have esc: "escape_href h = concat (map escape_char h)"
    unfolding escape_href_def by (induction h) (auto simp: escape_char_def)
  have 1: "replace_sub ''&lt;'' ''<'' (concat (map escape_char h)) =
      concat (map (\<lambda>c. if c = CHR ''<'' then [c] else escape_char c) h)"
    by (induction h) (auto simp: escape_char_def)
  have 2: "replace_sub ''&gt;'' ''>'' (concat (map (\<lambda>c. if c = CHR ''<'' then [c] else escape_char c) h)) =
      concat (map (\<lambda>c. if c = CHR ''&'' then ''&amp;'' else [c]) h)"
    by (induction h) (auto simp: escape_char_def)
  have 3: "replace_sub ''&quot;'' r (concat (map (\<lambda>c. if c = CHR ''&'' then ''&amp;'' else [c]) h)) =
      concat (map (\<lambda>c. if c = CHR ''&'' then ''&amp;'' else [c]) h)" for r
    by (induction h) auto
  have 4: "replace_sub ''&apos;'' r (concat (map (\<lambda>c. if c = CHR ''&'' then ''&amp;'' else [c]) h)) =
      concat (map (\<lambda>c. if c = CHR ''&'' then ''&amp;'' else [c]) h)" for r
    by (induction h) auto
  have 5: "replace_sub ''&amp;'' ''&'' (concat (map (\<lambda>c. if c = CHR ''&'' then ''&amp;'' else [c]) h)) = h"
    by (induction h) auto
  show ?thesis unfolding decode_xml_entities_def esc 1 2 3 4 5 ..
qed

text \<open>
  Two events whose UIDs differ only in characters a file name cannot hold share a file:
  when the first of them disappears from the server, the file of the second is deleted and
  its index entry stays, so no later sync restores it.
\<close>

theorem caldav_shared_filename_lost:
  "let body = ''<response><href>/c/2.ics</href><getetag>e2</getetag></response>'';
       index = [\<lparr>href = ''/c/1.ics'', entry_uid = ''a/b'', etag = ''e1'', filename = sanitize_uid ''a/b'' @ ''.ics''\<rparr>,
                \<lparr>href = ''/c/2.ics'', entry_uid = ''a_b'', etag = ''e2'', filename = sanitize_uid ''a_b'' @ ''.ics''\<rparr>];
       s = (index, [(''a_b.ics'', ''second'')])
   in caldav_sync (Inr body) (\<lambda>hs. Inl ''no request'') s = (([index ! 1], []), Inr (1, 0))"
  by code_simp

end
