(* ===== verification/Wkd.thy ===== *)
theory Wkd
  imports Rust_Str "HOL-Library.Word"
begin

unbundle bit_operations_syntax

text \<open>
  Web Key Directory discovery (crates/inbx-pgp/src/wkd.rs). The SHA-1 digest, the Unicode
  lower-casing of the local part and the HTTP fetch with its key parser are parameters; the
  bit accumulator of the z-base-32 encoder is the code's \<^verbatim>\<open>u32\<close>.
\<close>

section \<open>Encoders\<close>

definition ZBASE32_ALPHABET :: string where
  "ZBASE32_ALPHABET = ''ybndrfg8ejkmcpqxot1uwisza345h769''"

definition zbase32_char :: "32 word \<Rightarrow> char" where
  "zbase32_char w = ZBASE32_ALPHABET ! unat (w AND 0x1F)"

text \<open>The inner \<^verbatim>\<open>while bits >= 5\<close> loop.\<close>

function zbase32_emit :: "32 word \<Rightarrow> nat \<Rightarrow> string \<Rightarrow> nat \<times> string" where
  "zbase32_emit buf bits out =
     (if 5 \<le> bits
      then zbase32_emit buf (bits - 5) (out @ [zbase32_char (drop_bit (bits - 5) buf)])
      else (bits, out))"
  by pat_completeness auto
termination
  by (relation "measure (\<lambda>(buf, bits, out). bits)") auto

declare zbase32_emit.simps [simp del]

fun zbase32_loop :: "8 word list \<Rightarrow> 32 word \<Rightarrow> nat \<Rightarrow> string \<Rightarrow> string" where
  "zbase32_loop [] buf bits out =
     (if 0 < bits then out @ [zbase32_char (push_bit (5 - bits) buf)] else out)"
| "zbase32_loop (b # bs) buf bits out =
     (let buf' = push_bit 8 buf OR ucast b; (bits', out') = zbase32_emit buf' (bits + 8) out
      in zbase32_loop bs buf' bits' out')"

definition zbase32_encode :: "8 word list \<Rightarrow> string" where
  "zbase32_encode bytes = zbase32_loop bytes 0 0 []"

definition unreserved :: "char \<Rightarrow> bool" where
  "unreserved c \<longleftrightarrow> is_ascii_alphanumeric c \<or> c \<in> set ''-._~''"

definition hex_digit :: "nat \<Rightarrow> char" where
  "hex_digit n = ''0123456789ABCDEF'' ! n"

definition percent_encode :: "string \<Rightarrow> string" where
  "percent_encode s =
     concat (map (\<lambda>c. if unreserved c then [c]
                      else [CHR ''%'', hex_digit (byte c div 16), hex_digit (byte c mod 16)]) s)"

section \<open>URLs and lookup\<close>

definition wkd_hash :: "(string \<Rightarrow> string) \<Rightarrow> (string \<Rightarrow> 8 word list) \<Rightarrow> string \<Rightarrow> string" where
  "wkd_hash lower sha1 loc = zbase32_encode (sha1 (lower loc))"

definition advanced_url :: "(string \<Rightarrow> string) \<Rightarrow> (string \<Rightarrow> 8 word list) \<Rightarrow> string \<Rightarrow> string \<Rightarrow> string" where
  "advanced_url lower sha1 domain loc =
     ''https://openpgpkey.'' @ domain @ ''/.well-known/openpgpkey/'' @ domain @ ''/hu/'' @
     wkd_hash lower sha1 loc @ ''?l='' @ percent_encode loc"

definition direct_url :: "(string \<Rightarrow> string) \<Rightarrow> (string \<Rightarrow> 8 word list) \<Rightarrow> string \<Rightarrow> string \<Rightarrow> string" where
  "direct_url lower sha1 domain loc =
     ''https://'' @ domain @ ''/.well-known/openpgpkey/hu/'' @
     wkd_hash lower sha1 loc @ ''?l='' @ percent_encode loc"

text \<open>
  One fetch: \<open>http url\<close> is the status and the body, \<open>None\<close> when there was no answer or the
  body broke off; only a 200 with a body that is no key is an error.
\<close>

definition try_url ::
  "(string \<Rightarrow> (nat \<times> string) option) \<Rightarrow> (string \<Rightarrow> string + 'k) \<Rightarrow> string \<Rightarrow> string + 'k option" where
  "try_url http parse_key url =
     (case http url of
        None \<Rightarrow> Inr None
      | Some (status, body) \<Rightarrow>
          if status \<noteq> 200 then Inr None
          else (case parse_key body of Inl e \<Rightarrow> Inl e | Inr k \<Rightarrow> Inr (Some k)))"

definition lookup ::
  "(string \<Rightarrow> string) \<Rightarrow> (string \<Rightarrow> 8 word list) \<Rightarrow> (string \<Rightarrow> (nat \<times> string) option) \<Rightarrow>
   (string \<Rightarrow> string + 'k) \<Rightarrow> string \<Rightarrow> string + 'k option" where
  "lookup lower sha1 http parse_key email =
     (case split_once (CHR ''@'') email of
        None \<Rightarrow> Inr None
      | Some (loc, domain) \<Rightarrow>
          (case try_url http parse_key (advanced_url lower sha1 domain loc) of
             Inl e \<Rightarrow> Inl e
           | Inr (Some k) \<Rightarrow> Inr (Some k)
           | Inr None \<Rightarrow> try_url http parse_key (direct_url lower sha1 domain loc)))"

section \<open>z-base-32\<close>

text \<open>The number a byte list and an encoding stand for, most significant digit first.\<close>

definition bytes_value :: "8 word list \<Rightarrow> nat" where
  "bytes_value bs = foldl (\<lambda>v b. v * 256 + unat b) 0 bs"

definition zbase32_digit :: "char \<Rightarrow> nat" where
  "zbase32_digit c = (case find_idx (\<lambda>x. x = c) ZBASE32_ALPHABET of Some i \<Rightarrow> i | None \<Rightarrow> 0)"

definition zbase32_value :: "string \<Rightarrow> nat" where
  "zbase32_value s = foldl (\<lambda>v c. v * 32 + zbase32_digit c) 0 s"

lemma zbase32_digit_nth: "i < 32 \<Longrightarrow> zbase32_digit (ZBASE32_ALPHABET ! i) = i"
proof -
  have "list_all (\<lambda>i. zbase32_digit (ZBASE32_ALPHABET ! i) = i) [0..<32]" by code_simp
  then show "i < 32 \<Longrightarrow> zbase32_digit (ZBASE32_ALPHABET ! i) = i" by (simp add: list_all_iff)
qed

lemma unat_and_31: "unat (w AND 0x1F :: 32 word) = unat w mod 32"
proof -
  have "unat (w AND 0x1F) = unat w AND 31" by (simp add: unsigned_and_eq)
  also have "\<dots> = take_bit 5 (unat w)" by (simp add: take_bit_eq_mask mask_eq_exp_minus_1)
  finally show ?thesis by (simp add: take_bit_eq_mod)
qed

lemma zbase32_digit_char: "zbase32_digit (zbase32_char w) = unat w mod 32"
  unfolding zbase32_char_def unat_and_31 by (rule zbase32_digit_nth) simp

lemma unat_drop_bit_32: "unat (drop_bit n (w :: 32 word)) = unat w div 2 ^ n"
proof -
  have "unat (drop_bit n w) = drop_bit n (unat w)" by (rule unat_drop_bit_eq)
  then show ?thesis by (simp only: drop_bit_eq_div [of n "unat w"])
qed

lemma zbase32_value_snoc: "zbase32_value (s @ [c]) = zbase32_value s * 32 + zbase32_digit c"
  by (simp add: zbase32_value_def)

lemma bytes_value_snoc: "bytes_value (bs @ [b]) = bytes_value bs * 256 + unat b"
  by (simp add: bytes_value_def)

lemma zbase32_emit_inv:
  "zbase32_emit buf bits out = (bits', out') \<Longrightarrow>
     bits' < 5 \<and> 5 * length out' + bits' = 5 * length out + bits \<and>
     zbase32_value out' * 2 ^ bits' + unat buf mod 2 ^ bits' =
       zbase32_value out * 2 ^ bits + unat buf mod 2 ^ bits"
proof (induction buf bits out arbitrary: rule: zbase32_emit.induct)
  case (1 buf bits out)
  show ?case
  proof (cases "5 \<le> bits")
    case True
    then obtain k where k: "bits = k + 5" by (metis le_add_diff_inverse2)
    let ?x = "unat buf div 2 ^ k mod 32"
    have e: "zbase32_emit buf k (out @ [zbase32_char (drop_bit k buf)]) = (bits', out')"
      using "1.prems" k by (subst (asm) zbase32_emit.simps) simp
    have "unat buf mod 2 ^ bits = 2 ^ k * ?x + unat buf mod 2 ^ k"
      unfolding k power_add using mod_mult2_eq [of "unat buf" "2 ^ k" "2 ^ 5"] by simp
    moreover have "zbase32_value (out @ [zbase32_char (drop_bit k buf)]) = zbase32_value out * 32 + ?x"
      by (simp add: zbase32_value_snoc zbase32_digit_char unat_drop_bit_32)
    moreover have "bits - 5 = k" using k by simp
    ultimately show ?thesis
      using "1.IH" [OF True] e k by (simp add: power_add algebra_simps)
  next
    case False
    with "1.prems" show ?thesis by (subst (asm) zbase32_emit.simps) auto
  qed
qed

lemma unat_push_bit_32: "unat (push_bit n (w :: 32 word)) = unat w * 2 ^ n mod 2 ^ 32"
proof -
  have "unat (push_bit n w) = take_bit 32 (push_bit n (unat w))"
    by (simp add: unsigned_push_bit_eq)
  then show ?thesis by (simp only: take_bit_eq_mod push_bit_eq_mult)
qed

lemma push_byte:
  fixes buf :: "32 word" and b :: "8 word"
  assumes "bits < 5"
  shows "unat (push_bit 8 buf OR ucast b) mod 2 ^ (bits + 8) = (unat buf mod 2 ^ bits) * 256 + unat b"
proof -
  have b8: "\<not> bit (ucast b :: 32 word) n" if "8 \<le> n" for n
    using that bit_imp_le_length [of b n] by (auto simp: bit_ucast_iff)
  have "push_bit 8 buf OR ucast b = push_bit 8 buf + ucast b"
    by (rule disjunctive_add [symmetric]) (use b8 in \<open>auto simp: bit_push_bit_iff\<close>)
  moreover have "unat (ucast b :: 32 word) = unat b"
    using unsigned_less [of b, where 'a = nat] by (simp add: unsigned_ucast_eq take_bit_eq_mod)
  moreover have "unat (push_bit 8 buf) = unat buf * 256 mod 2 ^ 32"
    using unat_push_bit_32 [of 8 buf] by simp
  ultimately have v: "unat (push_bit 8 buf OR ucast b) = (unat buf * 256 + unat b) mod 2 ^ 32"
    by (simp add: unat_word_ariths(1) mod_simps)
  have "unat (push_bit 8 buf OR ucast b) mod 2 ^ (bits + 8) = (unat buf * 256 + unat b) mod 2 ^ (bits + 8)"
  proof -
    have "(2 :: nat) ^ (bits + 8) dvd 2 ^ 32" using assms by (intro le_imp_power_dvd) simp
    from mod_mod_cancel [OF this] show ?thesis by (simp only: v)
  qed
  also have "\<dots> = (256 * unat buf + unat b) mod (256 * 2 ^ bits)"
    by (simp add: power_add ac_simps)
  also have "\<dots> = 256 * ((256 * unat buf + unat b) div 256 mod 2 ^ bits) + (256 * unat buf + unat b) mod 256"
    by (rule mod_mult2_eq)
  also have "\<dots> = (unat buf mod 2 ^ bits) * 256 + unat b"
    using unsigned_less [of b, where 'a = nat] by simp
  finally show ?thesis .
qed

lemma zbase32_loop_inv:
  assumes "bits < 5" and "5 * length out + bits = 8 * length prev"
    and "zbase32_value out * 2 ^ bits + unat buf mod 2 ^ bits = bytes_value prev"
  shows "length (zbase32_loop bs buf bits out) = (8 * length (prev @ bs) + 4) div 5 \<and>
    zbase32_value (zbase32_loop bs buf bits out) =
      bytes_value (prev @ bs) * 2 ^ (5 * ((8 * length (prev @ bs) + 4) div 5) - 8 * length (prev @ bs))"
  using assms
proof (induction bs arbitrary: buf bits out prev)
  case Nil
  show ?case
  proof (cases "bits = 0")
    case True
    then have len: "8 * length prev = 5 * length out" using Nil.prems(2) by simp
    then have "(8 * length prev + 4) div 5 = length out" by simp
    with Nil.prems True len show ?thesis by simp
  next
    case False
    have len: "(8 * length prev + 4) div 5 = length out + 1"
      using Nil.prems(1,2) False by (simp flip: Nil.prems(2))
    define a c V M where d: "a = (2 :: nat) ^ (5 - bits)" "c = (2 :: nat) ^ bits"
      "V = zbase32_value out" "M = unat buf mod 2 ^ bits"
    have "a * c = 2 ^ (5 - bits + bits)" unfolding d by (simp only: power_add)
    also have "\<dots> = 32" using Nil.prems(1) by simp
    finally have ac: "a * c = 32" .
    have "(32 :: nat) dvd 2 ^ 32" by simp
    from mod_mod_cancel [OF this, of "unat buf * a"]
    have "unat (push_bit (5 - bits) buf) mod 32 = unat buf * a mod 32"
      by (simp only: unat_push_bit_32 d)
    also have "\<dots> = (a * unat buf) mod (a * c)" by (simp only: ac mult.commute)
    also have "\<dots> = a * (unat buf mod c)" by (simp only: mult_mod_right)
    finally have last: "unat (push_bit (5 - bits) buf) mod 32 = 2 ^ (5 - bits) * (unat buf mod 2 ^ bits)"
      by (simp only: d)
    have "V * (a * c) + a * M = a * (V * c + M)" by (simp add: algebra_simps)
    then have "V * 32 + a * M = a * (V * c + M)" by (simp only: ac)
    then have "zbase32_value out * 32 + 2 ^ (5 - bits) * (unat buf mod 2 ^ bits) =
        2 ^ (5 - bits) * (zbase32_value out * 2 ^ bits + unat buf mod 2 ^ bits)"
      by (simp only: d)
    also have "\<dots> = bytes_value prev * 2 ^ (5 - bits)" by (simp add: Nil.prems(3))
    finally have "zbase32_value (out @ [zbase32_char (push_bit (5 - bits) buf)]) = bytes_value prev * 2 ^ (5 - bits)"
      by (simp add: zbase32_value_snoc zbase32_digit_char last)
    moreover have "5 * (length out + 1) - 8 * length prev = 5 - bits"
      using Nil.prems(1,2) by simp
    ultimately show ?thesis using False len by simp
  qed
next
  case (Cons b bs)
  let ?buf = "push_bit 8 buf OR ucast b"
  obtain bits' out' where e: "zbase32_emit ?buf (bits + 8) out = (bits', out')"
    by (cases "zbase32_emit ?buf (bits + 8) out")
  note inv = zbase32_emit_inv [OF e]
  have "zbase32_value out * 2 ^ (bits + 8) + unat ?buf mod 2 ^ (bits + 8) =
      (zbase32_value out * 2 ^ bits + unat buf mod 2 ^ bits) * 256 + unat b"
    by (simp only: push_byte [OF Cons.prems(1)]) (simp add: power_add algebra_simps)
  then have "zbase32_value out' * 2 ^ bits' + unat ?buf mod 2 ^ bits' = bytes_value (prev @ [b])"
    using inv Cons.prems(3) by (simp add: bytes_value_snoc)
  moreover have "5 * length out' + bits' = 8 * length (prev @ [b])"
    using inv Cons.prems(2) by simp
  ultimately show ?case
    using Cons.IH [of bits' out' "prev @ [b]" ?buf] inv e by simp
qed

text \<open>
  The z-base-32 encoding is right in spite of the accumulator that overflows its 32
  bits: the encoding of \<open>n\<close> bytes has \<open>8 n / 5\<close> characters, rounded up, and read as a
  number it is that of the bytes, shifted by the padding.
\<close>

theorem zbase32_encode_value:
  "length (zbase32_encode bs) = (8 * length bs + 4) div 5 \<and>
   zbase32_value (zbase32_encode bs) =
     bytes_value bs * 2 ^ (5 * ((8 * length bs + 4) div 5) - 8 * length bs)"
  using zbase32_loop_inv [of 0 "[]" "[]" 0 bs]
  by (simp add: zbase32_encode_def zbase32_value_def bytes_value_def)

section \<open>Percent encoding\<close>

definition hex_value :: "char \<Rightarrow> nat" where
  "hex_value c = (case find_idx (\<lambda>x. x = c) ''0123456789ABCDEF'' of Some i \<Rightarrow> i | None \<Rightarrow> 0)"

fun percent_decode :: "string \<Rightarrow> string" where
  "percent_decode (c # d # e # s) =
     (if c = CHR ''%'' then char_of (16 * hex_value d + hex_value e) # percent_decode s
      else c # percent_decode (d # e # s))"
| "percent_decode s = s"

lemma hex_value_digit: "i < 16 \<Longrightarrow> hex_value (hex_digit i) = i"
proof -
  have "list_all (\<lambda>i. hex_value (hex_digit i) = i) [0..<16]" by code_simp
  then show "i < 16 \<Longrightarrow> hex_value (hex_digit i) = i" by (simp add: list_all_iff)
qed

lemma unreserved_not_percent: "unreserved c \<Longrightarrow> c \<noteq> CHR ''%''"
proof
  assume "unreserved c" "c = CHR ''%''"
  moreover have "\<not> unreserved (CHR ''%'')" by code_simp
  ultimately show False by simp
qed

lemma percent_decode_Cons: "c \<noteq> CHR ''%'' \<Longrightarrow> percent_decode (c # s) = c # percent_decode s"
  by (cases s rule: percent_decode.cases) auto

text \<open>
  Percent-encoding a local part is undone by decoding it, and leaves only characters
  that can stand in a URL's query.
\<close>

theorem percent_encode_roundtrip:
  "percent_decode (percent_encode s) = s \<and>
   list_all (\<lambda>c. unreserved c \<or> c = CHR ''%'') (percent_encode s)"
proof -
  have "percent_decode (percent_encode s) = s"
  proof (induction s)
    case (Cons c s)
    have "byte c < 256" by (simp add: byte_def)
    then have h: "char_of (16 * hex_value (hex_digit (byte c div 16)) + hex_value (hex_digit (byte c mod 16))) = c"
      by (simp add: hex_value_digit) (simp add: byte_def)
    show ?case
      using Cons h
      by (cases "unreserved c") (auto simp: percent_encode_def percent_decode_Cons unreserved_not_percent)
  qed (simp add: percent_encode_def)
  moreover have "unreserved (hex_digit i)" if "i < 16" for i
  proof -
    have "list_all (\<lambda>i. unreserved (hex_digit i)) [0..<16]" by code_simp
    with that show ?thesis by (simp add: list_all_iff)
  qed
  moreover have "byte c div 16 < 16" for c
    by (simp add: byte_def div_less_iff_less_mult)
  ultimately show ?thesis
    by (auto simp: percent_encode_def list_all_iff)
qed

section \<open>Lookup\<close>

text \<open>
  The direct form is tried exactly when the advanced one gave no key and no error: a server
  that answers the advanced URL with something that is no key hides a key that the direct
  URL publishes.
\<close>

lemma lookup_advanced_error:
  assumes "split_once (CHR ''@'') email = Some (loc, domain)"
    and "http (advanced_url lower sha1 domain loc) = Some (200, body)" and "parse_key body = Inl e"
  shows "lookup lower sha1 http parse_key email = Inl e"
  using assms by (simp add: lookup_def try_url_def)

end
