(* ===== verification/Civil_Date.thy ===== *)
theory Civil_Date
  imports Main
begin

text \<open>
  The civil-from-days computation that apps/inbx/src/mbox.rs (\<^verbatim>\<open>civil_from_unix\<close>) and
  crates/inbx-net/src/imap.rs (\<^verbatim>\<open>days_ago_to_imap_date\<close>) share, and its correctness
  against the Gregorian calendar: day 0 is 1970-01-01, and the date of the next day is the
  next date.
\<close>

section \<open>The computation\<close>

definition year_of_era :: "int \<Rightarrow> int" where
  "year_of_era doe = (doe - doe div 1460 + doe div 36524 - doe div 146096) div 365"

definition month_day :: "int \<Rightarrow> int \<times> int" where
  "month_day doy =
     (let mp = (5 * doy + 2) div 153;
          d = doy - (153 * mp + 2) div 5 + 1;
          m = (if mp < 10 then mp + 3 else mp - 9)
      in (m, d))"

definition civil_from_days :: "int \<Rightarrow> int \<times> int \<times> int" where
  "civil_from_days days =
     (let z = days + 719468;
          era = z div 146097;
          doe = z - era * 146097;
          yoe = year_of_era doe;
          y = yoe + era * 400;
          doy = doe - (365 * yoe + yoe div 4 - yoe div 100);
          (m, d) = month_day doy
      in (if m \<le> 2 then y + 1 else y, m, d))"

section \<open>The calendar\<close>

definition leap_year :: "int \<Rightarrow> bool" where
  "leap_year y \<longleftrightarrow> y mod 4 = 0 \<and> (y mod 100 \<noteq> 0 \<or> y mod 400 = 0)"

definition month_length :: "int \<Rightarrow> int \<Rightarrow> int" where
  "month_length y m =
     (if m = 2 then (if leap_year y then 29 else 28)
      else if m = 4 \<or> m = 6 \<or> m = 9 \<or> m = 11 then 30 else 31)"

fun next_day :: "int \<times> int \<times> int \<Rightarrow> int \<times> int \<times> int" where
  "next_day (y, m, d) =
     (if d < month_length y m then (y, m, d + 1)
      else if m < 12 then (y, m + 1, 1) else (y + 1, 1, 1))"

section \<open>Years of an era\<close>

definition year_start :: "int \<Rightarrow> int" where
  "year_start yoe = 365 * yoe + yoe div 4 - yoe div 100"

definition year_length :: "int \<Rightarrow> int" where
  "year_length yoe = (if leap_year (yoe + 1) then 366 else 365)"

lemma year_table:
  assumes "0 \<le> yoe" "yoe < 400"
  shows "year_of_era (year_start yoe) = yoe"
    and "year_of_era (year_start yoe + year_length yoe - 1) = yoe"
    and "yoe < 399 \<Longrightarrow> year_start (yoe + 1) = year_start yoe + year_length yoe \<and>
           year_start yoe + year_length yoe \<le> 146096"
proof -
  have "list_all (\<lambda>y. year_of_era (year_start y) = y \<and>
      year_of_era (year_start y + year_length y - 1) = y \<and>
      (y < 399 \<longrightarrow> year_start (y + 1) = year_start y + year_length y \<and>
         year_start y + year_length y \<le> 146096)) [0..399]"
    by code_simp
  then show "year_of_era (year_start yoe) = yoe"
    "year_of_era (year_start yoe + year_length yoe - 1) = yoe"
    "yoe < 399 \<Longrightarrow> year_start (yoe + 1) = year_start yoe + year_length yoe \<and>
           year_start yoe + year_length yoe \<le> 146096"
    using assms by (simp_all add: list_all_iff)
qed

lemma year_of_era_mono:
  assumes "0 \<le> a" "a \<le> b" "b < 146096"
  shows "year_of_era a \<le> year_of_era b"
proof -
  have "b div 1460 \<le> (a + (b - a) * 1460) div 1460" using assms by (intro zdiv_mono1) simp_all
  then have "a - a div 1460 \<le> b - b div 1460" by simp
  moreover have "a div 36524 \<le> b div 36524" using assms by (simp add: zdiv_mono1)
  moreover have "a div 146096 = 0" "b div 146096 = 0" using assms by simp_all
  ultimately have "a - a div 1460 + a div 36524 - a div 146096 \<le> b - b div 1460 + b div 36524 - b div 146096"
    by linarith
  then show ?thesis
    unfolding year_of_era_def by (rule zdiv_mono1) simp
qed

lemma year_last: "year_start 399 = 145731" "year_length 399 = 366" "year_of_era 146096 = 399"
  by code_simp+

lemma year_length_bounds: "365 \<le> year_length y" "year_length y \<le> 366"
  by (simp_all add: year_length_def)

lemma year_start_nonneg: "0 \<le> y \<Longrightarrow> 0 \<le> year_start y"
  using zdiv_mono2 [of y 1 100] by (simp add: year_start_def)

lemma year_of_era_split:
  assumes "0 \<le> yoe" "yoe < 400" "0 \<le> doy" "doy < year_length yoe"
  shows "year_of_era (year_start yoe + doy) = yoe"
proof (cases "year_start yoe + doy = 146096")
  case True
  have "yoe = 399"
  proof (rule ccontr)
    assume "yoe \<noteq> 399"
    then have "yoe < 399" using assms by simp
    from year_table(3) [OF assms(1,2) this] True assms(4) show False by simp
  qed
  with True show ?thesis by (simp add: year_last)
next
  case False
  let ?last = "year_start yoe + year_length yoe - 1"
  have le: "year_start yoe + doy < 146096"
  proof (cases "yoe < 399")
    case True
    from year_table(3) [OF assms(1,2) True] assms(4) show ?thesis by simp
  next
    case no: False
    then have "yoe = 399" using assms by simp
    with False assms(4) show ?thesis by (simp add: year_last)
  qed
  have "year_of_era (year_start yoe) \<le> year_of_era (year_start yoe + doy)"
    using assms le year_start_nonneg by (intro year_of_era_mono) simp_all
  moreover have "year_of_era (year_start yoe + doy) \<le> yoe"
  proof (cases "?last < 146096")
    case True
    have "year_of_era (year_start yoe + doy) \<le> year_of_era ?last"
      using assms True year_start_nonneg [OF assms(1)] by (intro year_of_era_mono) simp_all
    then show ?thesis using year_table(2) [OF assms(1,2)] by simp
  next
    case no: False
    have "yoe = 399"
    proof (rule ccontr)
      assume "yoe \<noteq> 399"
      then have "yoe < 399" using assms by simp
      from year_table(3) [OF assms(1,2) this] no show False by simp
    qed
    moreover have "year_of_era (year_start yoe + doy) \<le> year_of_era 146095"
      using assms le year_start_nonneg [OF assms(1)] by (intro year_of_era_mono) simp_all
    moreover have "year_of_era 146095 = 399" by code_simp
    ultimately show ?thesis by simp
  qed
  ultimately show ?thesis using year_table(1) [OF assms(1,2)] by simp
qed

lemma day_of_era_split:
  assumes "0 \<le> doe" "doe < 146097"
  shows "\<exists>yoe doy. 0 \<le> yoe \<and> yoe < 400 \<and> 0 \<le> doy \<and> doy < year_length yoe \<and> doe = year_start yoe + doy"
  using assms
proof (induction doe rule: int_ge_induct)
  case base
  then show ?case
    by (intro exI [of _ 0]) (simp add: year_start_def year_length_def)
next
  case (step doe)
  then obtain yoe doy where y: "0 \<le> yoe" "yoe < 400" "0 \<le> doy" "doy < year_length yoe"
    "doe = year_start yoe + doy" by auto
  show ?case
  proof (cases "doy + 1 < year_length yoe")
    case True
    with y show ?thesis by (intro exI [of _ yoe] exI [of _ "doy + 1"]) simp
  next
    case False
    have "yoe < 399"
    proof (rule ccontr)
      assume "\<not> yoe < 399"
      then have "yoe = 399" using y by simp
      with y False step.prems show False by (simp add: year_last)
    qed
    with year_table(3) [OF y(1,2)] y False year_length_bounds [of "yoe + 1"] show ?thesis
      by (intro exI [of _ "yoe + 1"] exI [of _ 0]) simp
  qed
qed

section \<open>Days of a year\<close>

lemma month_table:
  assumes "0 \<le> doy" "doy \<le> 364"
  shows "case month_day doy of (m, d) \<Rightarrow>
    1 \<le> d \<and> 1 \<le> m \<and> m \<le> 12 \<and> (m \<le> 2 \<longleftrightarrow> 306 \<le> doy) \<and>
    month_day (doy + 1) =
      (if m = 2 then (2, d + 1)
       else if d < month_length 1 m then (m, d + 1)
       else (if m = 12 then 1 else m + 1, 1)) \<and> (m = 2 \<longrightarrow> d = doy - 336) \<and> (doy = 364 \<longrightarrow> m = 2)"
proof -
  have "list_all (\<lambda>doy. case month_day doy of (m, d) \<Rightarrow>
    1 \<le> d \<and> 1 \<le> m \<and> m \<le> 12 \<and> (m \<le> 2 \<longleftrightarrow> 306 \<le> doy) \<and>
    month_day (doy + 1) =
      (if m = 2 then (2, d + 1)
       else if d < month_length 1 m then (m, d + 1)
       else (if m = 12 then 1 else m + 1, 1)) \<and> (m = 2 \<longrightarrow> d = doy - 336) \<and> (doy = 364 \<longrightarrow> m = 2)) [0..364]"
    by code_simp
  then show ?thesis using assms by (simp add: list_all_iff)
qed

lemma month_day_ends: "month_day 0 = (3, 1)" "month_day 365 = (2, 29)" "month_day 364 = (2, 28)"
  by code_simp+

lemma month_length_other: "m \<noteq> 2 \<Longrightarrow> month_length y m = month_length 1 m"
  by (simp add: month_length_def)

definition date_of :: "int \<Rightarrow> int \<Rightarrow> int \<Rightarrow> int \<times> int \<times> int" where
  "date_of era yoe doy =
     (let (m, d) = month_day doy; y = yoe + era * 400 in (if m \<le> 2 then y + 1 else y, m, d))"

lemma civil_from_days_split:
  assumes "0 \<le> yoe" "yoe < 400" "0 \<le> doy" "doy < year_length yoe"
    and "days + 719468 = era * 146097 + year_start yoe + doy"
  shows "civil_from_days days = date_of era yoe doy"
proof -
  have "0 \<le> year_start yoe + doy" using assms year_start_nonneg by simp
  moreover have "year_start yoe + doy < 146097"
  proof (cases "yoe < 399")
    case True
    from year_table(3) [OF assms(1,2) True] assms(4) show ?thesis by simp
  next
    case False
    then have "yoe = 399" using assms by simp
    with assms(4) show ?thesis by (simp add: year_last)
  qed
  ultimately have era: "(era * 146097 + year_start yoe + doy) div 146097 = era"
    using div_mult_self3 [of 146097 era "year_start yoe + doy"] by (simp add: add.assoc)
  have doe: "era * 146097 + year_start yoe + doy - era * 146097 = year_start yoe + doy" by simp
  have y: "year_of_era (year_start yoe + doy) = yoe" by (rule year_of_era_split [OF assms(1-4)])
  have doy: "year_start yoe + doy - (365 * yoe + yoe div 4 - yoe div 100) = doy"
    by (simp add: year_start_def)
  show ?thesis
    unfolding civil_from_days_def assms(5) Let_def date_of_def era doe y doy ..
qed

lemma leap_year_era: "leap_year (yoe + era * 400 + 1) = leap_year (yoe + 1)"
proof -
  have "(yoe + era * 400 + 1) mod 400 = (yoe + 1) mod 400"
    by (metis add.assoc add.commute mod_mult_self1 mult.commute)
  moreover have "x mod 4 = x mod 400 mod 4" "x mod 100 = x mod 400 mod 100" for x :: int
    by (simp_all add: mod_mod_cancel)
  ultimately show ?thesis unfolding leap_year_def by metis
qed

lemma next_date_same_year:
  assumes "0 \<le> doy" "doy + 1 < year_length yoe"
  shows "date_of era yoe (doy + 1) = next_day (date_of era yoe doy)"
proof -
  obtain m d where md: "month_day doy = (m, d)" by (cases "month_day doy")
  have "doy \<le> 364" using assms year_length_bounds(2) [of yoe] by simp
  from month_table [OF assms(1) this, unfolded md prod.case]
  have m12: "m \<le> 12"
    and nx: "month_day (doy + 1) =
      (if m = 2 then (2, d + 1) else if d < month_length 1 m then (m, d + 1)
       else (if m = 12 then 1 else m + 1, 1))"
    and feb: "m = 2 \<Longrightarrow> d = doy - 336" and one: "1 \<le> m"
    and low: "m \<le> 2 \<longleftrightarrow> 306 \<le> doy"
    by blast+
  consider "m = 2" | "m \<noteq> 2" "d < month_length 1 m" | "m = 1" "\<not> d < month_length 1 m"
    | "m = 12" "\<not> d < month_length 1 m" | "2 < m" "m < 12" "\<not> d < month_length 1 m"
    using m12 one by linarith
  then show ?thesis
  proof cases
    case 1
    have "d < month_length (yoe + era * 400 + 1) 2"
      using feb [OF 1] assms by (simp add: month_length_def leap_year_era year_length_def split: if_splits)
    with 1 md nx show ?thesis by (simp add: date_of_def)
  next
    case 2
    with md nx month_length_other [OF 2(1), of "yoe + era * 400"]
      month_length_other [OF 2(1), of "yoe + era * 400 + 1"]
    show ?thesis by (simp add: date_of_def Let_def)
  next
    case 3
    with md nx show ?thesis
      using month_length_other [of m "yoe + era * 400"] month_length_other [of m "yoe + era * 400 + 1"]
      by (simp add: date_of_def)
  next
    case 4
    with md nx show ?thesis
      using month_length_other [of m "yoe + era * 400"] month_length_other [of m "yoe + era * 400 + 1"]
      by (simp add: date_of_def)
  next
    case 5
    with md nx show ?thesis
      using month_length_other [of m "yoe + era * 400"] month_length_other [of m "yoe + era * 400 + 1"]
      by (simp add: date_of_def)
  qed
qed

lemma next_date_new_year:
  assumes "doy + 1 = year_length yoe"
  shows "next_day (date_of era yoe doy) = (yoe + 1 + era * 400, 3, 1)"
  using assms month_day_ends
  by (auto simp: date_of_def year_length_def month_length_def leap_year_era split: if_splits)

lemma civil_next:
  "civil_from_days (n + 1) = next_day (civil_from_days n)"
proof -
  define era where "era = (n + 719468) div 146097"
  define doe where "doe = (n + 719468) mod 146097"
  have n: "n + 719468 = era * 146097 + doe" by (simp add: era_def doe_def)
  obtain yoe doy where y: "0 \<le> yoe" "yoe < 400" "0 \<le> doy" "doy < year_length yoe" "doe = year_start yoe + doy"
    using day_of_era_split [of doe] by (auto simp: doe_def)
  have c: "civil_from_days n = date_of era yoe doy"
    using n y by (intro civil_from_days_split) simp_all
  show ?thesis
  proof (cases "doy + 1 < year_length yoe")
    case True
    have "civil_from_days (n + 1) = date_of era yoe (doy + 1)"
      using n y True by (intro civil_from_days_split) simp_all
    with c next_date_same_year [OF y(3) True] show ?thesis by simp
  next
    case False
    then have last: "doy + 1 = year_length yoe" using y by simp
    have "civil_from_days (n + 1) = (yoe + 1 + era * 400, 3, 1)"
    proof (cases "yoe < 399")
      case True
      have "civil_from_days (n + 1) = date_of era (yoe + 1) 0"
        using n y last year_table(3) [OF y(1,2) True] True year_length_bounds(1) [of "yoe + 1"]
        by (intro civil_from_days_split) simp_all
      then show ?thesis by (simp add: date_of_def month_day_ends)
    next
      case no: False
      then have "yoe = 399" using y by simp
      then have "civil_from_days (n + 1) = date_of (era + 1) 0 0"
        using n y last year_length_bounds(1) [of 0]
        by (intro civil_from_days_split) (simp_all add: year_last year_start_def [of 0])
      with \<open>yoe = 399\<close> show ?thesis by (simp add: date_of_def month_day_ends)
    qed
    with c next_date_new_year [OF last] show ?thesis by simp
  qed
qed

lemma civil_epoch: "civil_from_days 0 = (1970, 1, 1)"
  by code_simp

text \<open>Every date the computation gives exists.\<close>

definition valid_date :: "int \<times> int \<times> int \<Rightarrow> bool" where
  "valid_date = (\<lambda>(y, m, d). 1 \<le> m \<and> m \<le> 12 \<and> 1 \<le> d \<and> d \<le> month_length y m)"

lemma valid_next_day: "valid_date x \<Longrightarrow> valid_date (next_day x)"
  by (cases x) (auto simp: valid_date_def month_length_def)

lemma civil_iterate: "civil_from_days (int n) = (next_day ^^ n) (1970, 1, 1)"
proof (induction n)
  case (Suc n)
  have "civil_from_days (int (Suc n)) = next_day (civil_from_days (int n))"
    using civil_next [of "int n"] by (simp add: add.commute)
  with Suc show ?case by simp
qed (simp add: civil_epoch)

lemma valid_civil: "valid_date (civil_from_days (int n))"
proof (induction n)
  case (Suc n)
  then show ?case using valid_next_day civil_next [of "int n"] by (simp add: add.commute)
qed (simp add: civil_epoch valid_date_def month_length_def)

end
