(* ===== verification/Mbox.thy ===== *)
theory Mbox
  imports Civil_Date Store_Messages
begin

text \<open>
  The mbox format (apps/inbx/src/mbox.rs): separator dates, splitting, From-quoting, and the
  Status and X-Status headers, with the loops of the export command (apps/inbx/src/main.rs).
\<close>

definition LF :: char where
  "LF = CHR 0x0A"

section \<open>Separator dates\<close>

definition DOW :: "string list" where
  "DOW = [''Thu'', ''Fri'', ''Sat'', ''Sun'', ''Mon'', ''Tue'', ''Wed'']"

definition MON :: "string list" where
  "MON = [''Jan'', ''Feb'', ''Mar'', ''Apr'', ''May'', ''Jun'',
     ''Jul'', ''Aug'', ''Sep'', ''Oct'', ''Nov'', ''Dec'']"

text \<open>The year of the March-based calendar is cast to \<^verbatim>\<open>u32\<close> before January's is adjusted.\<close>

definition civil_from_unix :: "int \<Rightarrow> int \<times> int \<times> int \<times> int \<times> int \<times> int" where
  "civil_from_unix secs =
     (let s = secs mod 86400; h = s div 3600; mi = (s mod 3600) div 60; sec = s mod 60;
          (y, mo, d) = civil_from_days (secs div 86400)
      in (if mo \<le> 2 then (y - 1) mod 2 ^ 32 + 1 else y mod 2 ^ 32, mo, d, h, mi, sec))"

definition two_digits :: "int \<Rightarrow> string" where
  "two_digits n = pad_left (CHR ''0'') 2 (show_int n)"

definition format_unix_from_line :: "int \<Rightarrow> string" where
  "format_unix_from_line ts =
     (let secs = max ts 0; (y, mo, d, h, mi, s) = civil_from_unix secs in
      DOW ! nat ((secs div 86400) mod 7) @ '' '' @ MON ! nat (mo - 1) @ '' '' @
      pad_left (CHR '' '') 2 (show_int d) @ '' '' @ two_digits h @ '':'' @ two_digits mi @ '':'' @
      two_digits s @ '' '' @ show_int y)"

section \<open>From-quoting\<close>

definition quote_line :: "string \<Rightarrow> string" where
  "quote_line line =
     (let gts = takeWhile (\<lambda>b. b = CHR ''>'') line; rest = drop (length gts) line in
      if prefix ''From '' rest then gts @ ''>'' @ rest else line)"

definition apply_from_quoting :: "string \<Rightarrow> string" where
  "apply_from_quoting mail =
     (let out = concat (map (\<lambda>line. quote_line line @ [LF]) (split_on LF mail))
      in if out \<noteq> [] \<and> last out = LF then butlast out else out)"

fun strip_quoting_from :: "bool \<Rightarrow> string \<Rightarrow> string" where
  "strip_quoting_from at_line_start [] = []"
| "strip_quoting_from at_line_start (b # s) =
     (if at_line_start \<and> b = CHR ''>'' \<and> prefix ''From '' (dropWhile (\<lambda>b. b = CHR ''>'') (b # s))
      then (case s of [] \<Rightarrow> [] | c # t \<Rightarrow> c # strip_quoting_from (c = LF) t)
      else b # strip_quoting_from (b = LF) s)"

definition strip_from_quoting :: "string \<Rightarrow> string" where
  "strip_from_quoting buf = strip_quoting_from True buf"

section \<open>Splitting\<close>

definition skip_line :: "string \<Rightarrow> string" where
  "skip_line s = drop 1 (dropWhile (\<lambda>b. b \<noteq> LF) s)"

lemma length_skip_line: "s \<noteq> [] \<Longrightarrow> length (skip_line s) < length s"
  using length_dropWhile_le [of "\<lambda>b. b \<noteq> LF" s] by (cases s) (auto simp: skip_line_def)

definition flush :: "string \<Rightarrow> string list" where
  "flush current = (if current = [] then [] else [strip_from_quoting current])"

function split_mbox_from :: "bool \<Rightarrow> string \<Rightarrow> string \<Rightarrow> string list" where
  "split_mbox_from at_line_start current [] = flush current"
| "split_mbox_from at_line_start current (b # s) =
     (if at_line_start \<and> prefix ''From '' (b # s)
      then flush current @ split_mbox_from True [] (skip_line (b # s))
      else split_mbox_from (b = LF) (current @ [b]) s)"
  by pat_completeness auto
termination
  by (relation "measure (\<lambda>(at, current, s). length s)") (auto intro: less_le_trans [OF length_skip_line])

definition split_mbox :: "string \<Rightarrow> string list" where
  "split_mbox buf = split_mbox_from True [] buf"

section \<open>Status headers\<close>

fun header_lines_value :: "string \<Rightarrow> string list \<Rightarrow> string" where
  "header_lines_value name [] = []"
| "header_lines_value name (line # ls) =
     (if line = [] \<or> line = [CHR 0x0D] then []
      else case find_idx (\<lambda>b. b = CHR '':'') line of
        None \<Rightarrow> header_lines_value name ls
      | Some p \<Rightarrow>
          if eq_ignore_ascii_case (trim_ascii (take p line)) name
          then trim_ascii (drop (p + 1) line) else header_lines_value name ls)"

definition header_value :: "string \<Rightarrow> string \<Rightarrow> string" where
  "header_value mail name = header_lines_value name (split_on LF mail)"

definition flags_from_status_headers :: "string \<Rightarrow> string" where
  "flags_from_status_headers mail =
     (let status = header_value mail ''Status''; x_status = header_value mail ''X-Status'' in
      join '' '' ((if CHR ''R'' \<in> set status then [backslash # ''Seen''] else []) @
                (if CHR ''F'' \<in> set x_status then [backslash # ''Flagged''] else []) @
                (if CHR ''A'' \<in> set x_status then [backslash # ''Answered''] else []) @
                (if CHR ''D'' \<in> set x_status then [backslash # ''Deleted''] else []) @
                (if CHR ''T'' \<in> set x_status then [backslash # ''Draft''] else [])))"

definition status_headers_from_flags :: "string \<Rightarrow> string" where
  "status_headers_from_flags fl =
     (let status = (if contains fl (backslash # ''Seen'') then ''R'' else []) @ ''O'';
          x_status = (if contains fl (backslash # ''Flagged'') then ''F'' else []) @
                     (if contains fl (backslash # ''Answered'') then ''A'' else []) @
                     (if contains fl (backslash # ''Deleted'') then ''D'' else []) @
                     (if contains fl (backslash # ''Draft'') then ''T'' else [])
      in (if status \<noteq> [] then ''Status: '' @ status @ [LF] else []) @
         (if x_status \<noteq> [] then ''X-Status: '' @ x_status @ [LF] else []))"

definition is_status_header :: "string \<Rightarrow> bool" where
  "is_status_header stripped =
     (case find_idx (\<lambda>b. b = CHR '':'') stripped of
        None \<Rightarrow> False
      | Some colon \<Rightarrow>
          eq_ignore_ascii_case (trim_ascii (take colon stripped)) ''Status'' \<or>
          eq_ignore_ascii_case (trim_ascii (take colon stripped)) ''X-Status'')"

text \<open>The loop over the lines: what is emitted, and whether the block was.\<close>

fun inject_lines :: "string \<Rightarrow> bool \<Rightarrow> bool \<Rightarrow> string list \<Rightarrow> string" where
  "inject_lines block in_headers written [] = (if written then [] else block)"
| "inject_lines block in_headers written (line # ls) =
     (let stripped = strip_cr line in
      if in_headers \<and> is_status_header stripped then inject_lines block in_headers written ls
      else if in_headers \<and> stripped = [] then
        (if written then [] else block) @ line @ [LF] @ inject_lines block False True ls
      else line @ [LF] @ inject_lines block in_headers written ls)"

definition inject_status_headers :: "string \<Rightarrow> string \<Rightarrow> string" where
  "inject_status_headers mail fl =
     (let block = status_headers_from_flags fl
      in if block = [] then mail else inject_lines block True False (split_on LF mail))"

section \<open>Export\<close>

text \<open>
  The loop of \<^verbatim>\<open>cmd_export\<close> over the listed rows, with its filters in the code's order: the
  text written and the number of messages. \<open>read_file\<close> is the file system.
\<close>

fun export_rows ::
  "(string \<Rightarrow> string option) \<Rightarrow> int option \<Rightarrow> nat option \<Rightarrow> message_row list \<Rightarrow> nat \<Rightarrow> string \<times> nat" where
  "export_rows read_file since limit [] count = ([], count)"
| "export_rows read_file since limit (m # ms) count =
     (if \<exists>t. since = Some t \<and> (case date_unix m of Some u \<Rightarrow> u | None \<Rightarrow> 0) < t
      then export_rows read_file since limit ms count
      else if \<exists>n. limit = Some n \<and> n \<le> count then ([], count)
      else case Option.bind (maildir_path m) read_file of
        None \<Rightarrow> export_rows read_file since limit ms count
      | Some mail \<Rightarrow>
          let from = (case from_addr m of Some a \<Rightarrow> a | None \<Rightarrow> ''MAILER-DAEMON'');
              date = (case date_unix m of Some t \<Rightarrow> format_unix_from_line t
                      | None \<Rightarrow> ''Thu Jan  1 00:00:00 1970'');
              (rest, n) = export_rows read_file since limit ms (count + 1)
          in (''From '' @ from @ '' '' @ date @ [LF] @
              apply_from_quoting (inject_status_headers mail (flags m)) @ [LF] @ rest, n))"

end
