(* ===== verification/Mbox_Props.thy ===== *)
theory Mbox_Props
  imports Mbox
begin

text \<open>Properties of the mbox format: what is exported is read back.\<close>

section \<open>From-quoting\<close>

lemma LF_not_From: "LF \<notin> set ''From ''"
  by (simp add: LF_def)

lemma prefix_line:
  assumes "LF \<notin> set p"
  shows "prefix p (l @ LF # s) \<longleftrightarrow> prefix p l"
proof
  assume p: "prefix p (l @ LF # s)"
  have "length p \<le> length l"
  proof (rule ccontr)
    assume "\<not> length p \<le> length l"
    then have "prefix (l @ [LF]) p"
      by (intro prefix_length_prefix [OF _ p]) simp_all
    then show False using assms by (auto simp: prefix_def)
  qed
  then show "prefix p l" by (intro prefix_length_prefix [OF p]) simp_all
qed simp

definition unquote_line :: "string \<Rightarrow> string" where
  "unquote_line l =
     (if l \<noteq> [] \<and> hd l = CHR ''>'' \<and> prefix ''From '' (dropWhile (\<lambda>b. b = CHR ''>'') l) then tl l else l)"

lemma dropWhile_line:
  "LF \<notin> set l \<Longrightarrow> dropWhile (\<lambda>b. b = CHR ''>'') (l @ LF # s) = dropWhile (\<lambda>b. b = CHR ''>'') l @ LF # s"
  by (induction l) (auto simp: LF_def)

lemma strip_mid_line: "LF \<notin> set l \<Longrightarrow> strip_quoting_from False (l @ LF # s) = l @ LF # strip_quoting_from True s"
  by (induction l) (auto simp: LF_def)

lemma strip_line:
  assumes "LF \<notin> set l"
  shows "strip_quoting_from True (l @ LF # s) = unquote_line l @ LF # strip_quoting_from True s"
proof (cases l)
  case Nil
  then show ?thesis by (simp add: unquote_line_def LF_def)
next
  case (Cons b t)
  let ?P = "\<lambda>b. b = CHR ''>''"
  have p: "prefix ''From '' (dropWhile ?P (l @ LF # s)) \<longleftrightarrow> prefix ''From '' (dropWhile ?P l)"
    unfolding dropWhile_line [OF assms]
    by (rule prefix_line [OF LF_not_From])
  show ?thesis
  proof (cases "b = CHR ''>'' \<and> prefix ''From '' (dropWhile ?P l)")
    case True
    then obtain c u where t: "t = c # u" using Cons by (cases t) auto
    then show ?thesis
      using True Cons p assms strip_mid_line [of u s]
      by (auto simp: unquote_line_def)
  next
    case False
    then show ?thesis
      using Cons p assms strip_mid_line [of t s]
      by (auto simp: unquote_line_def)
  qed
qed

lemma strip_last: "LF \<notin> set l \<Longrightarrow> strip_quoting_from True l = unquote_line l"
proof -
  have mid: "LF \<notin> set u \<Longrightarrow> strip_quoting_from False u = u" for u
    by (induction u) auto
  show "LF \<notin> set l \<Longrightarrow> strip_quoting_from True l = unquote_line l"
    using mid [of "tl l"] mid [of "tl (tl l)"]
    by (cases l; cases "tl l") (auto simp: unquote_line_def)
qed

lemma strip_join:
  "ls \<noteq> [] \<Longrightarrow> \<forall>l \<in> set ls. LF \<notin> set l \<Longrightarrow> strip_from_quoting (join [LF] ls) = join [LF] (map unquote_line ls)"
proof (induction ls rule: induct_list012)
  case (2 l)
  then show ?case by (simp add: strip_from_quoting_def strip_last)
next
  case (3 l m ls)
  then show ?case by (simp add: strip_from_quoting_def strip_line)
qed simp

lemma append_same_char: "set g \<subseteq> {x} \<Longrightarrow> g @ [x] = [x] @ g"
  by (induction g) auto

lemma unquote_quote: "unquote_line (quote_line l) = l"
proof -
  let ?P = "\<lambda>b. b = CHR ''>''"
  let ?g = "takeWhile ?P l" and ?r = "dropWhile ?P l"
  have l: "l = ?g @ ?r" by simp
  have r: "drop (length ?g) l = ?r" by (simp flip: dropWhile_eq_drop)
  show ?thesis
  proof (cases "prefix ''From '' ?r")
    case True
    have "set ?g \<subseteq> {CHR ''>''}" by (auto dest: set_takeWhileD)
    then have "?g @ ''>'' = ''>'' @ ?g" by (rule append_same_char)
    then have "?g @ ''>'' @ ?r = CHR ''>'' # l"
      by (metis append.assoc append_Cons append_Nil l)
    then have q: "quote_line l = CHR ''>'' # l"
      using True by (simp only: quote_line_def Let_def r if_True)
    moreover have "dropWhile ?P (CHR ''>'' # l) = ?r" by simp
    ultimately show ?thesis using True by (simp add: unquote_line_def)
  next
    case False
    then have q: "quote_line l = l" by (simp add: quote_line_def Let_def r)
    with False show ?thesis by (simp add: unquote_line_def)
  qed
qed

lemma concat_lines: "ls \<noteq> [] \<Longrightarrow> concat (map (\<lambda>l. l @ [x]) ls) = join [x] ls @ [x]"
  by (induction ls rule: induct_list012) auto

lemma quote_join: "apply_from_quoting mail = join [LF] (map quote_line (split_on LF mail))"
proof -
  have "concat (map (\<lambda>line. quote_line line @ [LF]) (split_on LF mail)) =
      join [LF] (map quote_line (split_on LF mail)) @ [LF]"
    using concat_lines [of "map quote_line (split_on LF mail)" LF] by (simp add: comp_def)
  then show ?thesis by (simp add: apply_from_quoting_def Let_def)
qed

lemma set_quote_line: "set (quote_line l) \<subseteq> insert (CHR ''>'') (set l)"
proof -
  have "set (takeWhile P l) \<subseteq> set l" "set (drop n l) \<subseteq> set l" for P n
    by (auto dest: set_takeWhileD in_set_dropD)
  then show ?thesis unfolding quote_line_def Let_def by auto
qed

lemma LF_quote_line: "LF \<notin> set l \<Longrightarrow> LF \<notin> set (quote_line l)"
  using set_quote_line [of l] by (auto simp: LF_def)

lemma strip_quoted: "ls \<noteq> [] \<Longrightarrow> \<forall>l \<in> set ls. LF \<notin> set l \<Longrightarrow>
    strip_from_quoting (join [LF] (map quote_line ls)) = join [LF] ls"
  using strip_join [of "map quote_line ls"]
  by (simp add: LF_quote_line comp_def unquote_quote)

text \<open>
  From-quoting is undone by stripping it, for every byte string: lines that begin with
  \<open>From\<close>, lines that are quoted already, and a missing or repeated final line feed come back
  as they were.
\<close>

theorem from_quoting_roundtrip: "strip_from_quoting (apply_from_quoting mail) = mail"
  using strip_quoted [of "split_on LF mail"] split_on_pieces [of _ LF mail]
  by (auto simp: quote_join join_split_on)

section \<open>Splitting\<close>

lemma not_From_quote: "\<not> prefix ''From '' (quote_line l)"
proof -
  let ?P = "\<lambda>b. b = CHR ''>''"
  have r: "drop (length (takeWhile ?P l)) l = dropWhile ?P l" by (simp flip: dropWhile_eq_drop)
  show ?thesis
  proof (cases "prefix ''From '' (dropWhile ?P l)")
    case True
    show ?thesis
    proof (cases "takeWhile ?P l")
      case Nil
      with True show ?thesis by (simp add: quote_line_def Let_def r)
    next
      case (Cons c g)
      then have "c = CHR ''>''" using set_takeWhileD [of c ?P l] by simp
      moreover have "quote_line l = c # g @ ''>'' @ dropWhile ?P l"
        by (subst quote_line_def) (use True r Cons in \<open>simp add: Let_def\<close>)
      ultimately show ?thesis by simp
    qed
  next
    case False
    then have "\<not> prefix ''From '' l"
      by (cases l) auto
    with False show ?thesis by (simp add: quote_line_def Let_def r)
  qed
qed

lemma split_mid_line:
  "LF \<notin> set l \<Longrightarrow> split_mbox_from False cur (l @ LF # s) = split_mbox_from True (cur @ l @ [LF]) s"
  by (induction l arbitrary: cur) auto

lemma split_line:
  assumes "LF \<notin> set l" "\<not> prefix ''From '' l"
  shows "split_mbox_from True cur (l @ LF # s) = split_mbox_from True (cur @ l @ [LF]) s"
proof (cases l)
  case Nil
  then show ?thesis by (simp add: LF_def)
next
  case (Cons b t)
  have "\<not> prefix ''From '' (b # t @ LF # s)"
    using assms(2) prefix_line [OF LF_not_From, of l s] Cons by simp
  with Cons assms(1) split_mid_line [of t "cur @ [b]" s] show ?thesis by auto
qed

lemma split_lines:
  "\<forall>l \<in> set ls. LF \<notin> set l \<and> \<not> prefix ''From '' l \<Longrightarrow>
     split_mbox_from True cur (concat (map (\<lambda>l. l @ [LF]) ls) @ s) =
     split_mbox_from True (cur @ concat (map (\<lambda>l. l @ [LF]) ls)) s"
  by (induction ls arbitrary: cur) (simp_all add: split_line)

lemma split_separator:
  assumes "LF \<notin> set h"
  shows "split_mbox_from True cur (''From '' @ h @ LF # s) = flush cur @ split_mbox_from True [] s"
proof -
  have "skip_line (''From '' @ h @ LF # s) = s"
  proof -
    have "dropWhile (\<lambda>b. b \<noteq> LF) ((''From '' @ h) @ LF # s) = LF # s"
      using assms LF_not_From by (subst dropWhile_append2) auto
    then show ?thesis by (simp add: skip_line_def)
  qed
  then show ?thesis by simp
qed

text \<open>One exported message: the separator, the quoted text, a line feed.\<close>

definition mbox_entry :: "string \<times> string \<Rightarrow> string" where
  "mbox_entry e = ''From '' @ fst e @ [LF] @ apply_from_quoting (snd e) @ [LF]"

lemma quoted_lines: "apply_from_quoting mail @ [LF] = concat (map (\<lambda>l. l @ [LF]) (map quote_line (split_on LF mail)))"
  by (subst concat_lines) (simp_all add: quote_join)

lemma flush_quoted: "flush (apply_from_quoting mail @ [LF]) = [mail @ [LF]]"
proof -
  let ?ls = "split_on LF mail @ [[]]"
  have "join [x] (us @ [[]]) = join [x] us @ [x]" if "us \<noteq> []" for x :: char and us
    using that by (induction us rule: induct_list012) auto
  then have "apply_from_quoting mail @ [LF] = join [LF] (map quote_line ?ls)"
    by (simp add: quote_join quote_line_def)
  moreover have "join [LF] ?ls = mail @ [LF]"
    using \<open>\<And>x us. us \<noteq> [] \<Longrightarrow> join [x] (us @ [[]]) = join [x] us @ [x]\<close>
    by (simp add: join_split_on)
  ultimately have "strip_from_quoting (apply_from_quoting mail @ [LF]) = mail @ [LF]"
    using strip_quoted [of ?ls] split_on_pieces [of _ LF mail] by auto
  then show ?thesis by (simp add: flush_def)
qed

lemma split_entries:
  assumes "\<forall>e \<in> set es. LF \<notin> set (fst e)"
  shows "split_mbox_from True cur (concat (map mbox_entry es)) = flush cur @ map (\<lambda>e. snd e @ [LF]) es"
  using assms
proof (induction es arbitrary: cur)
  case (Cons e es)
  let ?s = "concat (map mbox_entry es)"
  have "\<forall>l \<in> set (map quote_line (split_on LF (snd e))). LF \<notin> set l \<and> \<not> prefix ''From '' l"
    using split_on_pieces [of _ LF "snd e"] by (auto simp: LF_quote_line not_From_quote)
  from split_lines [OF this, of "[]" ?s]
  have "split_mbox_from True [] ((apply_from_quoting (snd e) @ [LF]) @ ?s) =
      split_mbox_from True (apply_from_quoting (snd e) @ [LF]) ?s"
    by (simp only: quoted_lines append_Nil)
  moreover have "split_mbox_from True cur (mbox_entry e @ ?s) =
      flush cur @ split_mbox_from True [] ((apply_from_quoting (snd e) @ [LF]) @ ?s)"
  proof -
    have "LF \<notin> set (fst e)" using Cons.prems by simp
    from split_separator [OF this, of cur "(apply_from_quoting (snd e) @ [LF]) @ ?s"]
    show ?thesis by (simp only: mbox_entry_def append.assoc append_Cons append_Nil)
  qed
  ultimately show ?case
    using Cons.IH [of "apply_from_quoting (snd e) @ [LF]"] Cons.prems by (simp add: flush_quoted)
qed simp

lemma split_mbox_entries:
  assumes "\<forall>e \<in> set es. LF \<notin> set (fst e)"
  shows "split_mbox (concat (map mbox_entry es)) = map (\<lambda>e. snd e @ [LF]) es"
  using split_entries [OF assms, of "[]"] by (simp add: split_mbox_def flush_def)

section \<open>Dates\<close>

lemma year_iterate: "fst ((next_day ^^ n) (1970, 1, 1)) \<in> {1970..1970 + int n}"
proof (induction n)
  case (Suc n)
  obtain y m d where "(next_day ^^ n) (1970, 1, 1) = (y, m, d)" by (cases "(next_day ^^ n) (1970, 1, 1)")
  with Suc show ?case by simp
qed simp

lemma civil_from_unix_date:
  assumes "0 \<le> ts" "ts < 86400 * 2 ^ 31"
  shows "civil_from_unix ts =
     (let (y, mo, d) = (next_day ^^ nat (ts div 86400)) (1970, 1, 1); s = ts mod 86400
      in (y, mo, d, s div 3600, s mod 3600 div 60, s mod 60))"
proof -
  let ?n = "nat (ts div 86400)"
  obtain y mo d where c: "(next_day ^^ ?n) (1970, 1, 1) = (y, mo, d)"
    by (cases "(next_day ^^ ?n) (1970, 1, 1)")
  have days: "int ?n = ts div 86400" "ts div 86400 < 2 ^ 31" using assms by simp_all
  then have "y \<in> {1970..1970 + int ?n}" using year_iterate [of ?n] c by simp
  then have "1 \<le> y" "y < 2 ^ 32" using days by simp_all
  then have y: "(y - 1) mod 2 ^ 32 + 1 = y" "y mod 2 ^ 32 = y" by simp_all
  have "civil_from_days (ts div 86400) = (y, mo, d)" using civil_iterate [of ?n] days c by simp
  with c y show ?thesis by (simp add: civil_from_unix_def Let_def)
qed

lemma civil_from_unix_month:
  assumes "civil_from_unix (max ts 0) = (y, mo, d, h, mi, s)"
  shows "1 \<le> mo" "mo \<le> 12"
proof -
  let ?n = "nat (max ts 0 div 86400)"
  have "int ?n = max ts 0 div 86400" by simp
  then have "valid_date (civil_from_days (max ts 0 div 86400))" using valid_civil [of ?n] by simp
  then show "1 \<le> mo" "mo \<le> 12"
    using assms by (auto simp: civil_from_unix_def Let_def valid_date_def split: prod.splits)
qed

lemma LF_show_int: "LF \<notin> set (show_int i)"
proof -
  have "LF \<notin> set (show_nat n)" for n
    using show_nat_digits [of LF n] by (auto simp: LF_def is_ascii_digit_def byte_def)
  then show ?thesis by (simp add: show_int_def LF_def)
qed

lemma LF_names: "l \<in> set DOW \<Longrightarrow> LF \<notin> set l" "l \<in> set MON \<Longrightarrow> LF \<notin> set l"
  by (auto simp: DOW_def MON_def LF_def)

lemma LF_pad: "c \<noteq> LF \<Longrightarrow> LF \<notin> set s \<Longrightarrow> LF \<notin> set (pad_left c n s)"
  by (auto simp: pad_left_def)

lemma LF_format: "LF \<notin> set (format_unix_from_line ts)"
proof -
  obtain y mo d h mi s where c: "civil_from_unix (max ts 0) = (y, mo, d, h, mi, s)"
    by (cases "civil_from_unix (max ts 0)")
  have "nat (max ts 0 div 86400 mod 7) < length DOW" by (simp add: DOW_def)
  then have dow: "LF \<notin> set (DOW ! nat (max ts 0 div 86400 mod 7))" by (intro LF_names nth_mem)
  have "nat (mo - 1) < length MON" using civil_from_unix_month [OF c] by (simp add: MON_def)
  then have mon: "LF \<notin> set (MON ! nat (mo - 1))" by (intro LF_names nth_mem)
  have "LF \<notin> set (two_digits n)" for n
    unfolding two_digits_def by (intro LF_pad LF_show_int) (simp add: LF_def)
  moreover have "LF \<notin> set (pad_left (CHR '' '') 2 (show_int d))"
    by (intro LF_pad LF_show_int) (simp add: LF_def)
  ultimately show ?thesis
    using dow mon LF_show_int [of y] by (simp add: format_unix_from_line_def Let_def c) (simp add: LF_def)
qed

section \<open>Export\<close>

text \<open>The messages an export writes: readable, not older than \<open>since\<close>, the first \<open>limit\<close> of them.\<close>

definition exported ::
  "(string \<Rightarrow> string option) \<Rightarrow> int option \<Rightarrow> nat option \<Rightarrow> message_row list \<Rightarrow> (message_row \<times> string) list" where
  "exported read_file since limit ms =
     (let recent = filter (\<lambda>m. case since of None \<Rightarrow> True
                               | Some t \<Rightarrow> t \<le> (case date_unix m of Some u \<Rightarrow> u | None \<Rightarrow> 0)) ms;
          found = List.map_filter (\<lambda>m. map_option (Pair m) (Option.bind (maildir_path m) read_file)) recent
      in case limit of None \<Rightarrow> found | Some n \<Rightarrow> take n found)"

definition entry_of :: "message_row \<times> string \<Rightarrow> string \<times> string" where
  "entry_of = (\<lambda>(m, mail).
     ((case from_addr m of Some a \<Rightarrow> a | None \<Rightarrow> ''MAILER-DAEMON'') @ '' '' @
      (case date_unix m of Some t \<Rightarrow> format_unix_from_line t | None \<Rightarrow> ''Thu Jan  1 00:00:00 1970''),
      inject_status_headers mail (flags m)))"

lemma mbox_entry_of:
  "mbox_entry (entry_of (m, mail)) =
     ''From '' @ (case from_addr m of Some a \<Rightarrow> a | None \<Rightarrow> ''MAILER-DAEMON'') @ '' '' @
     (case date_unix m of Some t \<Rightarrow> format_unix_from_line t | None \<Rightarrow> ''Thu Jan  1 00:00:00 1970'') @
     [LF] @ apply_from_quoting (inject_status_headers mail (flags m)) @ [LF]"
  by (simp add: mbox_entry_def entry_of_def)

lemma LF_entry_of:
  "\<forall>a. from_addr m = Some a \<longrightarrow> LF \<notin> set a \<Longrightarrow> LF \<notin> set (fst (entry_of (m, mail)))"
  by (simp add: entry_of_def LF_format split: option.split) (simp add: LF_def)

lemma exported_rows: "(m, mail) \<in> set (exported read_file since limit ms) \<Longrightarrow> m \<in> set ms"
  by (auto simp: exported_def Let_def List.map_filter_def split: option.splits dest!: in_set_takeD)

lemma export_rows_exported:
  "export_rows read_file since limit ms k =
     (let es = exported read_file since (map_option (\<lambda>n. n - k) limit) ms
      in (concat (map (\<lambda>e. mbox_entry (entry_of e)) es), k + length es))"
proof (induction read_file since limit ms k rule: export_rows.induct)
  case (1 read_file since limit k)
  then show ?case by (simp add: exported_def Let_def List.map_filter_def split: option.split)
next
  case (2 read_file since limit m ms k)
  let ?skip = "\<exists>t. since = Some t \<and> (case date_unix m of Some u \<Rightarrow> u | None \<Rightarrow> 0) < t"
  let ?full = "\<exists>n. limit = Some n \<and> n \<le> k"
  show ?case
  proof (cases ?skip)
    case True
    then have "exported read_file since l (m # ms) = exported read_file since l ms" for l
      by (auto simp: exported_def)
    with 2(1) [OF True] True show ?thesis by simp
  next
    case recent: False
    then have keep: "(case since of None \<Rightarrow> True
        | Some t \<Rightarrow> t \<le> (case date_unix m of Some u \<Rightarrow> u | None \<Rightarrow> 0))"
      by (auto simp: not_less split: option.split)
    show ?thesis
    proof (cases ?full)
      case True
      then have "exported read_file since (map_option (\<lambda>n. n - k) limit) (m # ms) = []"
        by (auto simp: exported_def)
      with True recent show ?thesis by auto
    next
      case room: False
      show ?thesis
      proof (cases "Option.bind (maildir_path m) read_file")
        case None
        have "export_rows read_file since limit (m # ms) k = export_rows read_file since limit ms k"
          using recent room None by auto
        with 2(2) [OF recent room None] None keep show ?thesis
          by (simp add: exported_def map_filter_simps)
      next
        case (Some mail)
        have step: "exported read_file since (map_option (\<lambda>n. n - k) limit) (m # ms) =
            (m, mail) # exported read_file since (map_option (\<lambda>n. n - (k + 1)) limit) ms"
          using keep Some room
          by (cases limit) (simp_all add: exported_def map_filter_simps take_Cons' Let_def)
        have "\<not> ?skip" "\<not> ?full" using recent room by blast+
        then show ?thesis
          using 2(3) [OF recent room Some refl refl] Some
          by (simp add: step Let_def mbox_entry_of del: not_ex)
      qed
    qed
  qed
qed


text \<open>
  C24. Exporting and importing agree: for every store listing, every filter, and every content
  of the mail files, the text that the export loop writes splits back into the messages it
  chose (readable, recent enough, at most the limit), in order, each with its status headers
  and the line feed that ends its entry, and the count returned is theirs. Senders must not
  hold a line feed, since they are written into the separator line as they are.
\<close>

theorem export_rows_roundtrip:
  assumes "\<forall>m \<in> set ms. \<forall>a. from_addr m = Some a \<longrightarrow> LF \<notin> set a"
  shows "split_mbox (fst (export_rows read_file since limit ms 0)) =
      map (\<lambda>(m, mail). inject_status_headers mail (flags m) @ [LF]) (exported read_file since limit ms) \<and>
    snd (export_rows read_file since limit ms 0) = length (exported read_file since limit ms)"
proof -
  let ?es = "exported read_file since limit ms"
  have rows: "export_rows read_file since limit ms 0 =
      (concat (map mbox_entry (map entry_of ?es)), length ?es)"
    using export_rows_exported [of read_file since limit ms 0] by (simp add: option.map_ident comp_def Let_def)
  have "\<forall>e \<in> set (map entry_of ?es). LF \<notin> set (fst e)"
    using assms exported_rows by (auto intro!: LF_entry_of)
  from split_mbox_entries [OF this] show ?thesis
    by (simp add: rows) (auto simp: entry_of_def)
qed


definition m_export :: message_row where
  "m_export =
     \<lparr>folder = ''INBOX'', uid = 1, uidvalidity = 1, message_id = None, subject = None,
      from_addr = Some ''a@b'', to_addrs = None, date_unix = Some 1234567890, flags = backslash # ''Seen'',
      maildir_path = Some ''p'', headers_only = 0, fetched_at_unix = 0, in_reply_to = None,
      refs = None, thread_id = None, provider_id = None\<rparr>"

theorem export_rows_roundtrip_witness:
  "split_mbox (fst (export_rows (\<lambda>p. Some (''Subject: x'' @ [LF, LF] @ ''From me'')) (Some 7) (Some 1)
       [m_export\<lparr>date_unix := None\<rparr>, m_export, m_export] 0)) =
     [''Subject: x'' @ [LF] @ ''Status: RO'' @ [LF, LF] @ ''From me'' @ [LF, LF]]"
proof -
  let ?read = "\<lambda>p. Some (''Subject: x'' @ [LF, LF] @ ''From me'')"
  let ?ms = "[m_export\<lparr>date_unix := None\<rparr>, m_export, m_export]"
  have "\<forall>m \<in> set ?ms. \<forall>a. from_addr m = Some a \<longrightarrow> LF \<notin> set a"
    by (simp add: m_export_def LF_def)
  note r = export_rows_roundtrip [OF this, of ?read "Some 7" "Some 1", THEN conjunct1]
  have e: "exported ?read (Some 7) (Some 1) ?ms =
      [(m_export, ''Subject: x'' @ [LF, LF] @ ''From me'')]"
    by (simp add: exported_def map_filter_simps m_export_def Let_def)
  have "inject_status_headers (''Subject: x'' @ [LF, LF] @ ''From me'') (flags m_export) @ [LF] =
      ''Subject: x'' @ [LF] @ ''Status: RO'' @ [LF, LF] @ ''From me'' @ [LF, LF]"
    by code_simp
  then show ?thesis by (simp only: r e list.map prod.case)
qed

end
