(* ===== verification/Utf8_Lossy.thy ===== *)
theory Utf8_Lossy
  imports Rust_Str
begin

text \<open>
  \<^verbatim>\<open>String::from_utf8_lossy\<close>: the bytes are cut into the longest well-formed prefixes of
  Unicode's table of byte sequences; each maximal ill-formed piece becomes U+FFFD.
\<close>

definition between :: "nat \<Rightarrow> nat \<Rightarrow> string \<Rightarrow> nat \<Rightarrow> bool" where
  "between lo hi s i \<longleftrightarrow> i < length s \<and> lo \<le> byte (s ! i) \<and> byte (s ! i) \<le> hi"

text \<open>Whether the sequence at the head of a non-empty list is well formed, and its length.\<close>

definition utf8_step :: "string \<Rightarrow> bool \<times> nat" where
  "utf8_step s =
     (let b = byte (hd s); cont = between 0x80 0xBF s;
          second3 = (if b = 0xE0 then between 0xA0 0xBF s 1
                     else if b = 0xED then between 0x80 0x9F s 1 else cont 1);
          second4 = (if b = 0xF0 then between 0x90 0xBF s 1
                     else if b = 0xF4 then between 0x80 0x8F s 1 else cont 1)
      in if b < 0x80 then (True, 1)
         else if 0xC2 \<le> b \<and> b \<le> 0xDF then (if cont 1 then (True, 2) else (False, 1))
         else if 0xE0 \<le> b \<and> b \<le> 0xEF then
           (if \<not> second3 then (False, 1) else if cont 2 then (True, 3) else (False, 2))
         else if 0xF0 \<le> b \<and> b \<le> 0xF4 then
           (if \<not> second4 then (False, 1) else if \<not> cont 2 then (False, 2)
            else if cont 3 then (True, 4) else (False, 3))
         else (False, 1))"

definition replacement :: string where
  "replacement = [CHR 0xEF, CHR 0xBF, CHR 0xBD]"

lemma utf8_step_pos: "0 < snd (utf8_step s)"
  by (simp add: utf8_step_def Let_def)

function from_utf8_lossy :: "string \<Rightarrow> string" where
  "from_utf8_lossy s =
     (if s = [] then []
      else let (ok, n) = utf8_step s
           in (if ok then take n s else replacement) @ from_utf8_lossy (drop n s))"
  by pat_completeness auto
termination
proof (relation "measure length")
  fix s :: string and x ok n
  assume "s \<noteq> []" "x = utf8_step s" "(ok, n) = x"
  moreover from this have "0 < n" using utf8_step_pos [of s] by (metis snd_conv)
  ultimately show "(drop n s, s) \<in> measure length" by (cases s) auto
qed simp

declare from_utf8_lossy.simps [simp del]

lemma from_utf8_lossy_Nil [simp]: "from_utf8_lossy [] = []"
  by (simp add: from_utf8_lossy.simps)

text \<open>Well-formed text comes through unchanged; ASCII text is well formed.\<close>

definition utf8 :: "string \<Rightarrow> bool" where
  "utf8 s \<longleftrightarrow> from_utf8_lossy s = s"

lemma from_utf8_lossy_ascii: "byte c < 0x80 \<Longrightarrow> from_utf8_lossy (c # s) = c # from_utf8_lossy s"
  by (subst from_utf8_lossy.simps) (simp add: utf8_step_def)

lemma utf8_ascii: "\<forall>c \<in> set s. byte c < 0x80 \<Longrightarrow> utf8 s"
  by (induction s) (simp_all add: utf8_def from_utf8_lossy_ascii)

lemma utf8_ascii_append: "\<forall>c \<in> set a. byte c < 0x80 \<Longrightarrow> utf8 s \<Longrightarrow> utf8 (a @ s)"
  by (induction a) (simp_all add: utf8_def from_utf8_lossy_ascii)

text \<open>The text never gets shorter, and at most three times as long.\<close>

lemma utf8_step_bounds:
  assumes "s \<noteq> []" "utf8_step s = (ok, n)"
  shows "n \<le> length s" "\<not> ok \<Longrightarrow> n \<le> 3"
proof -
  have "1 \<le> length s" using assms(1) by (cases s) auto
  then show "n \<le> length s"
    using assms(2) by (auto simp: utf8_step_def Let_def between_def split: if_splits)
  show "\<not> ok \<Longrightarrow> n \<le> 3"
    using assms(2) by (auto simp: utf8_step_def Let_def split: if_splits)
qed

lemma length_from_utf8_lossy:
  "length s \<le> length (from_utf8_lossy s) \<and> length (from_utf8_lossy s) \<le> 3 * length s"
proof (induction s rule: from_utf8_lossy.induct)
  case (1 s)
  show ?case
  proof (cases "s = []")
    case False
    obtain ok n where u: "utf8_step s = (ok, n)" by (cases "utf8_step s")
    have "from_utf8_lossy s = (if ok then take n s else replacement) @ from_utf8_lossy (drop n s)"
      using False u by (subst from_utf8_lossy.simps) simp
    moreover have "length (drop n s) \<le> length (from_utf8_lossy (drop n s)) \<and>
        length (from_utf8_lossy (drop n s)) \<le> 3 * length (drop n s)"
      using "1.IH" [OF False, of "(ok, n)" ok n] u by simp
    moreover have "0 < n" using utf8_step_pos [of s] u by simp
    ultimately show ?thesis
      using utf8_step_bounds [OF False u] by (auto simp: replacement_def)
  qed simp
qed

end
