(* ===== verification/Sieve.thy ===== *)
theory Sieve
  imports Utf8_Lossy Store_Schema
begin

text \<open>
  The ManageSieve client (crates/inbx-net/src/sieve.rs). A session is the bytes the server
  has still to send and the bytes the client has sent; a read that runs out of bytes is the
  I/O error of a closed connection. The limits on a response are the code's constants, and
  parameters of the reader as in the code. Base64 and the OAuth access are parameters.
\<close>

section \<open>Types and limits\<close>

datatype sieve_error = Closed | Server string | Protocol string

record limits =
  max_line :: nat
  max_literal :: nat
  max_response :: nat
  max_records :: nat

definition DEFAULT_LIMITS :: limits where
  "DEFAULT_LIMITS =
     \<lparr>max_line = 64 * 1024, max_literal = 16 * 1024 * 1024,
      max_response = 32 * 1024 * 1024, max_records = 10000\<rparr>"

record sieve_script =
  script_name :: string
  active :: bool

record session =
  incoming :: string
  outgoing :: string

section \<open>Parsing\<close>

definition is_tagged_response :: "string \<Rightarrow> bool" where
  "is_tagged_response line =
     (let upper = to_ascii_uppercase line
      in prefix ''OK'' upper \<or> prefix ''NO'' upper \<or> prefix ''BYE'' upper)"

definition parse_literal_len :: "string \<Rightarrow> nat option" where
  "parse_literal_len line =
     (let trimmed = trim line in
      if trimmed = [] \<or> last trimmed \<noteq> CHR ''}'' then None
      else case rfind_idx (\<lambda>b. b = CHR ''{'') trimmed of
             None \<Rightarrow> None
           | Some i \<Rightarrow>
               parse_usize (trim_end_matches (\<lambda>b. b = CHR ''+'') (butlast (drop (i + 1) trimmed))))"

definition parse_quoted :: "string \<Rightarrow> string option" where
  "parse_quoted line =
     (case find_idx (\<lambda>b. b = CHR 0x22) line of
        None \<Rightarrow> None
      | Some i \<Rightarrow>
          (case find_idx (\<lambda>b. b = CHR 0x22) (drop (i + 1) line) of
             None \<Rightarrow> None
           | Some j \<Rightarrow> Some (take j (drop (i + 1) line))))"

definition quote_escape :: "string \<Rightarrow> string" where
  "quote_escape s = replace_sub [CHR 0x22] [CHR 0x5C, CHR 0x22] (replace_sub [CHR 0x5C] [CHR 0x5C, CHR 0x5C] s)"

section \<open>Reading a response\<close>

text \<open>The readers return the bytes that are left, with an error too.\<close>

fun read_line :: "nat \<Rightarrow> string \<Rightarrow> string \<Rightarrow> string \<times> (sieve_error + string)" where
  "read_line lim buf [] = ([], Inl Closed)"
| "read_line lim buf (b # s) =
     (if b = CHR 0x0A then (s, Inr (from_utf8_lossy (strip_cr buf)))
      else if length buf = lim then (s, Inl (Protocol ''response line exceeds limit''))
      else read_line lim (buf @ [b]) s)"

text \<open>\<^verbatim>\<open>checked_add\<close> on \<^verbatim>\<open>usize\<close>, and the check of the aggregate limit after it.\<close>

definition add_bounded :: "nat \<Rightarrow> nat \<Rightarrow> nat \<Rightarrow> sieve_error + nat" where
  "add_bounded limit a b =
     (if a + b < 2 ^ 64 \<and> a + b \<le> limit then Inr (a + b)
      else Inl (Protocol ''response exceeds aggregate limit''))"

text \<open>A literal's payload and its delimiter line; the byte count goes on from \<open>n\<close>.\<close>

definition read_literal :: "limits \<Rightarrow> nat \<Rightarrow> nat \<Rightarrow> string \<Rightarrow> string \<times> (sieve_error + string \<times> nat)" where
  "read_literal lim n len s =
     (if max_literal lim < len then (s, Inl (Protocol ''literal exceeds limit''))
      else case add_bounded (max_response lim) n len of
        Inl e \<Rightarrow> (s, Inl e)
      | Inr n1 \<Rightarrow>
          if length s < len then ([], Inl Closed)
          else (case read_line (max_line lim) [] (drop len s) of
              (s2, Inl e) \<Rightarrow> (s2, Inl e)
            | (s2, Inr delimiter) \<Rightarrow>
                (s2, and_then (add_bounded (max_response lim) n1 (length delimiter + 1))
                   (\<lambda>n2. if delimiter \<noteq> [] then Inl (Protocol ''literal delimiter is not empty'')
                         else Inr (from_utf8_lossy (take len s), n2)))))"

lemma length_read_line: "s \<noteq> [] \<Longrightarrow> length (fst (read_line lim buf s)) < length s"
proof (induction lim buf s rule: read_line.induct)
  case (2 lim buf b s)
  then show ?case by (cases "s = []") (auto simp: less_Suc_eq)
qed simp

lemma read_line_Inr: "read_line lim buf s = (s', Inr l) \<Longrightarrow> length s' < length s"
  using length_read_line [of s lim buf] by (cases "s = []") auto

lemma read_literal_Inr: "read_literal lim n len s = (s', Inr r) \<Longrightarrow> length s' < length s"
  by (auto simp: read_literal_def split: if_splits sum.splits prod.splits dest!: read_line_Inr)

function read_response ::
  "limits \<Rightarrow> string list \<Rightarrow> nat \<Rightarrow> string \<Rightarrow> string \<times> (sieve_error + string list \<times> string)" where
  "read_response lim got n s =
     (case read_line (max_line lim) [] s of
        (s1, Inl e) \<Rightarrow> (s1, Inl e)
      | (s1, Inr line) \<Rightarrow>
          if is_tagged_response line
          then (s1, if prefix ''OK'' line then Inr (got, line) else Inl (Server line))
          else if length got = max_records lim
          then (s1, Inl (Protocol ''response record count exceeds limit''))
          else (case add_bounded (max_response lim) n (length line) of
              Inl e \<Rightarrow> (s1, Inl e)
            | Inr n1 \<Rightarrow>
                (case parse_literal_len line of
                   None \<Rightarrow> read_response lim (got @ [line]) n1 s1
                 | Some len \<Rightarrow>
                     (case read_literal lim n1 len s1 of
                        (s2, Inl e) \<Rightarrow> (s2, Inl e)
                      | (s2, Inr (payload, n2)) \<Rightarrow> read_response lim (got @ [payload]) n2 s2))))"
  by pat_completeness auto
termination
  by (relation "measure (\<lambda>(lim, got, n, s). length s)")
     (auto dest!: read_line_Inr [OF sym] read_literal_Inr [OF sym])

declare read_response.simps [simp del]

definition read_until_done :: "session \<Rightarrow> session \<times> (sieve_error + string list \<times> string)" where
  "read_until_done st =
     (let (s, r) = read_response DEFAULT_LIMITS [] 0 (incoming st) in (st\<lparr>incoming := s\<rparr>, r))"

section \<open>Commands\<close>

definition write_line :: "string \<Rightarrow> session \<Rightarrow> session" where
  "write_line line st = st\<lparr>outgoing := outgoing st @ line @ crlf\<rparr>"

text \<open>A command whose answer only has to be OK.\<close>

definition expect_ok :: "session \<times> (sieve_error + string list \<times> string) \<Rightarrow> session \<times> (sieve_error + unit)" where
  "expect_ok sr = (fst sr, and_then (snd sr) (\<lambda>_. Inr ()))"

definition authenticate_plain :: "(string \<Rightarrow> string) \<Rightarrow> string \<Rightarrow> string \<Rightarrow> session \<Rightarrow> session \<times> (sieve_error + unit)" where
  "authenticate_plain b64 user password st =
     expect_ok (read_until_done (write_line
       (''AUTHENTICATE '' @ dquote ''PLAIN'' @ '' '' @
        dquote (b64 ([CHR 0x00] @ user @ [CHR 0x00] @ password))) st))"

definition xoauth2_sasl_string :: "(string \<Rightarrow> string) \<Rightarrow> string \<Rightarrow> string \<Rightarrow> string" where
  "xoauth2_sasl_string b64 email access =
     b64 (''user='' @ email @ [CHR 0x01] @ ''auth=Bearer '' @ access @ [CHR 0x01, CHR 0x01])"

definition authenticate_xoauth2 :: "(string \<Rightarrow> string) \<Rightarrow> string \<Rightarrow> string \<Rightarrow> session \<Rightarrow> session \<times> (sieve_error + unit)" where
  "authenticate_xoauth2 b64 email access st =
     expect_ok (read_until_done (write_line
       (''AUTHENTICATE '' @ dquote ''XOAUTH2'' @ '' '' @ dquote (xoauth2_sasl_string b64 email access)) st))"

datatype auth_method = App_Password string string | OAuth2 string string

text \<open>From the established TLS stream on: the greeting, then the authentication.\<close>

definition connect :: "(string \<Rightarrow> string) \<Rightarrow> auth_method \<Rightarrow> string \<Rightarrow> session \<times> (sieve_error + unit)" where
  "connect b64 auth stream =
     (case read_until_done \<lparr>incoming = stream, outgoing = []\<rparr> of
        (st, Inl e) \<Rightarrow> (st, Inl e)
      | (st, Inr _) \<Rightarrow>
          (case auth of
             App_Password user password \<Rightarrow> authenticate_plain b64 user password st
           | OAuth2 email access \<Rightarrow> authenticate_xoauth2 b64 email access st))"

definition logout :: "session \<Rightarrow> session" where
  "logout st = fst (read_until_done (write_line ''LOGOUT'' st))"

definition scripts_of_lines :: "string list \<Rightarrow> sieve_script list" where
  "scripts_of_lines ls =
     filter (\<lambda>s. script_name s \<noteq> [])
       (map (\<lambda>line. \<lparr>script_name = (case parse_quoted line of Some n \<Rightarrow> n | None \<Rightarrow> []),
                     active = contains (to_ascii_uppercase line) ''ACTIVE''\<rparr>) ls)"

definition list_scripts :: "session \<Rightarrow> session \<times> (sieve_error + sieve_script list)" where
  "list_scripts st =
     (let (st', r) = read_until_done (write_line ''LISTSCRIPTS'' st)
      in (st', and_then r (\<lambda>(ls, tag). Inr (scripts_of_lines ls))))"

definition get_script :: "string \<Rightarrow> session \<Rightarrow> session \<times> (sieve_error + string)" where
  "get_script n st =
     (let (st', r) = read_until_done (write_line (''GETSCRIPT '' @ dquote (quote_escape n)) st)
      in (st', and_then r (\<lambda>(ls, tag). Inr (join [CHR 0x0A] ls))))"

definition put_script :: "string \<Rightarrow> string \<Rightarrow> session \<Rightarrow> session \<times> (sieve_error + unit)" where
  "put_script n body st =
     (let st1 = write_line (''PUTSCRIPT '' @ dquote (quote_escape n) @ '' {'' @ show_nat (length body) @ ''+}'') st
      in expect_ok (read_until_done (write_line body st1)))"

definition set_active :: "string \<Rightarrow> session \<Rightarrow> session \<times> (sieve_error + unit)" where
  "set_active n st = expect_ok (read_until_done (write_line (''SETACTIVE '' @ dquote (quote_escape n)) st))"

definition delete_script :: "string \<Rightarrow> session \<Rightarrow> session \<times> (sieve_error + unit)" where
  "delete_script n st = expect_ok (read_until_done (write_line (''DELETESCRIPT '' @ dquote (quote_escape n)) st))"

definition vacation_script :: "string \<Rightarrow> nat \<Rightarrow> string option \<Rightarrow> string" where
  "vacation_script message days title =
     ''require ['' @ dquote ''vacation'' @ ''];'' @ crlf @ ''vacation'' @ crlf @
     '':days '' @ show_nat days @ crlf @
     '':subject '' @ dquote (quote_escape (case title of Some s \<Rightarrow> s | None \<Rightarrow> ''Out of office'')) @ crlf @
     dquote (quote_escape message) @ '';'' @ crlf"

end
