(* ===== verification/Sieve_Props.thy ===== *)
theory Sieve_Props
  imports Sieve
begin

text \<open>
  Properties of the ManageSieve client: what a server can make it read, the literals of a
  response, and the quoting of script names.
\<close>

section \<open>How much a response can hold\<close>

lemma length_strip_cr: "length s \<le> length (strip_cr s) + 1"
  by (simp add: strip_cr_def)

lemma read_line_consumed:
  "read_line lim buf s = (s', r) \<Longrightarrow> length buf \<le> lim \<Longrightarrow>
     length s' \<le> length s \<and> length buf + length s \<le> length s' + lim + 1 \<and>
     (\<forall>l. r = Inr l \<longrightarrow> length buf + length s \<le> length s' + length l + 2)"
proof (induction lim buf s rule: read_line.induct)
  case (2 lim buf b s)
  show ?case
  proof (cases "b = CHR 0x0A")
    case True
    then have eq: "s' = s" "r = Inr (from_utf8_lossy (strip_cr buf))" using "2.prems" by simp_all
    have "length buf \<le> length (strip_cr buf) + 1" by (rule length_strip_cr)
    then have "length buf \<le> length (from_utf8_lossy (strip_cr buf)) + 1"
      using length_from_utf8_lossy [of "strip_cr buf"] by linarith
    with eq "2.prems" show ?thesis by simp
  next
    case False
    then show ?thesis using "2.prems" "2.IH" by (cases "length buf = lim") auto
  qed
qed auto

lemma add_bounded_Inr: "add_bounded lim a b = Inr n \<longleftrightarrow> n = a + b \<and> a + b < 2 ^ 64 \<and> a + b \<le> lim"
  by (auto simp: add_bounded_def)

lemma read_literal_consumed:
  assumes "read_literal lim n len s = (s', r)" "n \<le> max_response lim"
  shows "length s' \<le> length s"
    and "n + length s \<le> length s' + max_response lim + max_line lim + 1"
    and "r = Inr (p, n2) \<Longrightarrow> n2 \<le> max_response lim \<and> n + length s \<le> length s' + n2 + 1 \<and>
           n \<le> n2 \<and> length p \<le> 3 * (n2 - n)"
proof -
  have "length s' \<le> length s \<and> n + length s \<le> length s' + max_response lim + max_line lim + 1 \<and>
      (r = Inr (p, n2) \<longrightarrow> n2 \<le> max_response lim \<and> n + length s \<le> length s' + n2 + 1 \<and>
           n \<le> n2 \<and> length p \<le> 3 * (n2 - n))"
  proof (cases "max_literal lim < len \<or> (\<exists>e. add_bounded (max_response lim) n len = Inl e) \<or> length s < len")
    case True
    show ?thesis
    proof (cases "add_bounded (max_response lim) n len")
      case (Inl e)
      then show ?thesis using assms by (auto simp: read_literal_def split: if_splits)
    next
      case (Inr n1)
      then have "n + len \<le> max_response lim" by (simp add: add_bounded_Inr)
      then show ?thesis using assms True Inr by (auto simp: read_literal_def split: if_splits)
    qed
  next
    case False
    then obtain n1 where n1: "add_bounded (max_response lim) n len = Inr n1"
      by (cases "add_bounded (max_response lim) n len") auto
    obtain s2 r2 where d: "read_line (max_line lim) [] (drop len s) = (s2, r2)"
      by (cases "read_line (max_line lim) [] (drop len s)")
    note c = read_line_consumed [OF d]
    have p: "length (from_utf8_lossy (take len s)) \<le> 3 * len"
      using length_from_utf8_lossy [of "take len s"] by (auto simp: min_def split: if_splits)
    note b = n1 [unfolded add_bounded_Inr]
    show ?thesis
    proof (cases r2)
      case (Inl e)
      then have "s' = s2" "r = Inl e" using assms(1) False n1 d by (simp_all add: read_literal_def)
      with c b False show ?thesis by auto
    next
      case (Inr delimiter)
      then have "s' = s2" "r = and_then (add_bounded (max_response lim) n1 (length delimiter + 1))
          (\<lambda>n2. if delimiter \<noteq> [] then Inl (Protocol ''literal delimiter is not empty'')
                else Inr (from_utf8_lossy (take len s), n2))"
        using assms(1) False n1 d by (simp_all add: read_literal_def)
      with c b p False Inr show ?thesis
        by (auto simp: and_then_Inr add_bounded_Inr split: if_splits)
    qed
  qed
  then show "length s' \<le> length s"
    and "n + length s \<le> length s' + max_response lim + max_line lim + 1"
    and "r = Inr (p, n2) \<Longrightarrow> n2 \<le> max_response lim \<and> n + length s \<le> length s' + n2 + 1 \<and>
           n \<le> n2 \<and> length p \<le> 3 * (n2 - n)"
    by blast+
qed

lemma read_response_bounded_aux:
  assumes "length got \<le> max_records lim" "n \<le> max_response lim" "sum_list (map length got) \<le> 3 * n"
    and "read_response lim got n s = (s', r)"
  shows "length s' \<le> length s \<and>
    n + 3 * length got + length s \<le> length s' + max_response lim + 3 * max_records lim + 2 * (max_line lim + 1) \<and>
    (\<forall>ls tag. r = Inr (ls, tag) \<longrightarrow> length ls \<le> max_records lim \<and> sum_list (map length ls) \<le> 3 * max_response lim)"
  using assms
proof (induction lim got n s rule: read_response.induct)
  case (1 lim got n s)
  obtain s1 r1 where l: "read_line (max_line lim) [] s = (s1, r1)"
    by (cases "read_line (max_line lim) [] s")
  note c = read_line_consumed [OF l, simplified]
  note rr = "1.prems"(4) [unfolded read_response.simps [of lim got n s] l]
  show ?case
  proof (cases r1)
    case (Inl e)
    with rr c "1.prems"(1-3) show ?thesis by auto
  next
    case (Inr line)
    show ?thesis
    proof (cases "is_tagged_response line \<or> length got = max_records lim \<or>
        (\<exists>e. add_bounded (max_response lim) n (length line) = Inl e)")
      case True
      with rr c Inr "1.prems"(1-3) show ?thesis by (auto split: if_splits sum.splits)
    next
      case False
      then obtain n1 where n1: "add_bounded (max_response lim) n (length line) = Inr n1"
        by (cases "add_bounded (max_response lim) n (length line)") auto
      have tag: "\<not> is_tagged_response line" "length got \<noteq> max_records lim" using False by auto
      note b = n1 [unfolded add_bounded_Inr]
      show ?thesis
      proof (cases "parse_literal_len line")
        case None
        then have "read_response lim (got @ [line]) n1 s1 = (s', r)"
          using rr Inr n1 tag by simp
        from "1.IH"(1) [OF l [symmetric] Inr tag n1 None _ _ _ this]
        show ?thesis using b c Inr tag "1.prems"(1-3) by auto
      next
        case (Some len)
        obtain s2 r2 where lit: "read_literal lim n1 len s1 = (s2, r2)"
          by (cases "read_literal lim n1 len s1")
        note lc = read_literal_consumed [OF lit]
        show ?thesis
        proof (cases r2)
          case Err: (Inl e)
          then show ?thesis
            using rr Inr n1 tag Some lit lc(1,2) b c "1.prems"(1-3) by auto
        next
          case Ok: (Inr pn)
          obtain p n2 where pn: "pn = (p, n2)" by (cases pn)
          have "read_response lim (got @ [p]) n2 s2 = (s', r)"
            using rr Inr n1 tag Some lit Ok pn by simp
          moreover have l2: "n2 \<le> max_response lim" "n1 + length s1 \<le> length s2 + n2 + 1" "n1 \<le> n2"
            "length p \<le> 3 * (n2 - n1)"
            using lc(3) [of p n2] Ok pn b by simp_all
          moreover have "length (got @ [p]) \<le> max_records lim" "sum_list (map length (got @ [p])) \<le> 3 * n2"
            using l2 b tag(2) "1.prems"(1,3) by simp_all
          ultimately have ih: "length s' \<le> length s2 \<and>
              n2 + 3 * length (got @ [p]) + length s2
                \<le> length s' + max_response lim + 3 * max_records lim + 2 * (max_line lim + 1) \<and>
              (\<forall>ls tag. r = Inr (ls, tag) \<longrightarrow> length ls \<le> max_records lim \<and>
                 sum_list (map length ls) \<le> 3 * max_response lim)"
            by (intro "1.IH"(2) [OF l [symmetric] Inr tag n1 Some lit [symmetric] Ok pn [symmetric]])
          moreover have "length s \<le> length s1 + length line + 2" "length s1 \<le> length s" "length s2 \<le> length s1"
            using c Inr lc(1) b by auto
          ultimately show ?thesis using l2 b by auto
        qed
      qed
    qed
  qed
qed



section \<open>Literals\<close>

text \<open>How a server sends a string as a literal.\<close>

definition literal_head :: "string \<Rightarrow> string" where
  "literal_head p = ''{'' @ show_nat (length p) @ ''}''"

definition literal :: "string \<Rightarrow> string" where
  "literal p = literal_head p @ crlf @ p @ crlf"

definition literal_cost :: "string \<Rightarrow> nat" where
  "literal_cost p = length (literal_head p) + length p + 1"

lemma read_line_buf:
  "CHR 0x0A \<notin> set l \<Longrightarrow> length buf + length l \<le> lim \<Longrightarrow>
     read_line lim buf (l @ CHR 0x0A # s) = (s, Inr (from_utf8_lossy (strip_cr (buf @ l))))"
  by (induction l arbitrary: buf) auto

lemma read_line_crlf:
  assumes "CHR 0x0A \<notin> set l" "length l < lim" "utf8 l"
  shows "read_line lim [] (l @ crlf @ s) = (s, Inr l)"
  using read_line_buf [of "l @ [CHR 0x0D]" "[]" lim s] assms
  by (simp add: crlf_def utf8_def)

lemma plain_show_nat: "c \<in> set (show_nat n) \<Longrightarrow> plain_char c \<and> byte c < 0x80 \<and> c \<noteq> CHR ''+'' \<and> c \<noteq> CHR ''{'' \<and> c \<noteq> CHR 0x0A"
  using show_nat_digits [of c n] by (auto simp: is_ascii_digit_def plain_char_def byte_def)

lemma literal_head_facts:
  "CHR 0x0A \<notin> set (literal_head p)" "utf8 (literal_head p)" "\<not> is_tagged_response (literal_head p)"
  "length p < 2 ^ 64 \<Longrightarrow> parse_literal_len (literal_head p) = Some (length p)"
proof -
  let ?d = "show_nat (length p)"
  show "CHR 0x0A \<notin> set (literal_head p)" using plain_show_nat by (auto simp: literal_head_def)
  show "utf8 (literal_head p)"
    using plain_show_nat by (intro utf8_ascii) (auto simp: literal_head_def byte_def)
  show "\<not> is_tagged_response (literal_head p)"
    by (simp add: is_tagged_response_def Let_def literal_head_def to_ascii_uppercase_def upper_char_def
        is_ascii_lower_def byte_def)
  assume len: "length p < 2 ^ 64"
  have "trim (literal_head p @ []) = literal_head p @ []"
    by (rule trim_plain_prefix)
       (use plain_show_nat in \<open>auto simp: literal_head_def plain_char_def byte_def trimmed_def\<close>)
  then have t: "trim (literal_head p) = literal_head p" by simp
  have "rfind_idx (\<lambda>b. b = CHR ''{'') ([] @ CHR ''{'' # (?d @ ''}'')) = Some (length ([] :: string))"
    by (rule rfind_idx_append_free) (use plain_show_nat in auto)
  then have i: "rfind_idx (\<lambda>b. b = CHR ''{'') (literal_head p) = Some 0" by (simp add: literal_head_def)
  have "trim_end_matches (\<lambda>b. b = CHR ''+'') ?d = ?d"
    using plain_show_nat [OF last_in_set [OF show_nat_not_Nil]] by (intro trim_end_matches_id) auto
  then show "parse_literal_len (literal_head p) = Some (length p)"
    unfolding parse_literal_len_def Let_def t i
    using parse_usize_show_nat [OF len] by (simp add: literal_head_def butlast_append)
qed

text \<open>Limits that leave room for a literal's first line.\<close>

definition roomy :: "limits \<Rightarrow> bool" where
  "roomy lim \<longleftrightarrow> max_response lim < 2 ^ 64 \<and> (\<forall>p. length p \<le> max_response lim \<longrightarrow> length (literal_head p) < max_line lim)"

lemma roomy_default: "roomy DEFAULT_LIMITS"
proof -
  have "length (literal_head p) < max_line DEFAULT_LIMITS" if p: "length p \<le> max_response DEFAULT_LIMITS" for p
  proof -
    have "length p < 10 ^ Suc 7" using p by (simp add: DEFAULT_LIMITS_def)
    then have "length (show_nat (length p)) \<le> Suc 7" by (rule length_show_nat)
    then show ?thesis by (simp add: literal_head_def DEFAULT_LIMITS_def)
  qed
  then show ?thesis by (simp add: roomy_def DEFAULT_LIMITS_def)
qed

lemma read_literal_ok:
  assumes "roomy lim" "utf8 p" "length p \<le> max_literal lim" "n + length p + 1 \<le> max_response lim"
  shows "read_literal lim n (length p) (p @ crlf @ s) = (s, Inr (p, n + length p + 1))"
proof -
  have "length (literal_head ([] :: string)) < max_line lim" using assms(1) by (simp add: roomy_def)
  then have "read_line (max_line lim) [] (crlf @ s) = (s, Inr [])"
    using read_line_crlf [of "[]" "max_line lim" s] by (simp add: literal_head_def utf8_def)
  moreover have "n + length p + 1 < 2 ^ 64" using assms(1,4) by (simp add: roomy_def)
  ultimately show ?thesis
    using assms by (simp add: read_literal_def add_bounded_def utf8_def)
qed

lemma read_response_literal:
  assumes "roomy lim" "utf8 p" "length p \<le> max_literal lim" "length got < max_records lim"
    and "n + literal_cost p \<le> max_response lim"
  shows "read_response lim got n (literal p @ s) = read_response lim (got @ [p]) (n + literal_cost p) s"
proof -
  have "length p \<le> max_response lim" using assms(5) by (simp add: literal_cost_def)
  then have "length (literal_head p) < max_line lim" "length p < 2 ^ 64"
    using assms(1) by (auto simp: roomy_def)
  note facts = literal_head_facts(1-3) [of p] literal_head_facts(4) [OF this(2)]
  have "read_line (max_line lim) [] (literal p @ s) = (p @ crlf @ s, Inr (literal_head p))"
    using read_line_crlf [OF facts(1) \<open>length (literal_head p) < max_line lim\<close> facts(2)]
    by (simp add: literal_def)
  moreover have "add_bounded (max_response lim) n (length (literal_head p)) = Inr (n + length (literal_head p))"
    using assms(1,5) by (simp add: add_bounded_def literal_cost_def roomy_def)
  moreover have "read_literal lim (n + length (literal_head p)) (length p) (p @ crlf @ s) =
      (s, Inr (p, n + literal_cost p))"
    using read_literal_ok [OF assms(1-3), of "n + length (literal_head p)" s] assms(5)
    by (simp add: literal_cost_def)
  ultimately show ?thesis
    using facts assms(4) by (subst read_response.simps) simp
qed

text \<open>A tagged line that says OK.\<close>

lemma read_response_ok:
  assumes "roomy lim"
  shows "read_response lim got n (''OK'' @ crlf @ s) = (s, Inr (got, ''OK''))"
proof -
  have "length (literal_head ([] :: string)) < max_line lim" using assms by (simp add: roomy_def)
  moreover have "utf8 ''OK''" by (rule utf8_ascii) (simp add: byte_def)
  ultimately have "read_line (max_line lim) [] (''OK'' @ crlf @ s) = (s, Inr ''OK'')"
    by (intro read_line_crlf) (simp_all add: literal_head_def show_nat.simps)
  moreover have "is_tagged_response ''OK''" by code_simp
  ultimately show ?thesis by (subst read_response.simps) (simp del: append.simps append_Cons)
qed

lemma read_response_literals:
  assumes "roomy lim" "\<forall>p \<in> set ps. utf8 p \<and> length p \<le> max_literal lim"
    and "length got + length ps \<le> max_records lim"
    and "n + sum_list (map literal_cost ps) \<le> max_response lim"
  shows "read_response lim got n (concat (map literal ps) @ ''OK'' @ crlf @ s) = (s, Inr (got @ ps, ''OK''))"
  using assms
proof (induction ps arbitrary: got n)
  case Nil
  then show ?case using read_response_ok by simp
next
  case (Cons p ps)
  have "read_response lim got n (literal p @ concat (map literal ps) @ ''OK'' @ crlf @ s) =
      read_response lim (got @ [p]) (n + literal_cost p) (concat (map literal ps) @ ''OK'' @ crlf @ s)"
    using Cons.prems by (intro read_response_literal) auto
  then show ?case using Cons.IH [of "got @ [p]" "n + literal_cost p"] Cons.prems by simp
qed


text \<open>
  C25. A script comes back as the server holds it: when the server answers GETSCRIPT with the
  script as one literal of valid UTF-8 of at most 16 MiB, the client returns exactly the
  script, whatever lines it holds (also lines that look like a tagged answer or a literal),
  and the session is left at the first byte after the answer.
\<close>

theorem get_script_returns_literal:
  assumes "incoming st = literal body @ ''OK'' @ crlf @ later" "utf8 body" "length body \<le> 16 * 1024 * 1024"
  shows "snd (get_script n st) = Inr body \<and> incoming (fst (get_script n st)) = later"
proof -
  have "length (literal_head body) < max_line DEFAULT_LIMITS"
    using roomy_default assms(3) by (simp add: roomy_def DEFAULT_LIMITS_def)
  then have "literal_cost body \<le> max_response DEFAULT_LIMITS"
    using assms(3) by (simp add: literal_cost_def DEFAULT_LIMITS_def)
  then have "read_response DEFAULT_LIMITS [] 0 (concat (map literal [body]) @ ''OK'' @ crlf @ later) =
      (later, Inr ([] @ [body], ''OK''))"
    using assms(2,3) by (intro read_response_literals roomy_default) (simp_all add: DEFAULT_LIMITS_def)
  with assms(1) show ?thesis
    by (simp add: get_script_def read_until_done_def write_line_def Let_def del: append_Cons)
qed

theorem get_script_returns_literal_witness:
  "snd (get_script ''x'' \<lparr>incoming = literal (''OK {9}'' @ [CHR 0x0A] @ ''stop;'') @ ''OK'' @ crlf @ ''NO'', outgoing = []\<rparr>) =
     Inr (''OK {9}'' @ [CHR 0x0A] @ ''stop;'')"
proof -
  have "utf8 (''OK {9}'' @ [CHR 0x0A] @ ''stop;'')" by (rule utf8_ascii) (simp add: byte_def)
  then show ?thesis by (intro get_script_returns_literal [THEN conjunct1]) simp_all
qed

section \<open>Quoting\<close>

text \<open>The quoted string of RFC 5804, as a server reads it: the string and what follows it.\<close>

fun unquote :: "string \<Rightarrow> (string \<times> string) option" where
  "unquote [] = None"
| "unquote (c # s) =
     (if c = CHR 0x22 then Some ([], s)
      else if c = CHR 0x5C then
        (case s of [] \<Rightarrow> None | d # s' \<Rightarrow> map_option (\<lambda>(t, r). (d # t, r)) (unquote s'))
      else map_option (\<lambda>(t, r). (c # t, r)) (unquote s))"

lemma replace_sub_char: "replace_sub [x] r s = concat (map (\<lambda>c. if c = x then r else [c]) s)"
  by (induction s) auto

lemma quote_escape_concat:
  "quote_escape s =
     concat (map (\<lambda>c. if c = CHR 0x22 then [CHR 0x5C, CHR 0x22] else if c = CHR 0x5C then [CHR 0x5C, CHR 0x5C] else [c]) s)"
  by (induction s) (simp_all add: quote_escape_def replace_sub_char)

lemma unquote_escape: "unquote (quote_escape s @ CHR 0x22 # r) = Some (s, r)"
  by (induction s) (simp_all add: quote_escape_concat)

lemma outgoing_expect_ok: "outgoing (fst (expect_ok (read_until_done st))) = outgoing st"
  by (simp add: expect_ok_def read_until_done_def split: prod.split)

text \<open>
  No script name breaks out of its quotes: a server that reads the command a client
  sends gets exactly the name it was given, quotes and backslashes included, and after it
  the rest of that command, for every operation that takes a name.
\<close>

theorem script_name_unquotes:
  "(\<exists>r. outgoing (fst (get_script n st)) = outgoing st @ ''GETSCRIPT '' @ [CHR 0x22] @ r \<and>
        unquote r = Some (n, crlf)) \<and>
   (\<exists>r. outgoing (fst (set_active n st)) = outgoing st @ ''SETACTIVE '' @ [CHR 0x22] @ r \<and>
        unquote r = Some (n, crlf)) \<and>
   (\<exists>r. outgoing (fst (delete_script n st)) = outgoing st @ ''DELETESCRIPT '' @ [CHR 0x22] @ r \<and>
        unquote r = Some (n, crlf)) \<and>
   (\<exists>r. outgoing (fst (put_script n body st)) = outgoing st @ ''PUTSCRIPT '' @ [CHR 0x22] @ r \<and>
        unquote r = Some (n, '' {'' @ show_nat (length body) @ ''+}'' @ crlf @ body @ crlf))"
proof (intro conjI)
  show "\<exists>r. outgoing (fst (get_script n st)) = outgoing st @ ''GETSCRIPT '' @ [CHR 0x22] @ r \<and>
        unquote r = Some (n, crlf)"
    using unquote_escape [of n crlf]
    by (intro exI [of _ "quote_escape n @ CHR 0x22 # crlf"])
       (simp add: get_script_def read_until_done_def write_line_def dquote_def Let_def split: prod.split)
  show "\<exists>r. outgoing (fst (set_active n st)) = outgoing st @ ''SETACTIVE '' @ [CHR 0x22] @ r \<and>
        unquote r = Some (n, crlf)"
    using unquote_escape [of n crlf]
    by (intro exI [of _ "quote_escape n @ CHR 0x22 # crlf"])
       (simp add: set_active_def outgoing_expect_ok write_line_def dquote_def)
  show "\<exists>r. outgoing (fst (delete_script n st)) = outgoing st @ ''DELETESCRIPT '' @ [CHR 0x22] @ r \<and>
        unquote r = Some (n, crlf)"
    using unquote_escape [of n crlf]
    by (intro exI [of _ "quote_escape n @ CHR 0x22 # crlf"])
       (simp add: delete_script_def outgoing_expect_ok write_line_def dquote_def)
  let ?tail = "'' {'' @ show_nat (length body) @ ''+}'' @ crlf @ body @ crlf"
  show "\<exists>r. outgoing (fst (put_script n body st)) = outgoing st @ ''PUTSCRIPT '' @ [CHR 0x22] @ r \<and>
        unquote r = Some (n, ?tail)"
    using unquote_escape [of n ?tail]
    by (intro exI [of _ "quote_escape n @ CHR 0x22 # ?tail"])
       (simp add: put_script_def outgoing_expect_ok write_line_def dquote_def Let_def)
qed

text \<open>
  The other direction is missing in the code: \<^verbatim>\<open>list_scripts\<close> ends a name at the first
  quote and keeps the backslashes, so a script whose name holds a quote cannot be
  addressed by the name it is listed under.
\<close>

lemma listed_name_not_unescaped:
  "scripts_of_lines [dquote (quote_escape [CHR ''a'', CHR 0x22, CHR ''b''])] =
     [\<lparr>script_name = [CHR ''a'', CHR 0x5C], active = False\<rparr>]"
  by code_simp

end
