(* ===== verification/Rust_Panic.thy ===== *)
theory Rust_Panic
  imports Utf8_Lossy
begin

text \<open>
  Expressions that can panic: slicing outside a string, or inside one of its characters.
\<close>

datatype 'a outcome = Panic | Return 'a

definition bind_outcome :: "'a outcome \<Rightarrow> ('a \<Rightarrow> 'b outcome) \<Rightarrow> 'b outcome" where
  "bind_outcome x f = (case x of Panic \<Rightarrow> Panic | Return a \<Rightarrow> f a)"

lemma bind_outcome_simps [simp]:
  "bind_outcome Panic f = Panic"
  "bind_outcome (Return a) f = f a"
  by (simp_all add: bind_outcome_def)

lemma bind_outcome_cong [fundef_cong]:
  "x = y \<Longrightarrow> (\<And>a. y = Return a \<Longrightarrow> f a = g a) \<Longrightarrow> bind_outcome x f = bind_outcome y g"
  by (cases y) simp_all

text \<open>A slice of bytes, and of a string at character boundaries.\<close>

definition slice :: "nat \<Rightarrow> nat \<Rightarrow> string \<Rightarrow> string outcome" where
  "slice a b s = (if a \<le> b \<and> b \<le> length s then Return (take (b - a) (drop a s)) else Panic)"

definition is_char_boundary :: "nat \<Rightarrow> string \<Rightarrow> bool" where
  "is_char_boundary i s \<longleftrightarrow> i = 0 \<or> i = length s \<or> (i < length s \<and> \<not> is_cont (s ! i))"

definition str_slice :: "nat \<Rightarrow> nat \<Rightarrow> string \<Rightarrow> string outcome" where
  "str_slice a b s = (if is_char_boundary a s \<and> is_char_boundary b s then slice a b s else Panic)"

definition split_at :: "nat \<Rightarrow> string \<Rightarrow> (string \<times> string) outcome" where
  "split_at i s = (if is_char_boundary i s then Return (take i s, drop i s) else Panic)"

lemma slice_append [simp]: "slice (length a) (length a + length b) (a @ b @ c) = Return b"
  by (simp add: slice_def)

section \<open>First occurrences\<close>

lemma find_sub_none_append:
  assumes "\<not> sublist p a" "c \<notin> set p" "p \<noteq> []"
  shows "find_sub p (a @ c # s) = map_option (\<lambda>i. length a + 1 + i) (find_sub p s)"
  using assms(1)
proof (induction a)
  case Nil
  have "\<not> prefix p (c # s)" using assms(2,3) by (cases p) auto
  then show ?case by simp
next
  case (Cons x a)
  have "\<not> prefix p ((x # a) @ c # s)"
  proof
    assume p: "prefix p ((x # a) @ c # s)"
    then have "\<not> prefix p (x # a)" using Cons.prems by (auto simp: sublist_Cons_right)
    with p obtain r where "p = (x # a) @ c # r" by (auto simp: prefix_append prefix_Cons)
    with assms(2) show False by simp
  qed
  moreover have "\<not> sublist p a" using Cons.prems by (auto simp: sublist_Cons_right)
  ultimately show ?case using Cons.IH by (simp add: option.map_comp comp_def)
qed

lemma find_sub_here: "find_sub p (p @ s) = Some 0"
proof -
  have "prefix p (p @ s)" by simp
  then show ?thesis by (cases "p @ s") auto
qed

lemma find_sub_first:
  assumes "\<not> sublist p a" "c \<notin> set p" "p \<noteq> []"
  shows "find_sub p (a @ c # p @ s) = Some (length a + 1)"
  using find_sub_none_append [OF assms, of "p @ s"] by (simp add: find_sub_here)

text \<open>A pattern that starts with a character the text before it does not have.\<close>

lemma find_sub_fresh:
  assumes "hd p \<notin> set a" "p \<noteq> []"
  shows "find_sub p (a @ p @ s) = Some (length a)"
  using assms(1)
proof (induction a)
  case (Cons x a)
  then have "\<not> prefix p (x # a @ p @ s)" using assms(2) by (cases p) auto
  with Cons show ?case by simp
qed (simp add: find_sub_here)

end
