(* ===== verification/Mail_View.thy ===== *)
theory Mail_View
  imports Rust_Panic
begin

text \<open>
  A message as the mail parser (the mail-parser crate) shows it to the code: the addresses,
  headers and parts the code asks for. The parser is a parameter of the functions that
  parse; the lookups of headers by name are the parser's and fields of the view.
\<close>

record mail_address =
  display_name :: "string option"
  address :: "string option"

text \<open>
  A header: its name, its text when the value is \<^verbatim>\<open>HeaderValue::Text\<close>, and what \<^verbatim>\<open>as_text\<close>
  gives for it.
\<close>

record mail_header =
  header_name :: string
  text_value :: "string option"
  as_text :: "string option"

record content_type =
  ctype :: string
  subtype :: "string option"
  attributes :: "(string \<times> string) list"

datatype part_body = Text_Part string | Html_Part string | Binary_Part string | Container_Part

record mail_part =
  part_type :: "content_type option"
  content_id :: "string option"
  part_body :: part_body

record mail_view =
  mv_headers :: "mail_header list"
  header_values :: "string \<Rightarrow> mail_header list"
  header_of :: "string \<Rightarrow> mail_header option"
  mv_from :: "mail_address list option"
  mv_to :: "mail_address list option"
  mv_cc :: "mail_address list option"
  mv_bcc :: "mail_address list option"
  mv_reply_to :: "mail_address list option"
  mv_subject :: "string option"
  mv_message_id :: "string option"
  mv_references :: "string list option"
  mv_date :: "string option"
  mv_body_text :: "string option"
  mv_parts :: "mail_part list"

text \<open>The first address of a group, its address and its display name.\<close>

definition first_of :: "mail_address list option \<Rightarrow> mail_address option" where
  "first_of g = (case g of Some (a # _) \<Rightarrow> Some a | _ \<Rightarrow> None)"

definition first_address :: "mail_address list option \<Rightarrow> string option" where
  "first_address g = Option.bind (first_of g) address"

definition first_name :: "mail_address list option \<Rightarrow> string option" where
  "first_name g = Option.bind (first_of g) display_name"

definition attribute :: "string \<Rightarrow> content_type \<Rightarrow> string option" where
  "attribute n ct = map_of (attributes ct) n"

lemma first_simps [simp]:
  "first_of (Some (a # as)) = Some a" "first_of (Some []) = None" "first_of None = None"
  by (simp_all add: first_of_def)

end
