(* ===== verification/Auth_Results.thy ===== *)
theory Auth_Results
  imports Mail_View
begin

text \<open>
  The authentication badges of a message (crates/inbx-render/src/auth.rs): the
  Authentication-Results headers it came with, and a few signs of phishing.
\<close>

datatype auth_verdict =
  No_Verdict | Pass | Fail | Soft_Fail | Neutral | Policy | Perm_Error | Temp_Error

definition verdict_of :: "string \<Rightarrow> auth_verdict" where
  "verdict_of s =
     (let v = to_ascii_lowercase (trim s)
      in if v = ''pass'' then Pass
         else if v = ''fail'' then Fail
         else if v = ''softfail'' then Soft_Fail
         else if v = ''neutral'' then Neutral
         else if v = ''policy'' then Policy
         else if v = ''permerror'' then Perm_Error
         else if v = ''temperror'' then Temp_Error
         else No_Verdict)"

record auth_results =
  spf :: auth_verdict
  dkim :: auth_verdict
  dmarc :: auth_verdict

definition no_results :: auth_results where
  "no_results = \<lparr>spf = No_Verdict, dkim = No_Verdict, dmarc = No_Verdict\<rparr>"

text \<open>\<^verbatim>\<open>s[..prefix.len()]\<close> panics when the prefix ends inside a character of \<open>s\<close>.\<close>

definition strip_prefix_ci :: "string \<Rightarrow> string \<Rightarrow> string option outcome" where
  "strip_prefix_ci s p =
     (if length s < length p then Return None
      else bind_outcome (str_slice 0 (length p) s) (\<lambda>head.
             if eq_ignore_ascii_case head p
             then bind_outcome (str_slice (length p) (length s) s) (\<lambda>rest. Return (Some rest))
             else Return None))"

definition first_word :: "string \<Rightarrow> string" where
  "first_word s = (case split_whitespace s of [] \<Rightarrow> [] | w # _ \<Rightarrow> w)"

text \<open>The verdict a token states for one of the three methods.\<close>

definition stated :: "string \<Rightarrow> string \<Rightarrow> auth_verdict option outcome" where
  "stated p tok =
     bind_outcome (strip_prefix_ci tok p) (\<lambda>r. Return
       (map_option (\<lambda>rest. verdict_of
          (trim_matches (\<lambda>c. c = CHR 0x22 \<or> c = CHR '','') (first_word rest))) r))"

definition assign :: "auth_verdict option \<Rightarrow> auth_verdict \<Rightarrow> auth_verdict" where
  "assign v old = (case v of Some x \<Rightarrow> x | None \<Rightarrow> old)"

definition read_token :: "string \<Rightarrow> auth_results \<Rightarrow> auth_results outcome" where
  "read_token piece out =
     (let tok = trim piece
      in bind_outcome (stated ''spf='' tok) (\<lambda>a.
         bind_outcome (stated ''dkim='' tok) (\<lambda>b.
         bind_outcome (stated ''dmarc='' tok) (\<lambda>c.
           Return \<lparr>spf = assign a (spf out), dkim = assign b (dkim out), dmarc = assign c (dmarc out)\<rparr>))))"

fun read_tokens :: "string list \<Rightarrow> auth_results \<Rightarrow> auth_results outcome" where
  "read_tokens [] out = Return out"
| "read_tokens (t # ts) out = bind_outcome (read_token t out) (read_tokens ts)"

definition read_header :: "mail_header \<Rightarrow> auth_results \<Rightarrow> auth_results outcome" where
  "read_header h out =
     (if eq_ignore_ascii_case (header_name h) ''Authentication-Results''
      then (case text_value h of
              None \<Rightarrow> Return out
            | Some t \<Rightarrow> read_tokens (split_on (CHR '';'') t) out)
      else Return out)"

fun read_headers :: "mail_header list \<Rightarrow> auth_results \<Rightarrow> auth_results outcome" where
  "read_headers [] out = Return out"
| "read_headers (h # hs) out = bind_outcome (read_header h out) (read_headers hs)"

definition parse_auth_results :: "mail_view \<Rightarrow> auth_results outcome" where
  "parse_auth_results m = read_headers (mv_headers m) no_results"

section \<open>Signs of phishing\<close>

record phishing_signs =
  reply_to_mismatch :: bool
  display_name_email :: bool
  lookalike_from :: bool

definition domain_of :: "string \<Rightarrow> string" where
  "domain_of addr = (case rsplit_once (CHR ''@'') addr of Some (_, d) \<Rightarrow> d | None \<Rightarrow> [])"

definition LOOKALIKE_HOSTS :: "string list" where
  "LOOKALIKE_HOSTS =
     [''g00gle.com'', ''gooogle.com'', ''paypa1.com'', ''amaz0n.com'', ''rnicrosoft.com'',
      ''microsofft.com'', ''app1e.com'', ''faceb00k.com'', ''1inkedin.com'']"

definition is_lookalike :: "string \<Rightarrow> bool" where
  "is_lookalike host = list_ex (\<lambda>h. eq_ignore_ascii_case h host) LOOKALIKE_HOSTS"

definition phishing_signals :: "mail_view \<Rightarrow> phishing_signs" where
  "phishing_signals m =
     (let sender = first_address (mv_from m)
      in \<lparr>reply_to_mismatch =
            (case (sender, first_address (mv_reply_to m)) of
               (Some f, Some r) \<Rightarrow> domain_of f \<noteq> domain_of r | _ \<Rightarrow> False),
          display_name_email =
            (case first_name (mv_from m) of Some n \<Rightarrow> CHR ''@'' \<in> set n | None \<Rightarrow> False),
          lookalike_from = (case sender of Some f \<Rightarrow> is_lookalike (domain_of f) | None \<Rightarrow> False)\<rparr>)"

record auth_signals =
  auth :: auth_results
  phishing :: phishing_signs

definition evaluate :: "(string \<Rightarrow> mail_view option) \<Rightarrow> string \<Rightarrow> auth_signals outcome" where
  "evaluate parse msg =
     (case parse msg of
        None \<Rightarrow> Return \<lparr>auth = no_results,
                 phishing = \<lparr>reply_to_mismatch = False, display_name_email = False, lookalike_from = False\<rparr>\<rparr>
      | Some m \<Rightarrow> bind_outcome (parse_auth_results m) (\<lambda>a. Return \<lparr>auth = a, phishing = phishing_signals m\<rparr>))"

section \<open>The last header wins\<close>

lemma read_headers_append:
  "read_headers (hs @ ks) out = bind_outcome (read_headers hs out) (read_headers ks)"
proof (induction hs arbitrary: out)
  case (Cons h hs)
  then show ?case by (cases "read_header h out") simp_all
qed simp

text \<open>Slices of ASCII text do not panic, so reading ASCII headers never does.\<close>

lemma char_boundary_ascii: "list_all (\<lambda>c. byte c < 128) s \<Longrightarrow> i \<le> length s \<Longrightarrow> is_char_boundary i s"
  unfolding is_char_boundary_def is_cont_def list_all_length
  by (metis le_neq_implies_less linorder_not_le)

lemma strip_prefix_ci_ascii:
  assumes "list_all (\<lambda>c. byte c < 128) s"
  shows "strip_prefix_ci s p =
    Return (if length p \<le> length s \<and> eq_ignore_ascii_case (take (length p) s) p
            then Some (drop (length p) s) else None)"
  using assms char_boundary_ascii [OF assms, of "length p"]
  by (auto simp: strip_prefix_ci_def str_slice_def slice_def is_char_boundary_def)

lemma read_token_ascii:
  assumes "list_all (\<lambda>c. byte c < 128) (trim piece)"
  shows "read_token piece out \<noteq> Panic"
  using assms by (simp add: read_token_def stated_def strip_prefix_ci_ascii Let_def)

definition ascii_header :: "mail_header \<Rightarrow> bool" where
  "ascii_header h \<longleftrightarrow> (case text_value h of None \<Rightarrow> True | Some t \<Rightarrow> list_all (\<lambda>c. byte c < 128) t)"

lemma set_trim: "set (trim s) \<subseteq> set s"
proof -
  have "set (strip_ws ws t) \<subseteq> set t" for ws t
    using strip_ws_suffix [of ws t] set_mono_suffix by blast
  then show ?thesis unfolding trim_def trim_start_def trim_end_def by (metis set_rev subset_trans)
qed

lemma set_split_on: "p \<in> set (split_on x s) \<Longrightarrow> set p \<subseteq> set s"
proof (induction s arbitrary: p)
  case (Cons c s)
  obtain q qs where q: "split_on x s = q # qs" by (cases "split_on x s") auto
  with Cons.prems consider "p = []" | "p = c # q" | "p \<in> set (split_on x s)"
    by (auto split: if_splits)
  then show ?case using Cons.IH [of p] Cons.IH [of q] q by cases auto
qed simp

lemma read_tokens_ascii:
  "\<forall>t \<in> set ts. list_all (\<lambda>c. byte c < 128) t \<Longrightarrow> read_tokens ts out \<noteq> Panic"
proof (induction ts arbitrary: out)
  case (Cons t ts)
  then have "list_all (\<lambda>c. byte c < 128) (trim t)"
    using set_trim [of t] by (auto simp: list_all_iff)
  from read_token_ascii [OF this, of out] Cons show ?case
    by (cases "read_token t out") simp_all
qed simp

lemma read_header_ascii:
  assumes "ascii_header h"
  shows "read_header h out \<noteq> Panic"
proof (cases "text_value h")
  case (Some t)
  have "list_all (\<lambda>c. byte c < 128) p" if "p \<in> set (split_on (CHR '';'') t)" for p
    using set_split_on [OF that] assms Some by (auto simp: ascii_header_def list_all_iff)
  then have "read_tokens (split_on (CHR '';'') t) out \<noteq> Panic"
    by (intro read_tokens_ascii) blast
  with Some show ?thesis by (simp add: read_header_def)
qed (simp add: read_header_def)


definition ascii_headers :: "mail_view \<Rightarrow> bool" where
  "ascii_headers m = list_all ascii_header (mv_headers m)"

lemma read_headers_ascii: "list_all ascii_header hs \<Longrightarrow> read_headers hs out \<noteq> Panic"
proof (induction hs arbitrary: out)
  case (Cons h hs)
  then show ?case using read_header_ascii [of h out] by (cases "read_header h out") simp_all
qed simp

definition results_header :: "string \<Rightarrow> mail_header" where
  "results_header t = \<lparr>header_name = ''Authentication-Results'', text_value = Some t, as_text = Some t\<rparr>"

definition all_pass :: auth_results where
  "all_pass = \<lparr>spf = Pass, dkim = Pass, dmarc = Pass\<rparr>"

lemma read_forged: "read_header (results_header ''mx; spf=pass; dkim=pass; dmarc=pass'') out = Return all_pass"
proof -
  have t: "split_on (CHR '';'') ''mx; spf=pass; dkim=pass; dmarc=pass'' =
      [''mx'', '' spf=pass'', '' dkim=pass'', '' dmarc=pass'']" by code_simp
  have s: "trim ''mx'' = ''mx''" "trim '' spf=pass'' = ''spf=pass''" "trim '' dkim=pass'' = ''dkim=pass''"
    "trim '' dmarc=pass'' = ''dmarc=pass''" by code_simp+
  have v: "stated ''spf='' ''mx'' = Return None" "stated ''dkim='' ''mx'' = Return None"
    "stated ''dmarc='' ''mx'' = Return None"
    "stated ''spf='' ''spf=pass'' = Return (Some Pass)" "stated ''dkim='' ''spf=pass'' = Return None"
    "stated ''dmarc='' ''spf=pass'' = Return None"
    "stated ''spf='' ''dkim=pass'' = Return None" "stated ''dkim='' ''dkim=pass'' = Return (Some Pass)"
    "stated ''dmarc='' ''dkim=pass'' = Return None"
    "stated ''spf='' ''dmarc=pass'' = Return None" "stated ''dkim='' ''dmarc=pass'' = Return None"
    "stated ''dmarc='' ''dmarc=pass'' = Return (Some Pass)"
    by code_simp+
  have tok: "read_token ''mx'' r = Return r" "read_token '' spf=pass'' r = Return (r\<lparr>spf := Pass\<rparr>)"
    "read_token '' dkim=pass'' r = Return (r\<lparr>dkim := Pass\<rparr>)" "read_token '' dmarc=pass'' r = Return (r\<lparr>dmarc := Pass\<rparr>)" for r
    unfolding read_token_def s Let_def v by (simp_all add: assign_def)
  have "read_tokens (split_on (CHR '';'') ''mx; spf=pass; dkim=pass; dmarc=pass'') out = Return all_pass"
    unfolding t read_tokens.simps tok bind_outcome_simps by (simp add: all_pass_def)
  then show ?thesis by (simp add: read_header_def results_header_def)
qed

text \<open>
  C33. The last Authentication-Results header decides the badges. The receiving server puts its
  own header on top of the message, so a header that the sender put below it overrides what
  that server found: whatever ASCII headers a message has, one more at the end that claims a
  pass makes all three badges pass.
\<close>

theorem forged_results_win:
  assumes "list_all ascii_header (mv_headers m)"
  shows "parse_auth_results
    (m\<lparr>mv_headers := mv_headers m @ [results_header ''mx; spf=pass; dkim=pass; dmarc=pass'']\<rparr>) = Return all_pass"
  using read_headers_ascii [OF assms, of no_results]
  by (cases "read_headers (mv_headers m) no_results")
     (simp_all add: parse_auth_results_def read_headers_append read_forged)

definition demo_view :: mail_view where
  "demo_view =
     \<lparr>mv_headers = [results_header ''mx; spf=fail; dkim=fail''], header_values = (\<lambda>_. []), header_of = (\<lambda>_. None),
      mv_from = Some [\<lparr>display_name = None, address = Some ''a@b.c''\<rparr>], mv_to = None, mv_cc = None, mv_bcc = None,
      mv_reply_to = None, mv_subject = None, mv_message_id = None, mv_references = None, mv_date = None,
      mv_body_text = None, mv_parts = []\<rparr>"

theorem forged_results_win_witness:
  "parse_auth_results (demo_view\<lparr>mv_headers := mv_headers demo_view @
      [results_header ''mx; spf=pass; dkim=pass; dmarc=pass'']\<rparr>) = Return all_pass"
proof -
  have "list_all ascii_header (mv_headers demo_view)" by code_simp
  then show ?thesis by (rule forged_results_win)
qed

text \<open>A character across the end of a prefix makes the reader panic.\<close>

lemma multibyte_result_panics: "read_token (''abc'' @ [CHR 0xC3, CHR 0xA9]) r = Panic"
proof -
  have t: "trim (''abc'' @ [CHR 0xC3, CHR 0xA9]) = ''abc'' @ [CHR 0xC3, CHR 0xA9]"
    "stated ''spf='' (''abc'' @ [CHR 0xC3, CHR 0xA9]) = Panic" by code_simp+
  show ?thesis unfolding read_token_def t Let_def by simp
qed

end
