(* ===== verification/Edit_Distance.thy ===== *)
theory Edit_Distance
  imports Main
begin

text \<open>
  The Levenshtein distance of crates/inbx-render/src/phishing.rs: the two rows of the
  table as the code fills them, the recursion they compute, and the single edits the
  result counts.
\<close>

section \<open>The table\<close>

definition lev_cell :: "'a list \<Rightarrow> 'a list \<Rightarrow> nat \<Rightarrow> nat list \<Rightarrow> nat list \<Rightarrow> nat \<Rightarrow> nat" where
  "lev_cell a b i prev cur j =
     (let cost = (if a ! (i - 1) \<noteq> b ! (j - 1) then 1 else 0)
      in min (min (prev ! j + 1) (cur ! (j - 1) + 1)) (prev ! (j - 1) + cost))"

definition lev_row :: "'a list \<Rightarrow> 'a list \<Rightarrow> nat \<Rightarrow> nat list \<Rightarrow> nat list \<Rightarrow> nat list" where
  "lev_row a b i prev cur =
     fold (\<lambda>j c. c[j := lev_cell a b i prev c j]) [1..<length b + 1] (cur[0 := i])"

definition lev_rows :: "'a list \<Rightarrow> 'a list \<Rightarrow> nat list \<times> nat list" where
  "lev_rows a b =
     fold (\<lambda>i (prev, cur). (lev_row a b i prev cur, prev)) [1..<length a + 1]
       ([0..<length b + 1], replicate (length b + 1) 0)"

definition levenshtein :: "'a list \<Rightarrow> 'a list \<Rightarrow> nat" where
  "levenshtein a b =
     (if a = [] then length b
      else if b = [] then length a
      else fst (lev_rows a b) ! length b)"

section \<open>The recursion\<close>

fun ed :: "'a list \<Rightarrow> 'a list \<Rightarrow> nat" where
  "ed [] ys = length ys"
| "ed xs [] = length xs"
| "ed (x # xs) (y # ys) =
     min (min (ed xs (y # ys) + 1) (ed (x # xs) ys + 1)) (ed xs ys + (if x \<noteq> y then 1 else 0))"

lemma ed_Nil2 [simp]: "ed xs [] = length xs"
  by (cases xs) auto

text \<open>The entry of the table for two prefixes.\<close>

definition entry :: "'a list \<Rightarrow> 'a list \<Rightarrow> nat \<Rightarrow> nat \<Rightarrow> nat" where
  "entry a b i j = ed (rev (take i a)) (rev (take j b))"

lemma entry_Suc:
  assumes "i < length a" "j < length b"
  shows "entry a b (Suc i) (Suc j) =
    min (min (entry a b i (Suc j) + 1) (entry a b (Suc i) j + 1)) (entry a b i j + (if a ! i \<noteq> b ! j then 1 else 0))"
  using assms by (simp add: entry_def take_Suc_conv_app_nth)

lemma entry_0: "j \<le> length b \<Longrightarrow> entry a b 0 j = j" "i \<le> length a \<Longrightarrow> entry a b i 0 = i"
  by (simp_all add: entry_def)

definition row_ok :: "'a list \<Rightarrow> 'a list \<Rightarrow> nat \<Rightarrow> nat list \<Rightarrow> bool" where
  "row_ok a b i r \<longleftrightarrow> length r = length b + 1 \<and> (\<forall>j \<le> length b. r ! j = entry a b i j)"

lemma lev_row_ok:
  assumes "row_ok a b i prev" "i < length a" "length cur = length b + 1"
  shows "row_ok a b (Suc i) (lev_row a b (Suc i) prev cur)"
proof -
  let ?f = "\<lambda>j c. c[j := lev_cell a b (Suc i) prev c j]"
  have "m \<le> length b \<Longrightarrow> length (fold ?f [1..<m + 1] (cur[0 := Suc i])) = length b + 1 \<and>
      (\<forall>j \<le> m. fold ?f [1..<m + 1] (cur[0 := Suc i]) ! j = entry a b (Suc i) j)" for m
  proof (induction m)
    case 0
    then show ?case using assms by (cases cur) (simp_all add: entry_0)
  next
    case (Suc m)
    let ?c = "fold ?f [1..<m + 1] (cur[0 := Suc i])"
    have c: "length ?c = length b + 1" "\<forall>j \<le> m. ?c ! j = entry a b (Suc i) j"
      using Suc by simp_all
    have "lev_cell a b (Suc i) prev ?c (Suc m) = entry a b (Suc i) (Suc m)"
      using c Suc.prems assms(1,2)
      by (simp add: lev_cell_def Let_def entry_Suc row_ok_def)
    moreover have "fold ?f [1..<Suc m + 1] (cur[0 := Suc i]) = ?f (Suc m) ?c"
      by simp
    ultimately show ?case
      using c Suc.prems by (simp add: nth_list_update le_Suc_eq)
  qed
  from this [of "length b"] show ?thesis by (simp add: lev_row_def row_ok_def)
qed

lemma lev_rows_ok:
  assumes "i \<le> length a"
  shows "case fold (\<lambda>i (prev, cur). (lev_row a b i prev cur, prev)) [1..<i + 1]
      ([0..<length b + 1], replicate (length b + 1) 0) of
    (prev, cur) \<Rightarrow> row_ok a b i prev \<and> length cur = length b + 1"
  using assms
proof (induction i)
  case 0
  then show ?case by (simp add: row_ok_def entry_0 nth_append le_Suc_eq)
next
  case (Suc i)
  then show ?case
    using lev_row_ok [of a b i] by (auto simp: row_ok_def split: prod.splits)
qed

lemma levenshtein_ed: "levenshtein a b = ed (rev a) (rev b)"
proof (cases "a = [] \<or> b = []")
  case False
  have "row_ok a b (length a) (fst (lev_rows a b))"
    using lev_rows_ok [of "length a" a b] by (auto simp: lev_rows_def split: prod.splits)
  with False show ?thesis by (simp add: levenshtein_def row_ok_def entry_def)
qed (auto simp: levenshtein_def)

section \<open>Single edits\<close>

inductive edit :: "'a list \<Rightarrow> 'a list \<Rightarrow> bool" where
  insert: "edit (u @ v) (u @ x # v)"
| delete: "edit (u @ x # v) (u @ v)"
| replace: "edit (u @ x # v) (u @ y # v)"

lemma edit_Cons: "edit s t \<Longrightarrow> edit (x # s) (x # t)"
  by (induction rule: edit.induct) (metis append_Cons edit.intros)+

lemma edits_Cons: "(edit ^^ k) s t \<Longrightarrow> (edit ^^ k) (x # s) (x # t)"
  by (induction k arbitrary: t) (auto intro: edit_Cons)

lemma edit_head: "edit (x # s) s" "edit s (x # s)" "edit (x # s) (y # s)"
  using edit.intros [of "[]"] by auto

lemma edit_rev: "edit s t \<Longrightarrow> edit (rev s) (rev t)"
proof (induction rule: edit.induct)
  case (insert u v x)
  show ?case using edit.insert [of "rev v" "rev u" x] by simp
next
  case (delete u x v)
  show ?case using edit.delete [of "rev v" x "rev u"] by simp
next
  case (replace u x v y)
  show ?case using edit.replace [of "rev v" x "rev u" y] by simp
qed

lemma edits_rev: "(edit ^^ k) s t \<Longrightarrow> (edit ^^ k) (rev s) (rev t)"
  by (induction k arbitrary: t) (auto intro: edit_rev)

text \<open>The recursion is reached by that many edits.\<close>

lemma relpowp_Suc_left: "R a b \<Longrightarrow> (R ^^ k) b c \<Longrightarrow> (R ^^ (k + 1)) a c"
  by (metis Suc_eq_plus1 relpowp_Suc_I2)

lemma relpowp_Suc_right: "(R ^^ k) a b \<Longrightarrow> R b c \<Longrightarrow> (R ^^ (k + 1)) a c"
  by (metis Suc_eq_plus1 relpowp_Suc_I)

lemma edits_ed: "(edit ^^ ed s t) s t"
proof (induction s t rule: ed.induct)
  case (1 ys)
  show ?case
  proof (induction ys)
    case (Cons y ys)
    then show ?case using relpowp_Suc_right [OF Cons edit_head(2)] by simp
  qed simp
next
  case (2 x xs)
  have "(edit ^^ length zs) zs []" for zs :: "'a list"
    by (induction zs) (auto intro: relpowp_Suc_left [simplified] edit_head(1))
  from this [of "x # xs"] show ?case by (simp only: ed_Nil2)
next
  case (3 x xs y ys)
  have d: "(edit ^^ (ed xs (y # ys) + 1)) (x # xs) (y # ys)"
    using relpowp_Suc_left [OF edit_head(1) "3.IH"(1)] .
  have i: "(edit ^^ (ed (x # xs) ys + 1)) (x # xs) (y # ys)"
    using relpowp_Suc_right [OF "3.IH"(2) edit_head(2)] .
  have r: "(edit ^^ (ed xs ys + (if x \<noteq> y then 1 else 0))) (x # xs) (y # ys)"
    using relpowp_Suc_left [OF edit_head(3) edits_Cons [OF "3.IH"(3)]] edits_Cons [OF "3.IH"(3)]
    by auto
  from d i r show ?case by (auto simp: min_def split: if_splits)
qed

text \<open>One more edit costs at most one.\<close>

lemma ed_delete: "ed a s \<le> ed a (x # s) + 1"
proof (induction a)
  case (Cons h a)
  then show ?case by (cases s) (auto simp: min_def)
qed simp

lemma ed_insert: "ed a (x # s) \<le> ed a s + 1"
  by (cases a; cases s) (auto simp: min_def)

lemma ed_replace: "ed a (y # s) \<le> ed a (x # s) + 1"
  by (induction a) (auto simp: min_def)

lemma ed_context:
  assumes "\<forall>a. ed a t \<le> ed a s + 1"
  shows "ed a (x # t) \<le> ed a (x # s) + 1"
proof (induction a)
  case Nil
  then show ?case using assms [THEN spec, of "[]"] by simp
next
  case (Cons h a)
  have "ed (h # a) t \<le> ed (h # a) s + 1" "ed a t \<le> ed a s + 1" using assms by blast+
  with Cons show ?case by (auto simp: min_def)
qed

lemma ed_edit: "edit s t \<Longrightarrow> ed a t \<le> ed a s + 1"
proof (induction arbitrary: a rule: edit.induct)
  case (insert u v x)
  then show ?case by (induction u arbitrary: a) (auto intro: ed_insert [simplified] ed_context [simplified])
next
  case (delete u x v)
  then show ?case by (induction u arbitrary: a) (auto intro: ed_delete [simplified] ed_context [simplified])
next
  case (replace u x v y)
  then show ?case by (induction u arbitrary: a) (auto intro: ed_replace [simplified] ed_context [simplified])
qed

lemma ed_edits: "(edit ^^ k) s t \<Longrightarrow> ed s t \<le> k"
proof (induction k arbitrary: t)
  case 0
  have "ed s s = 0" by (induction s) auto
  with 0 show ?case by simp
next
  case (Suc k)
  then obtain u where "(edit ^^ k) s u" "edit u t" by auto
  with Suc.IH [of u] ed_edit [of u t s] show ?case by simp
qed

lemma levenshtein_edits: "levenshtein a b \<le> k \<longleftrightarrow> (\<exists>j \<le> k. (edit ^^ j) a b)"
proof
  assume "levenshtein a b \<le> k"
  moreover have "(edit ^^ levenshtein a b) a b"
    using edits_rev [OF edits_ed, of "rev a" "rev b"] by (simp add: levenshtein_ed)
  ultimately show "\<exists>j \<le> k. (edit ^^ j) a b" by blast
next
  assume "\<exists>j \<le> k. (edit ^^ j) a b"
  then obtain j where "j \<le> k" "(edit ^^ j) (rev a) (rev b)" using edits_rev by blast
  with ed_edits show "levenshtein a b \<le> k" by (fastforce simp: levenshtein_ed)
qed

text \<open>
  C30. The table computes the edit distance: its last entry is the least number of single
  insertions, deletions and replacements that turn one text into the other, for texts of
  any length (the code's comment speaks of a cap at 2, there is none).
\<close>

theorem levenshtein_least: "levenshtein a b = (LEAST k. (edit ^^ k) a b)"
proof (rule Least_equality [symmetric])
  show "(edit ^^ levenshtein a b) a b"
    using edits_rev [OF edits_ed, of "rev a" "rev b"] by (simp add: levenshtein_ed)
  show "levenshtein a b \<le> k" if "(edit ^^ k) a b" for k
    using levenshtein_edits [of a b k] that by blast
qed

end
