(* ===== verification/Phishing.thy ===== *)
theory Phishing
  imports Edit_Distance Mail_View
begin

text \<open>
  The phishing warnings of a message (crates/inbx-render/src/phishing.rs): a reply address in
  another domain, a sender domain one edit away from a well-known one, and links whose text
  names another domain than their target. \<open>alnum\<close> tells which non-ASCII characters
  Unicode counts as alphanumeric.
\<close>

section \<open>Domains\<close>

definition address_domain :: "string \<Rightarrow> string option" where
  "address_domain addr =
     (case rsplit_once (CHR ''@'') addr of
        None \<Rightarrow> None
      | Some (_, d) \<Rightarrow>
          (let domain = trim_end_matches (\<lambda>c. c = CHR ''.'') d
           in if domain = [] then None else Some (to_ascii_lowercase domain)))"

definition WELL_KNOWN :: "string list" where
  "WELL_KNOWN =
     [''gmail.com'', ''google.com'', ''microsoft.com'', ''outlook.com'', ''apple.com'',
      ''paypal.com'', ''amazon.com'', ''github.com'', ''kryptic.sh'']"

datatype phishing_warning =
  Reply_To_Domain_Mismatch string string
| Lookalike_From_Domain string string
| Link_Text_Href_Mismatch string string string

text \<open>The first well-known domain at distance at most one; none for a well-known domain itself.\<close>

definition lookalike_warning :: "string \<Rightarrow> phishing_warning list" where
  "lookalike_warning fd =
     (if fd \<in> set WELL_KNOWN then []
      else case List.find (\<lambda>target. levenshtein (chars fd) (chars target) \<le> 1) WELL_KNOWN of
        None \<Rightarrow> []
      | Some target \<Rightarrow> [Lookalike_From_Domain fd target])"

definition reply_warning :: "string \<Rightarrow> mail_view \<Rightarrow> phishing_warning list" where
  "reply_warning fd m =
     (case Option.bind (first_address (mv_reply_to m)) address_domain of
        None \<Rightarrow> []
      | Some rd \<Rightarrow> if fd \<noteq> rd then [Reply_To_Domain_Mismatch fd rd] else [])"

definition sender_warnings :: "mail_view \<Rightarrow> phishing_warning list" where
  "sender_warnings m =
     (case Option.bind (first_address (mv_from m)) address_domain of
        None \<Rightarrow> []
      | Some fd \<Rightarrow> reply_warning fd m @ lookalike_warning fd)"

section \<open>Links\<close>

text \<open>\<^verbatim>\<open>strip_prefix\<close>.\<close>

definition strip_front :: "string \<Rightarrow> string \<Rightarrow> string option" where
  "strip_front p s = (if prefix p s then Some (drop (length p) s) else None)"

definition domain_of_url :: "string \<Rightarrow> string option" where
  "domain_of_url url =
     (let lc = to_ascii_lowercase url;
          rest = (case strip_front ''https://'' lc of Some r \<Rightarrow> Some r | None \<Rightarrow> strip_front ''http://'' lc)
      in case rest of
           None \<Rightarrow> None
         | Some r \<Rightarrow>
             (let host = trim_end_matches (\<lambda>c. c = CHR ''.'') (takeWhile (\<lambda>c. c \<notin> set ''/?#:'') r)
              in if host = [] then None else Some host))"

definition is_alphanumeric :: "(string \<Rightarrow> bool) \<Rightarrow> string \<Rightarrow> bool" where
  "is_alphanumeric alnum ch = (case ch of [c] \<Rightarrow> is_ascii_alphanumeric c | _ \<Rightarrow> alnum ch)"

text \<open>\<^verbatim>\<open>split_ascii_whitespace\<close>.\<close>

fun split_ascii_ws :: "string \<Rightarrow> string \<Rightarrow> string list" where
  "split_ascii_ws acc [] = (if acc = [] then [] else [rev acc])"
| "split_ascii_ws acc (c # s) =
     (if is_ascii_whitespace c then (if acc = [] then [] else [rev acc]) @ split_ascii_ws [] s
      else split_ascii_ws (c # acc) s)"

definition trim_word :: "(string \<Rightarrow> bool) \<Rightarrow> string \<Rightarrow> string" where
  "trim_word alnum w =
     concat (trim_matches (\<lambda>ch. \<not> is_alphanumeric alnum ch \<and> ch \<noteq> ''.'' \<and> ch \<noteq> ''-'') (chars w))"

definition domain_word :: "string \<Rightarrow> string option" where
  "domain_word w =
     (case find_idx (\<lambda>c. c = CHR ''.'') w of
        None \<Rightarrow> None
      | Some i \<Rightarrow>
          (let lhs = take i w; rhs = drop (i + 1) w
           in if list_all (\<lambda>c. is_ascii_alphanumeric c \<or> c = CHR ''-'') lhs \<and> lhs \<noteq> [] \<and>
                 2 \<le> length rhs \<and> list_all (\<lambda>c. is_ascii_alphabetic c \<or> c = CHR ''.'' \<or> c = CHR ''-'') rhs
              then Some (to_ascii_lowercase (takeWhile (\<lambda>c. c \<notin> set ''/?#'') w))
              else None))"

fun first_domain :: "(string \<Rightarrow> bool) \<Rightarrow> string list \<Rightarrow> string option" where
  "first_domain alnum [] = None"
| "first_domain alnum (w # ws) =
     (case domain_word (trim_word alnum w) of Some d \<Rightarrow> Some d | None \<Rightarrow> first_domain alnum ws)"

definition text_contains_domain :: "(string \<Rightarrow> bool) \<Rightarrow> string \<Rightarrow> string option" where
  "text_contains_domain alnum t = first_domain alnum (split_ascii_ws [] t)"

fun strip_tags_from :: "bool \<Rightarrow> string \<Rightarrow> string" where
  "strip_tags_from in_tag [] = []"
| "strip_tags_from in_tag (c # s) =
     (if c = CHR ''<'' then strip_tags_from True s
      else if c = CHR ''>'' then strip_tags_from False s
      else if in_tag then strip_tags_from in_tag s
      else c # strip_tags_from in_tag s)"

definition strip_tags :: "string \<Rightarrow> string" where
  "strip_tags s = strip_tags_from False s"

text \<open>
  A quoted or bare attribute value at the front of \<open>after\<close>; \<^verbatim>\<open>split_at(1)\<close> panics on an
  empty rest and inside a character. A bare value ends before white space or \<open>>\<close>.
\<close>

fun bare_end :: "string \<Rightarrow> nat option" where
  "bare_end [] = None"
| "bare_end (c # s) =
     (if c = CHR ''>'' \<or> ws_at ws_seqs (c # s) \<noteq> 0 then Some 0 else map_option Suc (bare_end s))"

definition attr_value :: "string \<Rightarrow> string option outcome" where
  "attr_value after =
     (if after = [] then Panic
      else bind_outcome (split_at 1 after) (\<lambda>(q, rest). Return
        (if q = [CHR 0x22] then map_option (\<lambda>e. take e rest) (find_idx (\<lambda>c. c = CHR 0x22) rest)
         else if q = [CHR 0x27] then map_option (\<lambda>e. take e rest) (find_idx (\<lambda>c. c = CHR 0x27) rest)
         else map_option (\<lambda>e. take e after) (bare_end after))))"

definition extract_href :: "string \<Rightarrow> string option outcome" where
  "extract_href tag =
     (case find_sub ''href='' (to_ascii_lowercase tag) of
        None \<Rightarrow> Return None
      | Some pos \<Rightarrow> attr_value (drop (pos + 5) tag))"

definition link_warning :: "(string \<Rightarrow> bool) \<Rightarrow> string option \<Rightarrow> string \<Rightarrow> phishing_warning list" where
  "link_warning alnum href inner =
     (case href of
        None \<Rightarrow> []
      | Some h \<Rightarrow>
          (case domain_of_url h of
             None \<Rightarrow> []
           | Some host \<Rightarrow>
               (case text_contains_domain alnum (strip_tags inner) of
                  None \<Rightarrow> []
                | Some td \<Rightarrow> if td \<noteq> host then [Link_Text_Href_Mismatch td host h] else [])))"

text \<open>The scan for \<^verbatim>\<open><a ...>...</a>\<close>, on the rest of the text.\<close>

function check_link_mismatches :: "(string \<Rightarrow> bool) \<Rightarrow> string \<Rightarrow> phishing_warning list outcome" where
  "check_link_mismatches alnum html =
     (case find_sub ''<a '' (to_ascii_lowercase html) of
        None \<Rightarrow> Return []
      | Some r \<Rightarrow>
          (case find_idx (\<lambda>c. c = CHR ''>'') (drop r html) of
             None \<Rightarrow> Return []
           | Some tag_close \<Rightarrow>
               (let tag_open = take (tag_close + 1) (drop r html);
                    rest = drop (r + tag_close + 1) html
                in bind_outcome (extract_href tag_open) (\<lambda>href.
                  case find_sub ''</a'' (to_ascii_lowercase rest) of
                    None \<Rightarrow> Return []
                  | Some close_at \<Rightarrow>
                      (let later = (case find_idx (\<lambda>c. c = CHR ''>'') (drop close_at rest) of
                                     Some e \<Rightarrow> drop (close_at + e + 1) rest | None \<Rightarrow> drop close_at rest)
                       in bind_outcome (check_link_mismatches alnum later) (\<lambda>ws.
                            Return (link_warning alnum href (take close_at rest) @ ws)))))))"
  by pat_completeness auto
termination
proof (relation "measure (\<lambda>(alnum, html). length html)", goal_cases)
  case (2 alnum html r tag_close tag_open rest href close_at later)
  then have "length later \<le> length rest" by (auto split: option.splits)
  moreover have "length rest < length html"
    using 2 find_sub_bound [of "''<a ''" "to_ascii_lowercase html" r] by simp
  ultimately show ?case by simp
qed simp

declare check_link_mismatches.simps [simp del]

definition analyze ::
  "(string \<Rightarrow> mail_view option) \<Rightarrow> (string \<Rightarrow> bool) \<Rightarrow> string \<Rightarrow> string option \<Rightarrow> phishing_warning list outcome" where
  "analyze parse alnum msg html =
     (let w = (case parse msg of None \<Rightarrow> [] | Some m \<Rightarrow> sender_warnings m)
      in case html of
           None \<Rightarrow> Return w
         | Some h \<Rightarrow> bind_outcome (check_link_mismatches alnum h) (\<lambda>ls. Return (w @ ls)))"

section \<open>Senders one edit away\<close>

lemma chars_inj: "chars s = chars t \<longleftrightarrow> s = t"
  by (metis concat_chars)

lemma one_edit: "levenshtein a b \<le> 1 \<longleftrightarrow> a = b \<or> edit a b"
proof -
  have "(\<exists>j \<le> 1. (edit ^^ j) a b) \<longleftrightarrow> (edit ^^ 0) a b \<or> (edit ^^ 1) a b"
    by (metis One_nat_def le_Suc_eq le_zero_eq le_refl)
  then show ?thesis by (simp only: levenshtein_edits relpowp_1 relpowp.simps(1))
qed

lemma lookalike_warning_iff:
  "(\<exists>t. Lookalike_From_Domain fd t \<in> set (lookalike_warning fd)) \<longleftrightarrow>
   fd \<notin> set WELL_KNOWN \<and> (\<exists>t \<in> set WELL_KNOWN. edit (chars fd) (chars t))"
proof (cases "fd \<in> set WELL_KNOWN")
  case False
  then have near: "levenshtein (chars fd) (chars t) \<le> 1 \<longleftrightarrow> edit (chars fd) (chars t)" if "t \<in> set WELL_KNOWN" for t
    using that chars_inj by (metis one_edit)
  have "(\<exists>t. Lookalike_From_Domain fd t \<in> set (lookalike_warning fd)) \<longleftrightarrow>
      (\<exists>t \<in> set WELL_KNOWN. levenshtein (chars fd) (chars t) \<le> 1)"
  proof (cases "List.find (\<lambda>target. levenshtein (chars fd) (chars target) \<le> 1) WELL_KNOWN")
    case None
    then have "\<not> (\<exists>t \<in> set WELL_KNOWN. levenshtein (chars fd) (chars t) \<le> 1)"
      by (auto simp: find_None_iff)
    with False None show ?thesis by (simp add: lookalike_warning_def del: One_nat_def)
  next
    case (Some t)
    then have "t \<in> set WELL_KNOWN \<and> levenshtein (chars fd) (chars t) \<le> 1"
      by (auto simp: find_Some_iff)
    with False Some show ?thesis unfolding lookalike_warning_def by auto
  qed
  with False near show ?thesis by blast
qed (simp add: lookalike_warning_def)

text \<open>
  Exactly the senders one edit away are flagged: a message gets a lookalike warning for
  its sender's domain if and only if that domain is not well known itself and one
  insertion, deletion or replacement of a character turns it into a well-known one.
\<close>

theorem lookalike_sender_flagged:
  assumes "parse msg = Some m" "first_address (mv_from m) = Some a" "address_domain a = Some fd"
  shows "\<exists>ws. analyze parse alnum msg None = Return ws \<and>
    ((\<exists>t. Lookalike_From_Domain fd t \<in> set ws) \<longleftrightarrow>
     fd \<notin> set WELL_KNOWN \<and> (\<exists>t \<in> set WELL_KNOWN. edit (chars fd) (chars t)))"
proof -
  let ?ws = "reply_warning fd m @ lookalike_warning fd"
  have "analyze parse alnum msg None = Return ?ws"
    using assms by (simp add: analyze_def sender_warnings_def)
  moreover have "Lookalike_From_Domain fd t \<notin> set (reply_warning fd m)" for t
    by (simp add: reply_warning_def split: option.split)
  then have "(\<exists>t. Lookalike_From_Domain fd t \<in> set ?ws) \<longleftrightarrow>
      (\<exists>t. Lookalike_From_Domain fd t \<in> set (lookalike_warning fd))" by auto
  ultimately show ?thesis using lookalike_warning_iff by metis
qed

definition spoof_view :: mail_view where
  "spoof_view =
     \<lparr>mv_headers = [], header_values = (\<lambda>_. []), header_of = (\<lambda>_. None),
      mv_from = Some [\<lparr>display_name = None, address = Some ''x@Gooogle.com''\<rparr>], mv_to = None, mv_cc = None,
      mv_bcc = None, mv_reply_to = None, mv_subject = None, mv_message_id = None, mv_references = None,
      mv_date = None, mv_body_text = None, mv_parts = []\<rparr>"

theorem lookalike_sender_flagged_witness:
  "\<exists>ws. analyze (\<lambda>_. Some spoof_view) (\<lambda>_. False) [] None = Return ws \<and>
    (\<exists>t. Lookalike_From_Domain ''gooogle.com'' t \<in> set ws)"
proof -
  have "\<exists>ws. analyze (\<lambda>_. Some spoof_view) (\<lambda>_. False) [] None = Return ws \<and>
    ((\<exists>t. Lookalike_From_Domain ''gooogle.com'' t \<in> set ws) \<longleftrightarrow>
     ''gooogle.com'' \<notin> set WELL_KNOWN \<and> (\<exists>t \<in> set WELL_KNOWN. edit (chars ''gooogle.com'') (chars t)))"
    by (rule lookalike_sender_flagged [where parse = "\<lambda>_. Some spoof_view" and m = spoof_view and a = "''x@Gooogle.com''"])
      (simp, code_simp+)
  moreover have "''gooogle.com'' \<notin> set WELL_KNOWN" "''google.com'' \<in> set WELL_KNOWN" by code_simp+
  moreover have c: "chars ''gooogle.com'' = map (\<lambda>c. [c]) ''gooogle.com''"
    "chars ''google.com'' = map (\<lambda>c. [c]) ''google.com''" by code_simp+
  have "edit (chars ''gooogle.com'') (chars ''google.com'')"
    using edit.delete [of "[''g'', ''o'', ''o'']" "''o''" "[''g'', ''l'', ''e'', ''.'', ''c'', ''o'', ''m'']"]
    unfolding c by simp
  ultimately show ?thesis by blast
qed

section \<open>Links in ASCII text\<close>

lemma attr_value_ascii: "list_all (\<lambda>c. byte c < 128) s \<Longrightarrow> s \<noteq> [] \<Longrightarrow> attr_value s \<noteq> Panic"
proof -
  assume a: "list_all (\<lambda>c. byte c < 128) s" "s \<noteq> []"
  then have "is_char_boundary 1 s"
    by (cases s rule: list.exhaust; cases "tl s") (auto simp: is_char_boundary_def is_cont_def)
  with a(2) show ?thesis by (simp add: attr_value_def split_at_def)
qed

lemma extract_href_ascii:
  assumes "list_all (\<lambda>c. byte c < 128) tag" "tag \<noteq> []" "last tag = CHR ''>''"
  shows "extract_href tag \<noteq> Panic"
proof (cases "find_sub ''href='' (to_ascii_lowercase tag)")
  case (Some pos)
  then have p: "prefix ''href='' (drop pos (to_ascii_lowercase tag))" "pos + 5 \<le> length tag"
    using find_sub_Some find_sub_bound by fastforce+
  have "pos + 5 \<noteq> length tag"
  proof
    assume l: "pos + 5 = length tag"
    obtain zs where z: "drop pos (to_ascii_lowercase tag) = ''href='' @ zs" using p(1) by (auto simp: prefix_def)
    moreover have "length (drop pos (to_ascii_lowercase tag)) = 5" using l by simp
    ultimately have "drop pos (to_ascii_lowercase tag) = ''href=''" by simp
    then have "last (to_ascii_lowercase tag) = CHR ''=''"
      by (metis (no_types) last_drop last.simps list.distinct(1) drop_eq_Nil not_le_imp_less)
    moreover have "last (to_ascii_lowercase tag) = lower_char (last tag)"
      using assms(2) by (simp add: to_ascii_lowercase_def last_map)
    ultimately show False using assms(3) by (simp add: lower_char_def is_ascii_upper_def byte_def)
  qed
  with p(2) assms(1) attr_value_ascii [of "drop (pos + 5) tag"] Some show ?thesis
    by (auto simp: extract_href_def list_all_iff dest: in_set_dropD)
qed (simp add: extract_href_def)

text \<open>
  Checking the links of ASCII text never panics, whatever tags it holds: a tag ends with
  \<open>>\<close>, so an attribute that is cut off still leaves a character to split at.
\<close>

theorem check_links_ascii_total:
  assumes "list_all (\<lambda>c. byte c < 128) html"
  shows "check_link_mismatches alnum html \<noteq> Panic"
  using assms
proof (induction alnum html rule: check_link_mismatches.induct)
  case (1 alnum html)
  have ascii: "list_all (\<lambda>c. byte c < 128) (drop n html)" for n
    using "1.prems" by (auto simp: list_all_iff dest: in_set_dropD)
  show ?case
  proof (cases "find_sub ''<a '' (to_ascii_lowercase html)")
    case r: (Some r)
    show ?thesis
    proof (cases "find_idx (\<lambda>c. c = CHR ''>'') (drop r html)")
      case t: (Some tc)
      let ?tag = "take (tc + 1) (drop r html)" and ?rest = "drop (r + tc + 1) html"
      have tag: "tc < length (drop r html)" "drop r html ! tc = CHR ''>''" using t by (auto simp: find_idx_Some)
      then have "last ?tag = CHR ''>''" "?tag \<noteq> []"
        by (auto simp: take_Suc_conv_app_nth)
      moreover have "list_all (\<lambda>c. byte c < 128) ?tag"
        using ascii [of r] by (auto simp: list_all_iff dest: in_set_takeD)
      ultimately obtain href where h: "extract_href ?tag = Return href"
        using extract_href_ascii by (cases "extract_href ?tag") auto
      show ?thesis
      proof (cases "find_sub ''</a'' (to_ascii_lowercase ?rest)")
        case c: (Some cl)
        define nxt where "nxt = (case find_idx (\<lambda>c. c = CHR ''>'') (drop cl ?rest) of
          Some e \<Rightarrow> drop (cl + e + 1) ?rest | None \<Rightarrow> drop cl ?rest)"
        have "list_all (\<lambda>c. byte c < 128) nxt"
          unfolding nxt_def by (auto simp: ascii split: option.split)
        with "1.IH" [OF r t refl refl h c nxt_def] obtain ws where "check_link_mismatches alnum nxt = Return ws"
          by (cases "check_link_mismatches alnum nxt") auto
        then show ?thesis
          unfolding nxt_def using r t h c
          by (subst check_link_mismatches.simps) (simp add: Let_def cong: option.case_cong)
      qed (use r t h in \<open>subst check_link_mismatches.simps; simp add: Let_def\<close>)
    qed (use r in \<open>subst check_link_mismatches.simps; simp\<close>)
  qed (subst check_link_mismatches.simps; simp)
qed

theorem check_links_ascii_total_witness:
  "check_link_mismatches (\<lambda>_. False) ''<a href=>y.org</a><a href'' \<noteq> Panic"
  by (rule check_links_ascii_total) code_simp

end
