(* ===== verification/Html_Images.thy ===== *)
theory Html_Images
  imports Phishing "HOL-Library.List_Lexorder" "HOL-Library.Char_ord"
begin

text \<open>
  Blocking remote images (crates/inbx-render/src/lib.rs). The HTML sanitizer (the ammonia
  crate) and its escaping of text are parameters. The set of trackers is the list of its
  elements, in the order of their first occurrence.
\<close>

definition extract_attr :: "string \<Rightarrow> string \<Rightarrow> string option outcome" where
  "extract_attr tag n =
     (let needle = '' '' @ n @ ''=''
      in case find_sub needle (to_ascii_lowercase tag) of
           None \<Rightarrow> Return None
         | Some idx \<Rightarrow> attr_value (drop (idx + length needle) tag))"

text \<open>The end of the value that starts at \<open>i\<close>.\<close>

definition value_end :: "string \<Rightarrow> nat \<Rightarrow> nat" where
  "value_end tag i =
     (let after = drop i tag; n = length tag
      in case after of
           [] \<Rightarrow> n
         | q # rest \<Rightarrow>
             if q = CHR 0x22 \<or> q = CHR 0x27
             then (case find_idx (\<lambda>c. c = q) rest of Some e \<Rightarrow> i + 1 + e + 1 | None \<Rightarrow> n)
             else (case bare_end after of Some e \<Rightarrow> i + e | None \<Rightarrow> n))"

definition strip_attr :: "string \<Rightarrow> string \<Rightarrow> string" where
  "strip_attr tag n =
     (let needle = '' '' @ n @ ''=''
      in case find_sub needle (to_ascii_lowercase tag) of
           None \<Rightarrow> tag
         | Some idx \<Rightarrow> take idx tag @ drop (value_end tag (idx + length needle)) tag)"

definition is_remote :: "string \<Rightarrow> bool" where
  "is_remote url =
     (let l = to_ascii_lowercase url
      in prefix ''http://'' l \<or> prefix ''https://'' l \<or> prefix ''//'' l)"

definition TRACKER_HOSTS :: "string list" where
  "TRACKER_HOSTS =
     [''click.notifications.'', ''track.'', ''tracking.'', ''open.'', ''pixel.'', ''beacon.'', ''links.'',
      ''email.'', ''list-manage.com'', ''mailchimp.com'', ''sendgrid.net'', ''rs6.net'', ''mailgun.org'',
      ''sparkpostmail.com'', ''amazonses.com'']"

definition is_tracker :: "string \<Rightarrow> bool" where
  "is_tracker url =
     (let l = to_ascii_lowercase url
      in list_ex (contains l) TRACKER_HOSTS \<or> contains l ''/open?'' \<or> contains l ''/pixel'' \<or>
         contains l ''track='')"

text \<open>The tag that replaces one with a remote source.\<close>

definition neutered_tag :: "(string \<Rightarrow> string) \<Rightarrow> string \<Rightarrow> string \<Rightarrow> string outcome" where
  "neutered_tag clean_text tag url =
     (let n = strip_attr tag ''src''
      in if n = [] then Panic
         else bind_outcome (str_slice 0 (length n - 1) n) (\<lambda>lhs. Return
           (lhs @ '' data-inbx-blocked='' @ dquote (clean_text url) @ ''>'')))"

text \<open>One image tag: what is written, whether it was blocked, the tracker it names.\<close>

definition block_tag :: "(string \<Rightarrow> string) \<Rightarrow> string \<Rightarrow> (string \<times> nat \<times> string list) outcome" where
  "block_tag clean_text tag =
     bind_outcome (extract_attr tag ''src'') (\<lambda>src.
       case src of
         None \<Rightarrow> Return (tag, 0, [])
       | Some url \<Rightarrow>
           if is_remote url
           then bind_outcome (neutered_tag clean_text tag url) (\<lambda>t.
                  Return (t, 1, if is_tracker url then [url] else []))
           else Return (tag, 0, []))"

function block_remote_imgs :: "(string \<Rightarrow> string) \<Rightarrow> string \<Rightarrow> (string \<times> nat \<times> string list) outcome" where
  "block_remote_imgs clean_text html =
     (case find_sub ''<img'' (to_ascii_lowercase html) of
        None \<Rightarrow> Return (html, 0, [])
      | Some rel \<Rightarrow>
          (case find_idx (\<lambda>c. c = CHR ''>'') (drop rel html) of
             None \<Rightarrow> Return (html, 0, [])
           | Some e \<Rightarrow>
               bind_outcome (block_tag clean_text (take (e + 1) (drop rel html))) (\<lambda>(t, n, trk).
               bind_outcome (block_remote_imgs clean_text (drop (rel + e + 1) html)) (\<lambda>(out, m, trks).
                 Return (take rel html @ t @ out, n + m, trk @ trks)))))"
  by pat_completeness auto
termination
proof (relation "measure (\<lambda>(clean, html). length html)", goal_cases)
  case (2 clean html rel e t n trk)
  then show ?case using find_sub_bound [of "''<img''" "to_ascii_lowercase html" rel] by simp
qed simp

declare block_remote_imgs.simps [simp del]

datatype remote_policy = Block | Allow

definition sanitize_html ::
  "(string \<Rightarrow> string) \<Rightarrow> (string \<Rightarrow> string) \<Rightarrow> string \<Rightarrow> remote_policy \<Rightarrow> (string \<times> nat \<times> string list) outcome" where
  "sanitize_html clean clean_text html policy =
     (case policy of
        Allow \<Rightarrow> Return (clean html, 0, [])
      | Block \<Rightarrow>
          bind_outcome (block_remote_imgs clean_text (clean html)) (\<lambda>(out, n, trks).
            Return (out, n, sort (remdups trks))))"

section \<open>What is blocked\<close>

text \<open>The image tags the scan sees, and those with a remote source.\<close>

function img_tags :: "string \<Rightarrow> string list" where
  "img_tags html =
     (case find_sub ''<img'' (to_ascii_lowercase html) of
        None \<Rightarrow> []
      | Some rel \<Rightarrow>
          (case find_idx (\<lambda>c. c = CHR ''>'') (drop rel html) of
             None \<Rightarrow> []
           | Some e \<Rightarrow> take (e + 1) (drop rel html) # img_tags (drop (rel + e + 1) html)))"
  by pat_completeness auto
termination
proof (relation "measure length", goal_cases)
  case (2 html rel e)
  then show ?case using find_sub_bound [of "''<img''" "to_ascii_lowercase html" rel] by simp
qed simp

declare img_tags.simps [simp del]

definition source_of :: "string \<Rightarrow> string option" where
  "source_of tag = (case extract_attr tag ''src'' of Return (Some u) \<Rightarrow> Some u | _ \<Rightarrow> None)"

definition remote_source :: "string \<Rightarrow> bool" where
  "remote_source tag = (case source_of tag of Some u \<Rightarrow> is_remote u | None \<Rightarrow> False)"

lemma block_tag_cases:
  assumes "block_tag clean tag = Return (t, n, trk)"
  shows "n = (if remote_source tag then 1 else 0)" "\<not> remote_source tag \<Longrightarrow> t = tag"
    "set trk = {u. source_of tag = Some u \<and> is_remote u \<and> is_tracker u}"
  using assms
  by (auto simp: block_tag_def remote_source_def source_of_def bind_outcome_def
      split: outcome.splits option.splits if_splits)



text \<open>
  C34. A remote image can hide from the blocker: the source is looked for as the text
  \<^verbatim>\<open> src=\<close> anywhere in the tag, so an earlier attribute whose value holds that text hides
  the real source, and the tag is written out unblocked whatever address it loads.
\<close>

theorem hidden_source_not_blocked:
  assumes "CHR ''>'' \<notin> set url"
  shows "block_remote_imgs clean_text (''<img alt='' @ dquote '' src=y'' @ '' src='' @ dquote url @ ''>'') =
    Return (''<img alt='' @ dquote '' src=y'' @ '' src='' @ dquote url @ ''>'', 0, [])"
proof -
  let ?A = "''<img alt='' @ dquote '' src=y'' @ '' src='' @ dquote url" and ?tail = "'' src='' @ dquote url @ ''>''"
  let ?h = "?A @ ''>''"
  have low: "to_ascii_lowercase ?h = ''<img alt='' @ dquote '' src=y'' @ to_ascii_lowercase ?tail"
    by (simp add: dquote_def to_ascii_lowercase_def lower_char_def is_ascii_upper_def byte_def)
  have "find_sub ''<img'' (to_ascii_lowercase ?h) = Some 0" unfolding low by simp
  moreover have "find_idx (\<lambda>c. c = CHR ''>'') ?h = Some (length ?A)"
    using assms by (intro find_idx_append_free) (auto simp: dquote_def)
  moreover have "find_sub '' src='' (to_ascii_lowercase ?h) = Some 10"
    unfolding low by (simp add: dquote_def)
  moreover have "drop 15 ?h = ''y'' @ CHR 0x22 # ?tail" by (simp add: dquote_def)
  moreover have "attr_value (''y'' @ CHR 0x22 # ?tail) = Return (Some [CHR ''y'', CHR 0x22])"
  proof -
    have ws: "ws_at ws_seqs (CHR ''y'' # s) = 0" "ws_at ws_seqs (CHR 0x22 # s) = 0" "ws_at ws_seqs (CHR '' '' # s) = 1" for s
      by (rule ws_at_plain; simp add: plain_char_def byte_def)+ (rule ws_at_space)
    show ?thesis
      by (simp add: attr_value_def split_at_def is_char_boundary_def is_cont_def byte_def ws)
  qed
  moreover have "\<not> is_remote [CHR ''y'', CHR 0x22]" by code_simp
  ultimately have "block_remote_imgs clean_text ?h = Return (?h, 0, [])"
    using block_remote_imgs.simps [of clean_text "[]"]
    by (subst block_remote_imgs.simps) (simp add: block_tag_def extract_attr_def)
  then show ?thesis by simp
qed

theorem hidden_source_not_blocked_witness:
  "block_remote_imgs id (''<img alt='' @ dquote '' src=y'' @ '' src='' @ dquote ''http://track.x/p'' @ ''>'') =
    Return (''<img alt='' @ dquote '' src=y'' @ '' src='' @ dquote ''http://track.x/p'' @ ''>'', 0, [])"
  by (rule hidden_source_not_blocked) simp

end
