(* ===== verification/Pgp_Mime.thy ===== *)
theory Pgp_Mime
  imports Utf8_Lossy Store_Schema
begin

text \<open>
  PGP/MIME assembly and the Autocrypt header (crates/inbx-pgp/src/mime.rs). The key source is
  the record of its operations, as the code takes it as a trait object; base64 and the
  OpenPGP packet parser are parameters. Bytes and text are byte lists. The nanoseconds the
  code reads from the clock for a boundary are the arguments \<open>ts\<close>.
\<close>

section \<open>Interfaces\<close>

record verify_result =
  valid :: bool
  signer_fingerprint :: "string option"
  signer_uid :: "string option"
  created_unix :: "int option"

record key_source =
  list_keys :: "string + (string \<times> string) list"
  export_public :: "string \<Rightarrow> string + string"
  sign_detached :: "string \<Rightarrow> string \<Rightarrow> string + string"
  verify_detached :: "string \<Rightarrow> string \<Rightarrow> string \<Rightarrow> string + verify_result"
  encrypt_to :: "string list \<Rightarrow> string \<Rightarrow> string + string"
  decrypt :: "string \<Rightarrow> string + string \<times> verify_result"

text \<open>
  Base64 with the standard alphabet, and the OpenPGP parser: the packets of an armored key,
  and the lower-case fingerprint and the armor of a key given as packets.
\<close>

record codec =
  b64_encode :: "string \<Rightarrow> string"
  b64_decode :: "string \<Rightarrow> string + string"
  packets_of_armor :: "string \<Rightarrow> string + string"
  key_of_packets :: "string \<Rightarrow> string + string \<times> string"

record outer_headers =
  oh_from :: string
  oh_to :: "string list"
  oh_cc :: "string list"
  oh_bcc :: "string list"
  oh_subject :: string
  oh_message_id :: "string option"
  oh_in_reply_to :: "string option"
  oh_references :: "string list"
  oh_date :: "string option"
  oh_autocrypt :: "string option"

section \<open>Line endings, boundaries, headers\<close>

text \<open>LF and bare CR become CRLF.\<close>

function normalize_crlf :: "string \<Rightarrow> string" where
  "normalize_crlf [] = []"
| "normalize_crlf (b # s) =
     (if b = CHR 0x0D then crlf @ normalize_crlf (if s \<noteq> [] \<and> hd s = CHR 0x0A then tl s else s)
      else if b = CHR 0x0A then crlf @ normalize_crlf s
      else b # normalize_crlf s)"
  by pat_completeness auto
termination by (relation "measure length") auto

definition hex_lower :: "nat \<Rightarrow> char" where
  "hex_lower d = char_of (if d < 10 then 48 + d else 87 + d)"

fun to_hex :: "nat \<Rightarrow> string" where
  "to_hex n = (if n < 16 then [hex_lower n] else to_hex (n div 16) @ [hex_lower (n mod 16)])"

declare to_hex.simps [simp del]

definition make_boundary :: "string \<Rightarrow> nat \<Rightarrow> string" where
  "make_boundary tag ts = ''inbx-'' @ tag @ ''-'' @ pad_left (CHR ''0'') 8 (to_hex ts)"

definition header_line :: "string \<Rightarrow> string \<Rightarrow> string" where
  "header_line n v = n @ '': '' @ v @ crlf"

definition optional_header :: "string \<Rightarrow> string option \<Rightarrow> string" where
  "optional_header n v = (case v of None \<Rightarrow> [] | Some x \<Rightarrow> header_line n x)"

definition write_outer_headers :: "outer_headers \<Rightarrow> string" where
  "write_outer_headers h =
     header_line ''Date'' (case oh_date h of Some d \<Rightarrow> d | None \<Rightarrow> ''Thu, 01 Jan 1970 00:00:00 +0000'') @
     header_line ''From'' (oh_from h) @
     concat (map (header_line ''To'') (oh_to h)) @
     concat (map (header_line ''Cc'') (oh_cc h)) @
     header_line ''Subject'' (oh_subject h) @
     optional_header ''Message-ID'' (oh_message_id h) @
     optional_header ''In-Reply-To'' (oh_in_reply_to h) @
     (if oh_references h = [] then [] else header_line ''References'' (join '' '' (oh_references h))) @
     optional_header ''Autocrypt'' (oh_autocrypt h)"

section \<open>Signing and encrypting\<close>

definition delimiter :: "string \<Rightarrow> string" where
  "delimiter boundary = ''--'' @ boundary"

definition signed_head :: "string \<Rightarrow> string" where
  "signed_head boundary =
     ''Content-Type: multipart/signed; protocol='' @ dquote ''application/pgp-signature'' @
     ''; micalg='' @ dquote ''pgp-sha256'' @ ''; boundary='' @ dquote boundary @ crlf @
     ''MIME-Version: 1.0'' @ crlf @ crlf @ delimiter boundary @ crlf"

definition signature_head :: string where
  "signature_head =
     ''Content-Type: application/pgp-signature; name='' @ dquote ''signature.asc'' @ crlf @
     ''Content-Description: OpenPGP digital signature'' @ crlf @
     ''Content-Disposition: attachment; filename='' @ dquote ''signature.asc'' @ crlf"

definition signed_message :: "outer_headers \<Rightarrow> string \<Rightarrow> string \<Rightarrow> string \<Rightarrow> string" where
  "signed_message h boundary inner sig =
     write_outer_headers h @ signed_head boundary @ inner @ crlf @
     delimiter boundary @ crlf @ signature_head @ crlf @ sig @ crlf @
     delimiter boundary @ ''--'' @ crlf"

definition sign_pgp_mime :: "key_source \<Rightarrow> nat \<Rightarrow> string \<Rightarrow> string \<Rightarrow> outer_headers \<Rightarrow> string + string" where
  "sign_pgp_mime source ts signer inner h =
     (let inner_crlf = normalize_crlf inner
      in and_then (sign_detached source signer inner_crlf)
           (\<lambda>sig. Inr (signed_message h (make_boundary ''pgp-signed'' ts) inner_crlf (from_utf8_lossy sig))))"

text \<open>Lines of 76 characters, each ended by CRLF.\<close>

definition b64_wrap :: "codec \<Rightarrow> string \<Rightarrow> string" where
  "b64_wrap c data = concat (map (\<lambda>chunk. chunk @ crlf) (chunks 76 (b64_encode c data)))"

definition inner_headers :: "outer_headers \<Rightarrow> outer_headers" where
  "inner_headers h =
     h\<lparr>oh_message_id := None, oh_in_reply_to := None, oh_references := [], oh_autocrypt := None\<rparr>"

text \<open>What is encrypted: the signed message, or the message itself.\<close>

definition encryption_payload :: "key_source \<Rightarrow> nat \<Rightarrow> string option \<Rightarrow> string \<Rightarrow> outer_headers \<Rightarrow> string + string" where
  "encryption_payload source ts signer inner h =
     (case signer of
        Some s \<Rightarrow> sign_pgp_mime source ts s inner (inner_headers h)
      | None \<Rightarrow> Inr (normalize_crlf inner))"

definition encrypted_head :: "string \<Rightarrow> string" where
  "encrypted_head boundary =
     ''Content-Type: multipart/encrypted; protocol='' @ dquote ''application/pgp-encrypted'' @
     ''; boundary='' @ dquote boundary @ crlf @ ''MIME-Version: 1.0'' @ crlf @ crlf"

definition version_part :: string where
  "version_part =
     ''Content-Type: application/pgp-encrypted'' @ crlf @
     ''Content-Description: PGP/MIME version identification'' @ crlf @ crlf @
     ''Version: 1'' @ crlf @ crlf"

definition ciphertext_head :: string where
  "ciphertext_head =
     ''Content-Type: application/octet-stream; name='' @ dquote ''encrypted.gpg'' @ crlf @
     ''Content-Description: OpenPGP encrypted message'' @ crlf @
     ''Content-Disposition: inline; filename='' @ dquote ''encrypted.gpg'' @ crlf @
     ''Content-Transfer-Encoding: base64'' @ crlf"

definition encrypted_message :: "outer_headers \<Rightarrow> string \<Rightarrow> string \<Rightarrow> string" where
  "encrypted_message h boundary ciphertext_b64 =
     write_outer_headers h @ encrypted_head boundary @
     delimiter boundary @ crlf @ version_part @
     delimiter boundary @ crlf @ ciphertext_head @ crlf @ ciphertext_b64 @ crlf @
     delimiter boundary @ ''--'' @ crlf"

definition encrypt_pgp_mime ::
  "codec \<Rightarrow> key_source \<Rightarrow> nat \<times> nat \<Rightarrow> string option \<Rightarrow> string list \<Rightarrow> string \<Rightarrow> outer_headers \<Rightarrow> string + string" where
  "encrypt_pgp_mime c source ts signer recipients inner h =
     and_then (encryption_payload source (fst ts) signer inner h) (\<lambda>payload.
     and_then (encrypt_to source recipients payload) (\<lambda>ciphertext.
       Inr (encrypted_message h (make_boundary ''pgp-encrypted'' (snd ts)) (b64_wrap c ciphertext))))"

section \<open>The Autocrypt header\<close>

datatype autocrypt_preference = Nopreference | Mutual

record autocrypt_header =
  ac_addr :: string
  ac_keydata_armored :: string
  ac_fingerprint :: string
  ac_prefer_encrypt :: autocrypt_preference

definition blank_tab :: "char \<Rightarrow> bool" where
  "blank_tab c \<longleftrightarrow> c = CHR '' '' \<or> c = CHR 0x09"

text \<open>The first CRLF is removed with the blank behind it, until one is followed by text.\<close>

function unfold_crlf :: "string \<Rightarrow> string" where
  "unfold_crlf s =
     (case find_sub crlf s of
        None \<Rightarrow> s
      | Some pos \<Rightarrow>
          (let after = drop (pos + 2) s
           in if after \<noteq> [] \<and> blank_tab (hd after) then unfold_crlf (take pos s @ tl after) else s))"
  by pat_completeness auto
termination
  by (relation "measure length") (auto dest!: find_sub_bound simp: crlf_def)

declare unfold_crlf.simps [simp del]

fun unfold_lf :: "string \<Rightarrow> string" where
  "unfold_lf [] = []"
| "unfold_lf [c] = [c]"
| "unfold_lf (c # d # s) =
     (if c = CHR 0x0A \<and> blank_tab d then unfold_lf s else c # unfold_lf (d # s))"

record autocrypt_attrs =
  at_addr :: "string option"
  at_keydata :: "string option"
  at_prefer :: autocrypt_preference

definition autocrypt_attr :: "string \<Rightarrow> autocrypt_attrs \<Rightarrow> autocrypt_attrs" where
  "autocrypt_attr piece a =
     (let part = trim piece
      in if part = [] then a
         else case split_once (CHR ''='') part of
           None \<Rightarrow> a
         | Some (k, v) \<Rightarrow>
             (let key = to_ascii_lowercase (trim k); val = trim v
              in if key = ''addr'' then a\<lparr>at_addr := Some val\<rparr>
                 else if key = ''keydata'' then a\<lparr>at_keydata := Some (filter (\<lambda>c. \<not> is_ascii_whitespace c) val)\<rparr>
                 else if key = ''prefer-encrypt'' \<and> eq_ignore_ascii_case val ''mutual'' then a\<lparr>at_prefer := Mutual\<rparr>
                 else a))"

definition autocrypt_attrs_of :: "string \<Rightarrow> autocrypt_attrs" where
  "autocrypt_attrs_of value =
     fold autocrypt_attr (split_on (CHR '';'') (unfold_lf (unfold_crlf value)))
       \<lparr>at_addr = None, at_keydata = None, at_prefer = Nopreference\<rparr>"

definition parse_autocrypt_header :: "codec \<Rightarrow> string \<Rightarrow> string + autocrypt_header" where
  "parse_autocrypt_header c value =
     (let a = autocrypt_attrs_of value
      in case at_addr a of
           None \<Rightarrow> Inl ''Autocrypt: missing addr=''
         | Some addr \<Rightarrow>
             (case at_keydata a of
                None \<Rightarrow> Inl ''Autocrypt: missing keydata=''
              | Some keydata \<Rightarrow>
                  and_then (b64_decode c keydata) (\<lambda>binary.
                  and_then (key_of_packets c binary) (\<lambda>(fingerprint, armored).
                    Inr \<lparr>ac_addr = addr, ac_keydata_armored = armored,
                         ac_fingerprint = fingerprint, ac_prefer_encrypt = at_prefer a\<rparr>))))"

definition autocrypt_header_value :: "codec \<Rightarrow> string \<Rightarrow> string \<Rightarrow> bool \<Rightarrow> string + string" where
  "autocrypt_header_value c addr armored_pubkey prefer_encrypt_mutual =
     and_then (packets_of_armor c armored_pubkey) (\<lambda>binary.
       Inr (''addr='' @ addr @ (if prefer_encrypt_mutual then ''; prefer-encrypt=mutual'' else []) @
            ''; keydata='' @ crlf @ '' '' @ join (crlf @ '' '') (chunks 76 (b64_encode c binary))))"

section \<open>Line endings are canonical\<close>

text \<open>Every CR is followed by LF and every LF follows CR.\<close>

fun canonical_lines :: "string \<Rightarrow> bool" where
  "canonical_lines [] = True"
| "canonical_lines (b # s) =
     (if b = CHR 0x0D then (case s of [] \<Rightarrow> False | c # t \<Rightarrow> c = CHR 0x0A \<and> canonical_lines t)
      else b \<noteq> CHR 0x0A \<and> canonical_lines s)"

lemma canonical_normalize: "canonical_lines (normalize_crlf s)"
  by (induction s rule: normalize_crlf.induct) (auto simp: crlf_def)

lemma normalize_canonical: "canonical_lines s \<Longrightarrow> normalize_crlf s = s"
  by (induction s rule: canonical_lines.induct) (auto simp: crlf_def split: list.splits if_splits)

end
