(* ===== verification/Pgp_Render.thy ===== *)
theory Pgp_Render
  imports Rust_Panic Pgp_Mime
begin

text \<open>
  Taking a PGP/MIME message apart, verifying and decrypting it (crates/inbx-render/src/lib.rs).
  Slices can panic, so the extractors return an outcome. The \<^verbatim>\<open>parts\<close> vector the code builds
  and drops again has no effect and is left out.
\<close>

section \<open>Extraction\<close>

definition find_boundary :: "string \<Rightarrow> string option" where
  "find_boundary s =
     (case find_sub (''boundary='' @ [CHR 0x22]) (to_ascii_lowercase s) of
        None \<Rightarrow> None
      | Some i \<Rightarrow>
          (let rest = drop (i + 10) s
           in map_option (\<lambda>e. take e rest) (find_idx (\<lambda>c. c = CHR 0x22) rest)))"

text \<open>The start of every occurrence; the first argument is never empty in the code.\<close>

function occurrences :: "string \<Rightarrow> nat \<Rightarrow> string \<Rightarrow> nat list" where
  "occurrences sep off s =
     (if sep = [] then []
      else case find_sub sep s of
        None \<Rightarrow> []
      | Some pos \<Rightarrow> (off + pos) # occurrences sep (off + pos + length sep) (drop (pos + length sep) s))"
  by pat_completeness auto
termination
  by (relation "measure (\<lambda>(sep, off, s). length s)") (auto dest!: find_sub_bound simp flip: length_greater_0_conv)

declare occurrences.simps [simp del]

text \<open>The start of the line after position \<open>i\<close>: after a CRLF if there is any, else after a line feed.\<close>

definition next_line :: "string \<Rightarrow> nat \<Rightarrow> nat option" where
  "next_line s i =
     (case find_sub crlf (drop i s) of
        Some k \<Rightarrow> Some (i + k + 2)
      | None \<Rightarrow> map_option (\<lambda>k. i + k + 1) (find_idx (\<lambda>c. c = CHR 0x0A) (drop i s)))"

text \<open>The end of a part whose next delimiter is at \<open>i\<close>: the line break is not part of it.\<close>

definition part_end :: "string \<Rightarrow> nat \<Rightarrow> nat" where
  "part_end s i =
     (if 2 \<le> i \<and> s ! (i - 2) = CHR 0x0D \<and> s ! (i - 1) = CHR 0x0A then i - 2
      else if 1 \<le> i \<and> s ! (i - 1) = CHR 0x0A then i - 1
      else i)"

text \<open>Where the body of a part starts; a part without a blank line has no headers.\<close>

definition body_start :: "string \<Rightarrow> nat" where
  "body_start part =
     (case find_sub (crlf @ crlf) part of
        Some i \<Rightarrow> i + 4
      | None \<Rightarrow> (case find_sub [CHR 0x0A, CHR 0x0A] part of Some i \<Rightarrow> i + 2 | None \<Rightarrow> 0))"

definition body_of_part :: "string \<Rightarrow> string" where
  "body_of_part part = drop (body_start part) part"

definition extract_pgp_mime_parts :: "string \<Rightarrow> (string \<times> string) option outcome" where
  "extract_pgp_mime_parts msg =
     (if \<not> utf8 msg then Return None
      else case find_boundary msg of
        None \<Rightarrow> Return None
      | Some boundary \<Rightarrow>
          (case occurrences (delimiter boundary) 0 msg of
             b0 # b1 # _ \<Rightarrow>
               (case next_line msg b0 of
                  None \<Rightarrow> Return None
                | Some first_sep_end \<Rightarrow>
                    bind_outcome (slice first_sep_end (part_end msg b1) msg) (\<lambda>signed_bytes.
                      case next_line msg b1 of
                        None \<Rightarrow> Return None
                      | Some sig_sep_end \<Rightarrow>
                          (let rest = drop sig_sep_end msg;
                               sig_part = (case find_sub (delimiter boundary @ ''--'') rest of
                                             Some n \<Rightarrow> take n rest | None \<Rightarrow> rest)
                           in Return (Some (signed_bytes, trim_end (body_of_part sig_part))))))
           | _ \<Rightarrow> Return None))"

definition strip_whitespace :: "string \<Rightarrow> string" where
  "strip_whitespace s = concat (filter (\<lambda>ch. ch \<notin> set ws_seqs) (chars s))"

definition ciphertext_of_part :: "codec \<Rightarrow> string \<Rightarrow> string option" where
  "ciphertext_of_part c part =
     (let n = body_start part; body = trim_end (drop n part)
      in if contains (to_ascii_lowercase (take n part)) ''content-transfer-encoding: base64''
         then (case b64_decode c (strip_whitespace body) of Inl _ \<Rightarrow> None | Inr x \<Rightarrow> Some x)
         else Some body)"

definition extract_pgp_encrypted_ciphertext :: "codec \<Rightarrow> string \<Rightarrow> string option outcome" where
  "extract_pgp_encrypted_ciphertext c msg =
     (if \<not> utf8 msg then Return None
      else case find_boundary msg of
        None \<Rightarrow> Return None
      | Some boundary \<Rightarrow>
          (case occurrences (delimiter boundary) 0 msg of
             b0 # b1 # bs \<Rightarrow>
               (case next_line msg b1 of
                  None \<Rightarrow> Return None
                | Some second_start \<Rightarrow>
                    (let second_end =
                       (case bs of
                          b2 # _ \<Rightarrow> b2
                        | [] \<Rightarrow> (case find_sub (delimiter boundary @ ''--'') (drop second_start msg) of
                                  Some n \<Rightarrow> second_start + n | None \<Rightarrow> length msg))
                     in bind_outcome (slice second_start second_end msg)
                          (\<lambda>part. Return (ciphertext_of_part c part))))
           | _ \<Rightarrow> Return None))"

section \<open>Verification and decryption\<close>

record pgp_verify_result =
  pv_verified :: bool
  pv_signer_fingerprint :: "string option"
  pv_signer_uid :: "string option"
  pv_created_unix :: "int option"
  pv_decrypted_body :: "string option"
  pv_error :: "string option"

definition verify_failed :: "string \<Rightarrow> pgp_verify_result" where
  "verify_failed e =
     \<lparr>pv_verified = False, pv_signer_fingerprint = None, pv_signer_uid = None,
      pv_created_unix = None, pv_decrypted_body = None, pv_error = Some e\<rparr>"

definition own_key :: "key_source \<Rightarrow> pgp_verify_result + string" where
  "own_key source =
     (case list_keys source of
        Inl e \<Rightarrow> Inl (verify_failed (''list_keys: '' @ e))
      | Inr [] \<Rightarrow> Inl (verify_failed ''no keys available for verification'')
      | Inr ((k, _) # _) \<Rightarrow>
          (case export_public source k of
             Inl e \<Rightarrow> Inl (verify_failed (''export_public: '' @ e))
           | Inr armored \<Rightarrow> Inr armored))"

definition fallback_note :: string where
  "fallback_note = '' '' @ [CHR 0xE2, CHR 0x80, CHR 0x94] @ '' verifying against own key (fallback)''"

text \<open>The key to verify with, and the notice when it is not the sender's.\<close>

type_synonym pubkey_lookup = "string \<Rightarrow> string + string option"

definition verification_key ::
  "key_source \<Rightarrow> pubkey_lookup option \<Rightarrow> string option \<Rightarrow> pgp_verify_result + string \<times> string option" where
  "verification_key source lookup from_email =
     (case (lookup, from_email) of
        (Some lk, Some email) \<Rightarrow>
          (case lk email of
             Inr (Some key) \<Rightarrow> Inr (key, None)
           | Inr None \<Rightarrow>
               and_then (own_key source) (\<lambda>k.
                 Inr (k, Some (''no stored pubkey for sender ('' @ email @ '')'' @ fallback_note)))
           | Inl e \<Rightarrow>
               and_then (own_key source) (\<lambda>k.
                 Inr (k, Some (''pubkey lookup error: '' @ e @ fallback_note))))
      | _ \<Rightarrow> and_then (own_key source) (\<lambda>k. Inr (k, None)))"

definition try_verify_pgp_mime ::
  "key_source \<Rightarrow> pubkey_lookup option \<Rightarrow> string option \<Rightarrow> string \<Rightarrow> pgp_verify_result outcome" where
  "try_verify_pgp_mime source lookup from_email msg =
     bind_outcome (extract_pgp_mime_parts msg) (\<lambda>parts. Return
       (case parts of
          None \<Rightarrow> verify_failed ''could not extract PGP/MIME signed parts''
        | Some (signed_bytes, sig) \<Rightarrow>
            (case verification_key source lookup from_email of
               Inl e \<Rightarrow> e
             | Inr (key, note) \<Rightarrow>
                 (case verify_detached source key signed_bytes sig of
                    Inl e \<Rightarrow> verify_failed (''verify_detached: '' @ e)
                  | Inr vr \<Rightarrow>
                      \<lparr>pv_verified = valid vr, pv_signer_fingerprint = signer_fingerprint vr,
                       pv_signer_uid = signer_uid vr, pv_created_unix = created_unix vr,
                       pv_decrypted_body = None, pv_error = note\<rparr>))))"

definition decrypted :: "string \<Rightarrow> pgp_verify_result" where
  "decrypted body =
     \<lparr>pv_verified = False, pv_signer_fingerprint = None, pv_signer_uid = None,
      pv_created_unix = None, pv_decrypted_body = Some body, pv_error = None\<rparr>"

text \<open>The decrypted message is rendered by \<open>render\<close>.\<close>

definition try_decrypt_pgp_mime ::
  "codec \<Rightarrow> key_source \<Rightarrow> (string \<Rightarrow> ('e + 'r) outcome) \<Rightarrow> string \<Rightarrow> (pgp_verify_result \<times> 'r option) outcome" where
  "try_decrypt_pgp_mime c source render msg =
     bind_outcome (extract_pgp_encrypted_ciphertext c msg) (\<lambda>ct.
       (case ct of
          None \<Rightarrow> Return (verify_failed ''could not extract PGP encrypted ciphertext part'', None)
        | Some x \<Rightarrow>
            (case decrypt source x of
               Inl e \<Rightarrow> Return (verify_failed (''decrypt: '' @ e), None)
             | Inr (plain, _) \<Rightarrow>
                 bind_outcome (render plain) (\<lambda>r. Return
                   (decrypted plain, case r of Inl _ \<Rightarrow> None | Inr page \<Rightarrow> Some page)))))"

end
