(* ===== verification/Render.thy ===== *)
theory Render
  imports Html_Images Pgp_Render
begin

text \<open>
  Rendering a message for reading (crates/inbx-render/src/lib.rs, pgp.rs, lang.rs). The mail parser,
  the HTML sanitizer, the conversion of HTML to text and the Unicode tables are the record
  \<open>render_env\<close>.
\<close>

section \<open>Security badges\<close>

datatype secure_kind = Not_Secured | Pgp_Mime_Signed | Pgp_Inline | S_Mime | Pgp_Encrypted | S_Mime_Encrypted

record security_info =
  kind :: secure_kind
  verified :: bool
  label :: "string option"

definition no_security :: security_info where
  "no_security = \<lparr>kind = Not_Secured, verified = False, label = None\<rparr>"

definition badge :: "secure_kind \<Rightarrow> string \<Rightarrow> security_info" where
  "badge k l = \<lparr>kind = k, verified = False, label = Some l\<rparr>"

definition lower_attribute :: "string \<Rightarrow> content_type \<Rightarrow> string" where
  "lower_attribute n ct = (case attribute n ct of Some v \<Rightarrow> to_ascii_lowercase v | None \<Rightarrow> [])"

text \<open>What a content type says, if anything.\<close>

definition type_badge :: "content_type \<Rightarrow> security_info option" where
  "type_badge ct =
     (let c = to_ascii_lowercase (ctype ct);
          s = (case subtype ct of Some x \<Rightarrow> to_ascii_lowercase x | None \<Rightarrow> []);
          proto = lower_attribute ''protocol'' ct
      in if c = ''multipart'' \<and> s = ''signed'' \<and> contains proto ''pgp-signature''
         then Some (badge Pgp_Mime_Signed ''PGP/MIME signed'')
         else if c = ''multipart'' \<and> s = ''signed'' \<and> contains proto ''pkcs7-signature''
         then Some (badge S_Mime ''S/MIME signed'')
         else if c = ''multipart'' \<and> s = ''encrypted'' \<and> contains proto ''pgp-encrypted''
         then Some (badge Pgp_Encrypted ''PGP encrypted'')
         else if c = ''application'' \<and> s = ''pkcs7-mime'' \<and> contains (lower_attribute ''smime-type'' ct) ''enveloped''
         then Some (badge S_Mime_Encrypted ''S/MIME encrypted'')
         else None)"

definition part_badge :: "mail_part \<Rightarrow> security_info option" where
  "part_badge p =
     (case Option.bind (part_type p) type_badge of
        Some b \<Rightarrow> Some b
      | None \<Rightarrow>
          (case part_body p of
             Text_Part t \<Rightarrow>
               if contains t ''-----BEGIN PGP SIGNED MESSAGE-----''
               then Some (badge Pgp_Inline ''PGP inline signed'') else None
           | _ \<Rightarrow> None))"

fun first_badge :: "mail_part list \<Rightarrow> security_info" where
  "first_badge [] = no_security"
| "first_badge (p # ps) = (case part_badge p of Some b \<Rightarrow> b | None \<Rightarrow> first_badge ps)"

definition detect :: "(string \<Rightarrow> mail_view option) \<Rightarrow> string \<Rightarrow> security_info" where
  "detect parse msg = (case parse msg of None \<Rightarrow> no_security | Some m \<Rightarrow> first_badge (mv_parts m))"

section \<open>Read receipts\<close>

record read_receipt_request =
  notify_to :: "string list"
  original_message_id :: "string option"
  original_from :: "string option"

definition receipt_address :: "string \<Rightarrow> string option" where
  "receipt_address piece =
     (let part = trim piece
      in if part = [] then None
         else case (rfind_idx (\<lambda>c. c = CHR ''<'') part, rfind_idx (\<lambda>c. c = CHR ''>'') part) of
           (Some lt, Some gt) \<Rightarrow>
             if lt < gt \<and> trim (take (gt - lt - 1) (drop (lt + 1) part)) \<noteq> []
             then Some (trim (take (gt - lt - 1) (drop (lt + 1) part)))
             else Some part
         | _ \<Rightarrow> Some part)"

definition extract_read_receipt_request :: "(string \<Rightarrow> mail_view option) \<Rightarrow> string \<Rightarrow> read_receipt_request option" where
  "extract_read_receipt_request parse msg =
     (case parse msg of
        None \<Rightarrow> None
      | Some m \<Rightarrow>
          (case header_values m ''Disposition-Notification-To'' of
             [] \<Rightarrow> None
           | h # _ \<Rightarrow>
               (let v = trim (case as_text h of Some t \<Rightarrow> t | None \<Rightarrow> []);
                    to = List.map_filter receipt_address (split_on (CHR '','') v)
                in if v = [] \<or> to = [] then None
                   else Some \<lparr>notify_to = to, original_message_id = mv_message_id m,
                          original_from = first_address (mv_from m)\<rparr>)))"

section \<open>Rendering\<close>

record render_env =
  parse :: "string \<Rightarrow> mail_view option"
  clean_html :: "string \<Rightarrow> string"
  clean_text :: "string \<Rightarrow> string"
  html_to_text :: "string \<Rightarrow> string"
  alnum :: "string \<Rightarrow> bool"

record code_body =
  lang :: string
  code_bytes :: string

record rendered =
  plain :: string
  html :: "string option"
  blocked_remote :: nat
  trackers :: "string list"
  inline_cids :: "string \<rightharpoonup> string"
  phishing_warnings :: "phishing_warning list"
  security :: security_info
  pgp_verify :: "pgp_verify_result option"
  autocrypt :: "autocrypt_header option"
  receipt_request :: "read_receipt_request option"
  code :: "code_body option"

datatype render_error = Parse_Error

definition lang_for_content_type :: "string \<Rightarrow> string option" where
  "lang_for_content_type ct =
     (let base = trim (hd (split_on (CHR '';'') ct))
      in if base = ''text/x-patch'' \<or> base = ''text/x-diff'' then Some ''diff'' else None)"

definition mime_of :: "content_type \<Rightarrow> string" where
  "mime_of ct = ctype ct @ ''/'' @ (case subtype ct of Some s \<Rightarrow> s | None \<Rightarrow> [])"

definition code_of_part :: "mail_part \<Rightarrow> code_body option" where
  "code_of_part p =
     (case Option.bind (part_type p) (\<lambda>ct. lang_for_content_type (mime_of ct)) of
        None \<Rightarrow> None
      | Some l \<Rightarrow> (case part_body p of Text_Part t \<Rightarrow> Some \<lparr>lang = l, code_bytes = t\<rparr> | _ \<Rightarrow> None))"

fun first_code :: "mail_part list \<Rightarrow> code_body option" where
  "first_code [] = None"
| "first_code (p # ps) = (case code_of_part p of Some c \<Rightarrow> Some c | None \<Rightarrow> first_code ps)"

definition plain_parts :: "mail_part list \<Rightarrow> string list" where
  "plain_parts ps = List.map_filter (\<lambda>p. case part_body p of Text_Part t \<Rightarrow> Some t | _ \<Rightarrow> None) ps"

definition html_parts :: "mail_part list \<Rightarrow> string list" where
  "html_parts ps = List.map_filter (\<lambda>p. case part_body p of Html_Part h \<Rightarrow> Some h | _ \<Rightarrow> None) ps"

definition insert_cid :: "mail_part \<Rightarrow> (string \<rightharpoonup> string) \<Rightarrow> string \<rightharpoonup> string" where
  "insert_cid p m =
     (case (part_body p, content_id p) of (Binary_Part b, Some k) \<Rightarrow> m(k \<mapsto> b) | _ \<Rightarrow> m)"

definition sanitized :: "render_env \<Rightarrow> remote_policy \<Rightarrow> string \<Rightarrow> (string option \<times> nat \<times> string list) outcome" where
  "sanitized env policy combined =
     (if combined = [] then Return (None, 0, [])
      else bind_outcome (sanitize_html (clean_html env) (clean_text env) combined policy)
             (\<lambda>(out, n, trks). Return (Some out, n, trks)))"

definition render_message :: "render_env \<Rightarrow> remote_policy \<Rightarrow> string \<Rightarrow> (render_error + rendered) outcome" where
  "render_message env policy msg =
     (case parse env msg of
        None \<Rightarrow> Return (Inl Parse_Error)
      | Some m \<Rightarrow>
          bind_outcome (sanitized env policy (join [CHR 0x0A] (html_parts (mv_parts m)))) (\<lambda>(h, n, trks).
          bind_outcome (analyze (parse env) (alnum env) msg h) (\<lambda>ws. Return (Inr
            \<lparr>plain = (if plain_parts (mv_parts m) \<noteq> [] then join [CHR 0x0A, CHR 0x0A] (plain_parts (mv_parts m))
                      else case h of Some x \<Rightarrow> html_to_text env x | None \<Rightarrow> []),
             html = h, blocked_remote = n, trackers = trks,
             inline_cids = fold insert_cid (mv_parts m) Map.empty,
             phishing_warnings = ws, security = detect (parse env) msg, pgp_verify = None,
             autocrypt = None, receipt_request = extract_read_receipt_request (parse env) msg,
             code = first_code (mv_parts m)\<rparr>))))"

section \<open>Autocrypt headers and OpenPGP\<close>

text \<open>The header's lines up to the first that is not folded, joined by line feeds.\<close>

function unfolded_value :: "string \<Rightarrow> string" where
  "unfolded_value s =
     (let l = takeWhile (\<lambda>c. c \<noteq> CHR 0x0A) s;
          rest = drop (length l + 1) s
      in trim_end_matches (\<lambda>c. c = CHR 0x0D) l @
         (if rest \<noteq> [] \<and> blank_tab (hd rest) then CHR 0x0A # unfolded_value rest else []))"
  by pat_completeness auto
termination by (relation "measure length") auto

declare unfolded_value.simps [simp del]

definition extract_autocrypt_header :: "codec \<Rightarrow> string \<Rightarrow> autocrypt_header option" where
  "extract_autocrypt_header c msg =
     (if \<not> utf8 msg then None
      else case find_sub ''autocrypt:'' (to_ascii_lowercase msg) of
        None \<Rightarrow> None
      | Some pos \<Rightarrow>
          (case parse_autocrypt_header c (trim (unfolded_value (drop (pos + 10) msg))) of
             Inl _ \<Rightarrow> None | Inr h \<Rightarrow> Some h))"

definition extract_from_email :: "(string \<Rightarrow> mail_view option) \<Rightarrow> string \<Rightarrow> string option" where
  "extract_from_email parser msg = Option.bind (parser msg) (\<lambda>m. first_address (mv_from m))"

text \<open>What a decrypted message shows replaces the outer text; badges stay those of the outer message.\<close>

definition merge_decrypted :: "rendered option \<Rightarrow> rendered \<Rightarrow> rendered" where
  "merge_decrypted dr r =
     (case dr of
        None \<Rightarrow> r
      | Some d \<Rightarrow> r\<lparr>plain := plain d, html := html d, blocked_remote := blocked_remote r + blocked_remote d,
                   trackers := trackers r @ trackers d\<rparr>)"

definition apply_pgp ::
  "codec \<Rightarrow> render_env \<Rightarrow> remote_policy \<Rightarrow> key_source \<Rightarrow> pubkey_lookup option \<Rightarrow> string \<Rightarrow> rendered \<Rightarrow> rendered outcome" where
  "apply_pgp c env policy source lookup msg r =
     (case kind (security r) of
        Pgp_Mime_Signed \<Rightarrow>
          bind_outcome (try_verify_pgp_mime source lookup (extract_from_email (parse env) msg) msg)
            (\<lambda>v. Return (r\<lparr>pgp_verify := Some v\<rparr>))
      | Pgp_Encrypted \<Rightarrow>
          bind_outcome (try_decrypt_pgp_mime c source (render_message env policy) msg)
            (\<lambda>(v, d). Return ((merge_decrypted d r)\<lparr>pgp_verify := Some v\<rparr>))
      | _ \<Rightarrow> Return r)"

definition render_message_with_pgp ::
  "codec \<Rightarrow> render_env \<Rightarrow> remote_policy \<Rightarrow> key_source option \<Rightarrow> pubkey_lookup option \<Rightarrow> string \<Rightarrow>
   (render_error + rendered) outcome" where
  "render_message_with_pgp c env policy pgp lookup msg =
     bind_outcome (render_message env policy msg) (\<lambda>res.
       case res of
         Inl e \<Rightarrow> Return (Inl e)
       | Inr r0 \<Rightarrow>
           (let r = r0\<lparr>security := detect (parse env) msg, autocrypt := extract_autocrypt_header c msg\<rparr>
            in case pgp of
                 None \<Rightarrow> Return (Inr r)
               | Some source \<Rightarrow>
                   bind_outcome (apply_pgp c env policy source lookup msg r) (\<lambda>x. Return (Inr x))))"

end
