(* ===== verification/Pgp_Props.thy ===== *)
theory Pgp_Props
  imports Pgp_Render
begin

text \<open>
  What goes into a PGP/MIME message comes out of it again: the extractors find the parts the
  writers put there, so a signature is checked over exactly the bytes that were signed and a
  ciphertext is decrypted as it was encrypted. The Autocrypt header parses back.
\<close>

section \<open>Searching across a seam\<close>

lemma find_sub_skip:
  assumes "W \<noteq> []" "last W \<notin> set p" "\<not> sublist p W" "p \<noteq> []"
  shows "find_sub p (W @ s) = map_option (\<lambda>i. length W + i) (find_sub p s)"
proof (cases W rule: rev_cases)
  case (snoc a c)
  then have "\<not> sublist p a"
    using assms(3) by (metis sublist_order.order_trans sublist_appendI append_Nil)
  with snoc show ?thesis
    using find_sub_none_append [of p a c s] assms(2,4) by simp
qed (use assms(1) in simp)

lemma not_sublist_append:
  assumes "\<not> sublist p a" "\<not> sublist p b" "a = [] \<or> last a \<notin> set p"
  shows "\<not> sublist p (a @ b)"
proof
  assume "sublist p (a @ b)"
  then obtain p1 p2 where p: "p = p1 @ p2" "suffix p1 a" "prefix p2 b"
    using assms(1,2) by (auto simp: sublist_append)
  show False
  proof (cases "p1 = [] \<or> a = []")
    case True
    with p assms(2) show False by (auto simp: suffix_def)
  next
    case False
    then have "last p1 = last a" using p(2) by (auto simp: suffix_def)
    with False p(1) assms(3) show False by (metis last_in_set Un_iff set_append)
  qed
qed

text \<open>Texts in which no two hyphens follow each other.\<close>

fun dash_free :: "string \<Rightarrow> bool" where
  "dash_free (c # d # s) \<longleftrightarrow> \<not> (c = CHR ''-'' \<and> d = CHR ''-'') \<and> dash_free (d # s)"
| "dash_free _ \<longleftrightarrow> True"

lemma dash_free_sublist: "dash_free s \<Longrightarrow> \<not> sublist ''--'' s"
  by (induction s rule: dash_free.induct) (auto simp: sublist_Cons_right)

lemma dash_free_none: "CHR ''-'' \<notin> set s \<Longrightarrow> dash_free s"
  by (induction s rule: dash_free.induct) auto

lemma dash_free_append:
  "dash_free a \<Longrightarrow> dash_free b \<Longrightarrow> a = [] \<or> last a \<noteq> CHR ''-'' \<or> b = [] \<or> hd b \<noteq> CHR ''-'' \<Longrightarrow> dash_free (a @ b)"
proof (induction a)
  case (Cons c a)
  then show ?case by (cases a; cases b) auto
qed simp

lemma delimiter_not_in: "dash_free s \<Longrightarrow> \<not> sublist (delimiter b) s"
  using dash_free_sublist [of s] by (metis delimiter_def sublist_appendI sublist_order.order_trans append_Nil)

section \<open>Boundaries\<close>

definition hex_char :: "char \<Rightarrow> bool" where
  "hex_char c \<longleftrightarrow> is_ascii_digit c \<or> (97 \<le> byte c \<and> byte c \<le> 102)"

lemma hex_lower_char: "d < 16 \<Longrightarrow> hex_char (hex_lower d)"
  by (auto simp: hex_lower_def hex_char_def is_ascii_digit_def)

lemma to_hex_chars: "c \<in> set (to_hex n) \<Longrightarrow> hex_char c"
proof (induction n rule: to_hex.induct)
  case (1 n)
  then show ?case
    using hex_lower_char [of n] hex_lower_char [of "n mod 16"]
    by (cases "n < 16") (auto simp: to_hex.simps [of n])
qed

lemma make_boundary_parts:
  obtains hex where "make_boundary tag ts = ''inbx-'' @ tag @ ''-'' @ hex"
    "\<forall>c \<in> set hex. hex_char c" "hex \<noteq> []"
proof
  let ?hex = "pad_left (CHR ''0'') 8 (to_hex ts)"
  show "make_boundary tag ts = ''inbx-'' @ tag @ ''-'' @ ?hex" by (simp add: make_boundary_def)
  show "\<forall>c \<in> set ?hex. hex_char c"
    using to_hex_chars by (auto simp: pad_left_def hex_char_def is_ascii_digit_def byte_def)
  show "?hex \<noteq> []" using to_hex.simps [of ts] by (simp add: pad_left_def)
qed

text \<open>Boundaries that cannot be mistaken for the text around them.\<close>

definition plain_boundary :: "string \<Rightarrow> bool" where
  "plain_boundary b \<longleftrightarrow>
     b \<noteq> [] \<and> hd b \<noteq> CHR ''-'' \<and> last b \<noteq> CHR ''-'' \<and> dash_free b \<and>
     CHR 0x0D \<notin> set b \<and> CHR 0x0A \<notin> set b \<and> CHR 0x22 \<notin> set b"

lemma plain_boundary_make:
  assumes "plain_boundary tag"
  shows "plain_boundary (make_boundary tag ts)"
proof -
  obtain hex where b: "make_boundary tag ts = ''inbx-'' @ tag @ ''-'' @ hex"
    and hex: "\<forall>c \<in> set hex. hex_char c" "hex \<noteq> []"
    by (rule make_boundary_parts)
  have no: "c \<notin> set hex" if "\<not> hex_char c" for c using hex(1) that by auto
  have "\<not> hex_char (CHR ''-'')" "\<not> hex_char (CHR 0x0D)" "\<not> hex_char (CHR 0x0A)" "\<not> hex_char (CHR 0x22)"
    by (simp_all add: hex_char_def is_ascii_digit_def byte_def)
  note no = this [THEN no]
  have "dash_free (''-'' @ hex)" using no(1) hex(2) by (cases hex) (auto intro: dash_free_none)
  then have "dash_free (tag @ ''-'' @ hex)"
    by (rule dash_free_append [rotated]) (use assms in \<open>simp_all add: plain_boundary_def\<close>)
  then have "dash_free (''inbx-'' @ tag @ ''-'' @ hex)"
    by (rule dash_free_append [rotated]) (use assms in \<open>simp_all add: plain_boundary_def\<close>)
  moreover have "last hex \<noteq> CHR ''-''" using no(1) hex(2) by (metis last_in_set)
  ultimately show ?thesis
    using assms no hex(2) by (simp add: b plain_boundary_def)
qed

lemma delimiter_facts:
  assumes "plain_boundary b"
  shows "delimiter b \<noteq> []" "CHR 0x0D \<notin> set (delimiter b)" "CHR 0x0A \<notin> set (delimiter b)"
    "CHR 0x22 \<notin> set (delimiter b)" "\<not> sublist (delimiter b) crlf"
  using assms by (auto simp: delimiter_def plain_boundary_def crlf_def sublist_Cons_right)

text \<open>A text that ends its line.\<close>

definition ends_line :: "string \<Rightarrow> bool" where
  "ends_line s \<longleftrightarrow> s \<noteq> [] \<and> last s = CHR 0x0A"

lemma ends_line_simps [simp]:
  "ends_line crlf" "ends_line b \<Longrightarrow> ends_line (a @ b)" "ends_line b \<Longrightarrow> ends_line (c # b)" "ends_line s \<Longrightarrow> s \<noteq> []"
  "ends_line s \<Longrightarrow> last s = CHR 0x0A"
  by (auto simp: ends_line_def crlf_def)

section \<open>Extraction\<close>

lemma occurrences_step:
  assumes "ends_line W" "CHR 0x0A \<notin> set p" "\<not> sublist p W" "p \<noteq> []"
  shows "occurrences p off (W @ p @ s) =
    (off + length W) # occurrences p (off + length W + length p) s"
  using assms find_sub_skip [of W p "p @ s"]
  by (subst occurrences.simps) (simp add: find_sub_here add.assoc)

lemma next_line_crlf:
  assumes "CHR 0x0D \<notin> set x" "m = A @ x @ crlf @ r" "i = length A"
  shows "next_line m i = Some (i + length x + 2)"
  using find_sub_fresh [of crlf x r] assms by (simp add: next_line_def crlf_def)

lemma part_end_crlf: "m = A @ crlf @ r \<Longrightarrow> i = length A + 2 \<Longrightarrow> part_end m i = length A"
  by (simp add: part_end_def nth_append crlf_def)

definition boundary_attr :: string where
  "boundary_attr = ''boundary='' @ [CHR 0x22]"

lemma find_boundary_here:
  assumes m: "m = W @ C @ boundary_attr @ b @ CHR 0x22 # r"
    and "ends_line W" "\<not> contains (to_ascii_lowercase W) boundary_attr"
    and "C \<noteq> []" "last C = CHR '' ''" "\<not> contains (to_ascii_lowercase C) boundary_attr" "CHR 0x22 \<notin> set b"
  shows "find_boundary m = Some b"
proof -
  have pat: "to_ascii_lowercase boundary_attr = boundary_attr" "CHR 0x0A \<notin> set boundary_attr" "CHR '' '' \<notin> set boundary_attr" "boundary_attr \<noteq> []" "length boundary_attr = 10"
    by (simp_all add: boundary_attr_def to_ascii_lowercase_def lower_char_def is_ascii_upper_def byte_def)
  have low: "lower_char c = c" if "\<not> is_ascii_upper c" for c using that by (simp add: lower_char_def)
  have lastW: "last (to_ascii_lowercase W) = CHR 0x0A" "last (to_ascii_lowercase C) = CHR '' ''"
    using assms(2,4,5) by (simp_all add: to_ascii_lowercase_def last_map low is_ascii_upper_def byte_def)
  let ?tl = "to_ascii_lowercase (b @ CHR 0x22 # r)"
  have "find_sub boundary_attr (to_ascii_lowercase C @ boundary_attr @ ?tl) = Some (length C)"
    using find_sub_skip [of "to_ascii_lowercase C" boundary_attr "boundary_attr @ ?tl"] assms(4,6) lastW(2) pat
    by (simp add: find_sub_here contains_iff)
  then have "find_sub boundary_attr (to_ascii_lowercase W @ to_ascii_lowercase C @ boundary_attr @ ?tl) = Some (length W + length C)"
    using find_sub_skip [of "to_ascii_lowercase W" boundary_attr "to_ascii_lowercase C @ boundary_attr @ ?tl"]
      assms(2,3) lastW(1) pat by (simp add: contains_iff)
  moreover have "find_idx (\<lambda>c. c = CHR 0x22) (b @ CHR 0x22 # r) = Some (length b)"
    using assms(7) by (intro find_idx_append_free) auto
  ultimately show ?thesis
    unfolding find_boundary_def m boundary_attr_def [symmetric] by (simp add: pat)
qed

lemma length_crlf [simp]: "length crlf = 2"
  by (simp add: crlf_def)

lemma drop_at: "m = A @ r \<Longrightarrow> i = length A \<Longrightarrow> drop i m = r"
  by simp

lemma not_in_line:
  assumes "plain_boundary b" "\<not> sublist (delimiter b) x"
  shows "\<not> sublist (delimiter b) (x @ crlf)"
proof
  note d = delimiter_facts [OF assms(1)]
  assume "sublist (delimiter b) (x @ crlf)"
  then obtain p1 p2 where p: "delimiter b = p1 @ p2" "suffix p1 x" "prefix p2 crlf"
    using assms(2) d(5) by (auto simp: sublist_append)
  then have "set p2 \<subseteq> {CHR 0x0D, CHR 0x0A}" using set_mono_prefix [OF p(3)] by (simp add: crlf_def)
  then have "p2 = []" using p(1) d(2,3) by (cases p2) auto
  with p assms(2) show False by auto
qed

text \<open>The two delimiters around the first part.\<close>

lemma occurrences_two:
  assumes "plain_boundary b" "ends_line H" "\<not> sublist (delimiter b) H" "\<not> sublist (delimiter b) x"
  shows "occurrences (delimiter b) 0 (H @ delimiter b @ crlf @ x @ crlf @ delimiter b @ s) =
    (let b1 = length H + length (delimiter b) + length x + 4
     in length H # b1 # occurrences (delimiter b) (b1 + length (delimiter b)) s)"
proof -
  note d = delimiter_facts [OF assms(1)]
  have nl: "last crlf \<notin> set (delimiter b)" using d by (simp add: crlf_def)
  have "\<not> sublist (delimiter b) (x @ crlf)" using not_in_line [OF assms(1,4)] .
  then have "\<not> sublist (delimiter b) (crlf @ x @ crlf)"
    using not_sublist_append [OF d(5)] nl by blast
  then have "occurrences (delimiter b) off ((crlf @ x @ crlf) @ delimiter b @ s) =
      (off + length (crlf @ x @ crlf)) # occurrences (delimiter b) (off + length (crlf @ x @ crlf) + length (delimiter b)) s" for off
    using d by (intro occurrences_step) simp_all
  moreover have "occurrences (delimiter b) 0 (H @ delimiter b @ (crlf @ x @ crlf @ delimiter b @ s)) =
      (0 + length H) # occurrences (delimiter b) (0 + length H + length (delimiter b)) (crlf @ x @ crlf @ delimiter b @ s)"
    using assms d by (intro occurrences_step)
  moreover have "0 + length H + length (delimiter b) + length (crlf @ x @ crlf) =
      length H + length (delimiter b) + length x + 4" by simp
  ultimately show ?thesis by (simp only: Let_def append_assoc add_0)
qed

lemma extract_signed:
  assumes m: "m = H @ delimiter b @ crlf @ x @ crlf @ delimiter b @ crlf @ S @ delimiter b @ ''--'' @ r"
    and b: "plain_boundary b" "find_boundary m = Some b" "utf8 m"
    and H: "ends_line H" "\<not> sublist (delimiter b) H"
    and x: "\<not> sublist (delimiter b) x"
    and S: "ends_line S" "\<not> sublist (delimiter b) S"
  shows "extract_pgp_mime_parts m = Return (Some (x, trim_end (body_of_part S)))"
proof -
  let ?d = "delimiter b"
  note d = delimiter_facts [OF b(1)]
  let ?A = "H @ ?d @ crlf" and ?tail = "?d @ crlf @ S @ ?d @ ''--'' @ r"
  let ?b1 = "length H + length ?d + length x + 4"
  have m1: "m = H @ ?d @ crlf @ (x @ crlf @ ?tail)" and m2: "m = (?A @ x) @ crlf @ ?tail"
    and m3: "m = (?A @ x @ crlf) @ ?d @ crlf @ (S @ ?d @ ''--'' @ r)"
    using m by simp_all
  have occ: "occurrences ?d 0 m = length H # ?b1 #
      occurrences ?d (?b1 + length ?d) (crlf @ S @ ?d @ ''--'' @ r)"
    unfolding m using occurrences_two [OF b(1) H x] by (simp add: Let_def)
  have "next_line m (length H) = Some (length ?A)"
    using next_line_crlf [OF d(2) m1] by simp
  moreover have "?b1 = length (?A @ x) + 2" by simp
  with m2 have "part_end m ?b1 = length (?A @ x)" by (rule part_end_crlf)
  then have "part_end m ?b1 = length ?A + length x" by simp
  moreover have "slice (length ?A) (length ?A + length x) m = Return x"
    using slice_append [of ?A x "crlf @ ?tail"] m by simp
  moreover have "next_line m ?b1 = Some (?b1 + length ?d + 2)"
    by (rule next_line_crlf [OF d(2) m3]) simp
  moreover have "drop (?b1 + length ?d + 2) m = S @ (?d @ ''--'') @ r"
    by (rule drop_at [where A = "?A @ x @ crlf @ ?d @ crlf"]) (simp_all add: m)
  moreover have "\<not> sublist (?d @ ''--'') S"
    using S(2) by (metis sublist_append_rightI sublist_order.order_trans)
  then have "find_sub (?d @ ''--'') (S @ (?d @ ''--'') @ r) = Some (length S)"
    using find_sub_skip [of S "?d @ ''--''" "(?d @ ''--'') @ r"] S(1) d(3) find_sub_here [of "?d @ ''--''" r]
    by simp
  ultimately show ?thesis
    using b(2,3) occ by (simp add: extract_pgp_mime_parts_def Let_def)
qed

section \<open>The headers\<close>

lemma ends_line_header [simp]: "ends_line (header_line n v)"
  by (simp add: header_line_def)

lemma ends_line_concat: "\<forall>s \<in> set ss. ends_line s \<Longrightarrow> ends_line a \<Longrightarrow> ends_line (a @ concat ss)"
  by (induction ss arbitrary: a) (auto simp flip: append_assoc)

lemma ends_line_outer: "ends_line (write_outer_headers h)"
proof -
  let ?o = "\<lambda>n v. (case v of None \<Rightarrow> [] | Some x \<Rightarrow> [header_line n x])"
  have o: "optional_header n v = concat (?o n v)" for n v
    by (simp add: optional_header_def split: option.split)
  let ?ls = "[header_line ''From'' (oh_from h)] @ map (header_line ''To'') (oh_to h) @
    map (header_line ''Cc'') (oh_cc h) @ [header_line ''Subject'' (oh_subject h)] @
    ?o ''Message-ID'' (oh_message_id h) @ ?o ''In-Reply-To'' (oh_in_reply_to h) @
    (if oh_references h = [] then [] else [header_line ''References'' (join '' '' (oh_references h))]) @
    ?o ''Autocrypt'' (oh_autocrypt h)"
  obtain d where "write_outer_headers h = header_line ''Date'' d @ concat ?ls"
    by (simp add: write_outer_headers_def o)
  then show ?thesis
    using ends_line_concat [of ?ls "header_line ''Date'' d"] by (auto split: option.splits if_splits)
qed

section \<open>Signed messages\<close>

text \<open>The first line of the content type up to the boundary, and the lines behind it.\<close>

definition signed_type :: string where
  "signed_type =
     ''Content-Type: multipart/signed; protocol='' @ dquote ''application/pgp-signature'' @
     ''; micalg='' @ dquote ''pgp-sha256'' @ ''; ''"

definition head_tail :: string where
  "head_tail = crlf @ ''MIME-Version: 1.0'' @ crlf @ crlf"

lemma signed_head_eq:
  "signed_head b = signed_type @ boundary_attr @ b @ CHR 0x22 # head_tail @ delimiter b @ crlf"
  by (simp add: signed_head_def signed_type_def boundary_attr_def head_tail_def dquote_def)

lemma signed_type_facts:
  "signed_type \<noteq> []" "last signed_type = CHR '' ''" "dash_free signed_type" "hd signed_type \<noteq> CHR ''-''"
  "\<not> contains (to_ascii_lowercase signed_type) boundary_attr"
  by code_simp+

lemma head_tail_facts: "dash_free head_tail" "ends_line head_tail"
  by (simp_all add: head_tail_def crlf_def ends_line_def)

lemma boundary_attr_facts: "dash_free boundary_attr" "boundary_attr \<noteq> []" "last boundary_attr \<noteq> CHR ''-''"
  by (simp_all add: boundary_attr_def)

text \<open>The text before the first delimiter.\<close>

lemma head_facts:
  assumes "plain_boundary b" "ends_line W" "\<not> sublist (delimiter b) W" "dash_free C" "C \<noteq> []" "last C \<noteq> CHR ''-''"
  shows "ends_line (W @ C @ boundary_attr @ b @ CHR 0x22 # head_tail)"
    "\<not> sublist (delimiter b) (W @ C @ boundary_attr @ b @ CHR 0x22 # head_tail)"
proof -
  show "ends_line (W @ C @ boundary_attr @ b @ CHR 0x22 # head_tail)" using head_tail_facts by simp
  have "dash_free (CHR 0x22 # head_tail)" by (simp add: head_tail_def crlf_def)
  then have "dash_free (b @ CHR 0x22 # head_tail)"
    by (rule dash_free_append [rotated]) (use assms(1) in \<open>simp_all add: plain_boundary_def\<close>)
  then have "dash_free (boundary_attr @ b @ CHR 0x22 # head_tail)"
    by (rule dash_free_append [rotated]) (use boundary_attr_facts in simp_all)
  then have "dash_free (C @ boundary_attr @ b @ CHR 0x22 # head_tail)"
    by (rule dash_free_append [rotated]) (use assms(4-6) in simp_all)
  then have "\<not> sublist (delimiter b) (C @ boundary_attr @ b @ CHR 0x22 # head_tail)"
    by (rule delimiter_not_in)
  then show "\<not> sublist (delimiter b) (W @ C @ boundary_attr @ b @ CHR 0x22 # head_tail)"
    using not_sublist_append [OF assms(3)] assms(2) delimiter_facts(3) [OF assms(1)] by simp
qed

section \<open>White space in ASCII text\<close>

lemma ws_at_ascii:
  assumes "byte c < 128" "W = ws_seqs \<or> W = map rev ws_seqs"
  shows "ws_at W (c # s) = (if c \<in> set ascii_ws then 1 else 0)"
proof (cases "c \<in> set ascii_ws")
  case True
  with assms(2) show ?thesis
    unfolding ascii_ws_eq by (auto simp: ws_at_def ws_seqs_code)
next
  case False
  have "list_all (\<lambda>w. w \<noteq> [] \<and> (hd w \<in> set ascii_ws \<or> 128 \<le> byte (hd w))) ws_seqs"
    "list_all (\<lambda>w. w \<noteq> [] \<and> (hd w \<in> set ascii_ws \<or> 128 \<le> byte (hd w))) (map rev ws_seqs)"
    by code_simp+
  then have "w \<noteq> [] \<and> (hd w \<in> set ascii_ws \<or> 128 \<le> byte (hd w))" if "w \<in> set W" for w
    using assms(2) that by (auto simp: list_all_iff)
  then have "\<not> prefix w (c # s)" if "w \<in> set W" for w
    using that assms(1) False by (cases w) (auto, force+)
  moreover have "[] \<notin> set W" using assms(2) by auto
  ultimately show ?thesis using False by (simp add: ws_at_0_iff)
qed

lemma strip_ws_ascii:
  assumes "\<forall>c \<in> set s. byte c < 128" "W = ws_seqs \<or> W = map rev ws_seqs"
  shows "strip_ws W s = dropWhile (\<lambda>c. c \<in> set ascii_ws) s"
  using assms(1)
proof (induction s)
  case (Cons c s)
  then show ?case using ws_at_ascii [OF _ assms(2), of c s] by simp
qed simp

lemma trim_end_crlf: "trim_end (s @ crlf) = trim_end s"
proof -
  have "ws_at (map rev ws_seqs) (CHR 0x0D # r) = 1" "ws_at (map rev ws_seqs) (CHR 0x0A # r) = 1" for r
    using ws_at_ascii [of _ "map rev ws_seqs" r] by (simp_all add: byte_def ascii_ws_eq)
  then show ?thesis by (simp add: trim_end_def crlf_def)
qed

section \<open>What was signed is verified\<close>

lemma signature_head_facts:
  "ends_line signature_head" "dash_free signature_head" "body_of_part (signature_head @ crlf @ s) = s"
proof -
  show "ends_line signature_head" "dash_free signature_head" by code_simp+
  have X: "butlast (butlast signature_head) \<noteq> []" "last (butlast (butlast signature_head)) \<notin> set (crlf @ crlf)"
    "\<not> sublist (crlf @ crlf) (butlast (butlast signature_head))"
    "butlast (butlast signature_head) @ crlf = signature_head"
    unfolding contains_iff [symmetric] by code_simp+
  have "find_sub (crlf @ crlf) (butlast (butlast signature_head) @ ((crlf @ crlf) @ s)) =
      Some (length (butlast (butlast signature_head)))"
    using find_sub_skip [OF X(1-3), of "(crlf @ crlf) @ s"] find_sub_here [of "crlf @ crlf" s]
    by (simp add: crlf_def)
  then have "find_sub (crlf @ crlf) (signature_head @ crlf @ s) = Some (length signature_head - 2)"
    by (subst X(4) [symmetric]) simp
  moreover have "2 \<le> length signature_head" by code_simp
  ultimately show "body_of_part (signature_head @ crlf @ s) = s"
    by (simp add: body_of_part_def body_start_def)
qed

lemma extract_signed_message:
  assumes b: "plain_boundary b" and u: "utf8 (signed_message h b x sig)"
    and W: "\<not> contains (to_ascii_lowercase (write_outer_headers h)) boundary_attr"
    and d: "\<not> contains (write_outer_headers h) (delimiter b)" "\<not> contains x (delimiter b)" "\<not> contains sig (delimiter b)"
  shows "extract_pgp_mime_parts (signed_message h b x sig) = Return (Some (x, trim_end sig))"
proof -
  let ?W = "write_outer_headers h" and ?S = "signature_head @ crlf @ sig @ crlf"
  let ?H = "?W @ signed_type @ boundary_attr @ b @ CHR 0x22 # head_tail"
  let ?m = "signed_message h b x sig"
  have m: "?m = ?H @ delimiter b @ crlf @ x @ crlf @ delimiter b @ crlf @ ?S @ delimiter b @ ''--'' @ crlf"
    by (simp add: signed_message_def signed_head_eq)
  note t = signed_type_facts and df = delimiter_facts [OF b]
  have "find_boundary ?m = Some b"
    by (rule find_boundary_here [OF _ ends_line_outer W])
       (use t b in \<open>simp_all add: m plain_boundary_def\<close>)
  moreover have "ends_line ?H" "\<not> sublist (delimiter b) ?H"
    using head_facts [OF b ends_line_outer, of h signed_type] t d(1) by (simp_all add: contains_iff)
  moreover have "\<not> sublist (delimiter b) ?S"
    using not_sublist_append [OF not_in_line [OF b delimiter_not_in] not_in_line [OF b], of signature_head sig]
      signature_head_facts(2) df(3) d(3) by (simp add: contains_iff crlf_def)
  ultimately show ?thesis
    using extract_signed [OF m b _ u] d(2) signature_head_facts(3) trim_end_crlf
    by (simp add: contains_iff)
qed

lemma plain_tags: "plain_boundary ''pgp-signed''" "plain_boundary ''pgp-encrypted''"
  by code_simp+

text \<open>
  C21. What was signed is what gets verified: when the extractor of the reader takes apart a
  message the signer wrote, verification runs over exactly the bytes that were signed (the
  inner message with CRLF line ends) with exactly the signature of the key source, under
  the sender's stored key, and its verdict is the one that is shown. The boundary and the
  boundary attribute must not occur in what the caller supplies.
\<close>

theorem sign_then_verify:
  assumes "sign_detached source signer (normalize_crlf inner) = Inr sig"
    and "sign_pgp_mime source ts signer inner h = Inr m" "utf8 m"
    and "\<not> contains (to_ascii_lowercase (write_outer_headers h)) boundary_attr"
    and "\<not> contains (write_outer_headers h) (delimiter (make_boundary ''pgp-signed'' ts))"
    and "\<not> contains (normalize_crlf inner) (delimiter (make_boundary ''pgp-signed'' ts))"
    and "\<not> contains (from_utf8_lossy sig) (delimiter (make_boundary ''pgp-signed'' ts))"
    and "lookup sender = Inr (Some key)"
    and "verify_detached source key (normalize_crlf inner) (trim_end (from_utf8_lossy sig)) = Inr vr"
  shows "try_verify_pgp_mime source (Some lookup) (Some sender) m =
    Return \<lparr>pv_verified = valid vr, pv_signer_fingerprint = signer_fingerprint vr,
      pv_signer_uid = signer_uid vr, pv_created_unix = created_unix vr,
      pv_decrypted_body = None, pv_error = None\<rparr>"
proof -
  have m: "m = signed_message h (make_boundary ''pgp-signed'' ts) (normalize_crlf inner) (from_utf8_lossy sig)"
    using assms(1,2) by (simp add: sign_pgp_mime_def Let_def)
  have "extract_pgp_mime_parts m = Return (Some (normalize_crlf inner, trim_end (from_utf8_lossy sig)))"
    unfolding m by (rule extract_signed_message [OF plain_boundary_make [OF plain_tags(1)]])
      (use assms(3-7) m in simp_all)
  then show ?thesis
    using assms(8,9) by (simp add: try_verify_pgp_mime_def verification_key_def)
qed

definition demo_source :: key_source where
  "demo_source =
     \<lparr>list_keys = Inr [(''K'', ''me'')], export_public = (\<lambda>k. Inr (''armor '' @ k)),
      sign_detached = (\<lambda>k x. Inr (''sig of '' @ take 2 x)),
      verify_detached = (\<lambda>k x s. Inr \<lparr>valid = (s = ''sig of '' @ take 2 x), signer_fingerprint = Some k,
         signer_uid = None, created_unix = None\<rparr>),
      encrypt_to = (\<lambda>ks x. Inr x),
      decrypt = (\<lambda>x. Inr (x, \<lparr>valid = False, signer_fingerprint = None, signer_uid = None, created_unix = None\<rparr>))\<rparr>"

definition demo_headers :: outer_headers where
  "demo_headers =
     \<lparr>oh_from = ''a@b.c'', oh_to = [''d@e.f''], oh_cc = [], oh_bcc = [''g@h.i''], oh_subject = ''Hi'',
      oh_message_id = None, oh_in_reply_to = None, oh_references = [], oh_date = None, oh_autocrypt = None\<rparr>"

theorem sign_then_verify_witness:
  "try_verify_pgp_mime demo_source (Some (\<lambda>_. Inr (Some ''armor K''))) (Some ''a@b.c'')
     (signed_message demo_headers (make_boundary ''pgp-signed'' 255) (''Hello'' @ crlf) ''sig of He'') =
   Return \<lparr>pv_verified = True, pv_signer_fingerprint = Some ''armor K'', pv_signer_uid = None,
      pv_created_unix = None, pv_decrypted_body = None, pv_error = None\<rparr>"
proof -
  let ?vr = "\<lparr>valid = True, signer_fingerprint = Some ''armor K'', signer_uid = None, created_unix = None\<rparr>"
  let ?inner = "''Hello'' @ [CHR 0x0A]"
  let ?m = "signed_message demo_headers (make_boundary ''pgp-signed'' 255) (''Hello'' @ crlf) ''sig of He''"
  have n: "normalize_crlf ?inner = ''Hello'' @ crlf" by code_simp
  have s: "sign_detached demo_source ''K'' (normalize_crlf ?inner) = Inr ''sig of He''" by code_simp
  have m: "sign_pgp_mime demo_source 255 ''K'' ?inner demo_headers = Inr ?m" by code_simp
  have "list_all (\<lambda>c. byte c < 0x80) ?m" by code_simp
  then have u: "utf8 ?m" by (intro utf8_ascii) (simp only: list_all_iff)
  have c: "\<not> contains (to_ascii_lowercase (write_outer_headers demo_headers)) boundary_attr"
    "\<not> contains (write_outer_headers demo_headers) (delimiter (make_boundary ''pgp-signed'' 255))"
    "\<not> contains (normalize_crlf ?inner) (delimiter (make_boundary ''pgp-signed'' 255))"
    "\<not> contains (from_utf8_lossy ''sig of He'') (delimiter (make_boundary ''pgp-signed'' 255))"
    by code_simp+
  have v: "verify_detached demo_source ''armor K'' (normalize_crlf ?inner) (trim_end (from_utf8_lossy ''sig of He'')) = Inr ?vr"
    by code_simp
  show ?thesis
    using sign_then_verify [where lookup = "\<lambda>_. Inr (Some ''armor K'')" and sender = "''a@b.c''", OF s m u c refl v]
    by simp
qed

end
