(* ===== verification/Pgp_Decrypt.thy ===== *)
theory Pgp_Decrypt
  imports Pgp_Props
begin

text \<open>
  An encrypted PGP/MIME message is taken apart again, and the Autocrypt header parses back
  to what it was built from (crates/inbx-pgp/src/mime.rs, crates/inbx-render/src/lib.rs).
\<close>

section \<open>What was encrypted is decrypted\<close>

text \<open>The alphabet of base64.\<close>

definition base64_char :: "char \<Rightarrow> bool" where
  "base64_char c \<longleftrightarrow> is_ascii_alphanumeric c \<or> c = CHR ''+'' \<or> c = CHR ''/'' \<or> c = CHR ''=''"

lemma base64_char_facts:
  assumes "base64_char c"
  shows "byte c < 128" "c \<notin> set ascii_ws" "c \<noteq> CHR ''-''" "c \<noteq> CHR '';''" "\<not> is_ascii_whitespace c"
  using assms unfolding ascii_ws_eq
  by (auto simp: base64_char_def is_ascii_alphanumeric_def is_ascii_alphabetic_def is_ascii_digit_def
      is_ascii_lower_def is_ascii_upper_def is_ascii_whitespace_def byte_def)

lemma chars_ascii: "\<forall>c \<in> set s. byte c < 128 \<Longrightarrow> chars s = map (\<lambda>c. [c]) s"
proof (induction s rule: chars.induct)
  case (2 c s)
  have "takeWhile is_cont s = []" "dropWhile is_cont s = s"
    using 2(2) by (cases s; auto simp: is_cont_def)+
  with 2 show ?case by simp
qed simp

lemma strip_whitespace_ascii:
  assumes "\<forall>c \<in> set s. byte c < 128"
  shows "strip_whitespace s = filter (\<lambda>c. c \<notin> set ascii_ws) s"
proof -
  have "[c] \<in> set ws_seqs \<longleftrightarrow> c \<in> set ascii_ws" for c
  proof -
    have "list_all (\<lambda>w. length w \<noteq> 1) wide_ws" by code_simp
    then show ?thesis by (auto simp: ws_seqs_def list_all_iff)
  qed
  then show ?thesis
    unfolding strip_whitespace_def chars_ascii [OF assms] by (induction s) auto
qed

lemma filter_dropWhile: "filter (\<lambda>c. \<not> P c) (dropWhile P s) = filter (\<lambda>c. \<not> P c) s"
  by (induction s) auto

lemma strip_whitespace_trim_end:
  assumes "\<forall>c \<in> set s. byte c < 128"
  shows "strip_whitespace (trim_end s) = filter (\<lambda>c. c \<notin> set ascii_ws) s"
proof -
  let ?t = "dropWhile (\<lambda>c. c \<in> set ascii_ws) (rev s)"
  have t: "trim_end s = rev ?t"
    using strip_ws_ascii [of "rev s" "map rev ws_seqs"] assms by (simp add: trim_end_def)
  have "\<forall>c \<in> set (rev ?t). byte c < 128" using assms by (auto dest: set_dropWhileD)
  from strip_whitespace_ascii [OF this]
  have "strip_whitespace (rev ?t) = rev (filter (\<lambda>c. c \<notin> set ascii_ws) ?t)" by (simp add: rev_filter)
  also have "\<dots> = rev (filter (\<lambda>c. c \<notin> set ascii_ws) (rev s))" by (simp only: filter_dropWhile)
  finally show ?thesis by (simp add: t rev_filter [symmetric])
qed

lemma in_chunks: "c \<in> set xs \<Longrightarrow> xs \<in> set (chunks n s) \<Longrightarrow> c \<in> set s"
  using concat_chunks [of n s] by (metis UN_I set_concat)

lemma b64_wrap_facts:
  assumes "\<forall>x \<in> set (b64_encode c data). base64_char x"
  shows "\<forall>x \<in> set (b64_wrap c data). byte x < 128 \<and> x \<noteq> CHR ''-''"
    "strip_whitespace (trim_end (b64_wrap c data @ crlf)) = b64_encode c data"
proof -
  have in64: "base64_char x" if "x \<in> set l" "l \<in> set (chunks 76 (b64_encode c data))" for x l
    using in_chunks [OF that] assms by blast
  show *: "\<forall>x \<in> set (b64_wrap c data). byte x < 128 \<and> x \<noteq> CHR ''-''"
  proof
    fix x assume "x \<in> set (b64_wrap c data)"
    then have "base64_char x \<or> x \<in> set crlf" using in64 by (auto simp: b64_wrap_def split: if_splits)
    then show "byte x < 128 \<and> x \<noteq> CHR ''-''"
      using base64_char_facts(1,3) by (auto simp: crlf_def byte_def)
  qed
  have ws: "filter (\<lambda>c. c \<notin> set ascii_ws) crlf = []" by (simp add: crlf_def ascii_ws_eq)
  have "filter (\<lambda>c. c \<notin> set ascii_ws) (concat (map (\<lambda>l. l @ crlf) ls)) = concat ls"
    if "\<forall>l \<in> set ls. \<forall>x \<in> set l. base64_char x" for ls
    using that ws base64_char_facts(2) by (induction ls) (auto simp: filter_id_conv)
  then have "filter (\<lambda>c. c \<notin> set ascii_ws) (b64_wrap c data @ crlf) = b64_encode c data"
    using in64 ws by (simp add: b64_wrap_def concat_chunks)
  moreover have "\<forall>x \<in> set (b64_wrap c data @ crlf). byte x < 128"
    using * by (auto simp: crlf_def byte_def)
  ultimately show "strip_whitespace (trim_end (b64_wrap c data @ crlf)) = b64_encode c data"
    by (simp only: strip_whitespace_trim_end)
qed

section \<open>Extraction\<close>

definition encrypted_type :: string where
  "encrypted_type =
     ''Content-Type: multipart/encrypted; protocol='' @ dquote ''application/pgp-encrypted'' @ ''; ''"

definition version_lines :: string where
  "version_lines =
     ''Content-Type: application/pgp-encrypted'' @ crlf @
     ''Content-Description: PGP/MIME version identification'' @ crlf @ crlf @
     ''Version: 1'' @ crlf"

lemma encrypted_head_eq:
  "encrypted_head b = encrypted_type @ boundary_attr @ b @ CHR 0x22 # head_tail"
  by (simp add: encrypted_head_def encrypted_type_def boundary_attr_def head_tail_def dquote_def)

lemma version_part_eq: "version_part = version_lines @ crlf"
  by (simp add: version_part_def version_lines_def)

lemma encrypted_type_facts:
  "encrypted_type \<noteq> []" "last encrypted_type = CHR '' ''" "dash_free encrypted_type"
  "\<not> contains (to_ascii_lowercase encrypted_type) boundary_attr"
  "dash_free version_lines"
  by code_simp+

lemma ciphertext_head_facts:
  "ends_line ciphertext_head" "dash_free ciphertext_head" "CHR ''-'' \<noteq> last ciphertext_head"
  "contains (to_ascii_lowercase (ciphertext_head @ crlf)) ''content-transfer-encoding: base64''"
  by code_simp+

lemma body_start_ciphertext: "body_start (ciphertext_head @ crlf @ s) = length (ciphertext_head @ crlf)"
proof -
  obtain X where X: "X \<noteq> []" "last X \<notin> set (crlf @ crlf)" "\<not> sublist (crlf @ crlf) X" "ciphertext_head = X @ crlf"
  proof
    show "butlast (butlast ciphertext_head) \<noteq> []"
      "last (butlast (butlast ciphertext_head)) \<notin> set (crlf @ crlf)"
      "\<not> sublist (crlf @ crlf) (butlast (butlast ciphertext_head))"
      "ciphertext_head = butlast (butlast ciphertext_head) @ crlf"
      unfolding contains_iff [symmetric] by code_simp+
  qed
  have "find_sub (crlf @ crlf) (X @ ((crlf @ crlf) @ s)) = Some (length X)"
    using find_sub_skip [OF X(1-3), of "(crlf @ crlf) @ s"] find_sub_here [of "crlf @ crlf" s]
    by (simp add: crlf_def)
  then show ?thesis by (simp add: body_start_def X(4))
qed

lemma ciphertext_of_written:
  assumes "\<forall>x \<in> set (b64_encode c ct). base64_char x" "b64_decode c (b64_encode c ct) = Inr ct"
  shows "ciphertext_of_part c (ciphertext_head @ crlf @ b64_wrap c ct @ crlf) = Some ct"
  unfolding ciphertext_of_part_def Let_def body_start_ciphertext
  using ciphertext_head_facts(4) b64_wrap_facts(2) [OF assms(1)] assms(2) by simp

lemma slice_at: "m = A @ s @ r \<Longrightarrow> i = length A \<Longrightarrow> j = i + length s \<Longrightarrow> slice i j m = Return s"
  by simp

lemma extract_encrypted:
  assumes m: "m = H @ delimiter b @ crlf @ x @ crlf @ delimiter b @ crlf @ S @ delimiter b @ r"
    and b: "plain_boundary b" "find_boundary m = Some b" "utf8 m"
    and H: "ends_line H" "\<not> sublist (delimiter b) H"
    and x: "\<not> sublist (delimiter b) x"
    and S: "ends_line S" "\<not> sublist (delimiter b) (crlf @ S)"
  shows "extract_pgp_encrypted_ciphertext c m = Return (ciphertext_of_part c S)"
proof -
  let ?d = "delimiter b" and ?b1 = "length H + length (delimiter b) + length x + 4"
  let ?b2 = "?b1 + length ?d + length (crlf @ S)"
  note d = delimiter_facts [OF b(1)]
  have "occurrences ?d (?b1 + length ?d) ((crlf @ S) @ ?d @ r) =
      ?b2 # occurrences ?d (?b2 + length ?d) r"
    using S d by (intro occurrences_step) simp_all
  then have occ: "occurrences ?d 0 m = length H # ?b1 # ?b2 # occurrences ?d (?b2 + length ?d) r"
    unfolding m using occurrences_two [OF b(1) H x] by (simp add: Let_def)
  have m3: "m = (H @ ?d @ crlf @ x @ crlf) @ ?d @ crlf @ (S @ ?d @ r)" using m by simp
  have "next_line m ?b1 = Some (?b1 + length ?d + 2)"
    by (rule next_line_crlf [OF d(2) m3]) simp
  moreover have "slice (?b1 + length ?d + 2) ?b2 m = Return S"
    by (rule slice_at [where A = "H @ ?d @ crlf @ x @ crlf @ ?d @ crlf"]) (simp_all add: m)
  ultimately show ?thesis
    using b(2,3) occ by (simp add: extract_pgp_encrypted_ciphertext_def Let_def)
qed

lemma dash_free_crlf: "dash_free s \<Longrightarrow> dash_free (crlf @ s)"
  by (cases s) (simp_all add: crlf_def)

lemma extract_encrypted_message:
  assumes b: "plain_boundary b" and u: "utf8 (encrypted_message h b (b64_wrap c ct))"
    and W: "\<not> contains (to_ascii_lowercase (write_outer_headers h)) boundary_attr"
    and d: "\<not> contains (write_outer_headers h) (delimiter b)"
    and c: "\<forall>x \<in> set (b64_encode c ct). base64_char x" "b64_decode c (b64_encode c ct) = Inr ct"
  shows "extract_pgp_encrypted_ciphertext c (encrypted_message h b (b64_wrap c ct)) = Return (Some ct)"
proof -
  let ?W = "write_outer_headers h" and ?S = "ciphertext_head @ crlf @ b64_wrap c ct @ crlf"
  let ?H = "?W @ encrypted_type @ boundary_attr @ b @ CHR 0x22 # head_tail"
  let ?m = "encrypted_message h b (b64_wrap c ct)"
  have m: "?m = ?H @ delimiter b @ crlf @ version_lines @ crlf @ delimiter b @ crlf @ ?S @ delimiter b @ ''--'' @ crlf"
    by (simp add: encrypted_message_def encrypted_head_eq version_part_eq)
  note t = encrypted_type_facts
  have "find_boundary ?m = Some b"
    by (rule find_boundary_here [OF _ ends_line_outer W])
       (use t b in \<open>simp_all add: m plain_boundary_def\<close>)
  moreover have "ends_line ?H" "\<not> sublist (delimiter b) ?H"
    using head_facts [OF b ends_line_outer, of h encrypted_type] t d by (simp_all add: contains_iff)
  moreover have "dash_free (b64_wrap c ct @ crlf)"
    using b64_wrap_facts(1) [OF c(1)] by (intro dash_free_none) (auto simp: crlf_def)
  then have "dash_free (ciphertext_head @ (crlf @ (b64_wrap c ct @ crlf)))"
    by (intro dash_free_append [OF ciphertext_head_facts(2) dash_free_crlf]) (simp_all add: crlf_def)
  then have "\<not> sublist (delimiter b) (crlf @ ?S)"
    by (intro delimiter_not_in dash_free_crlf)
  moreover have "\<not> sublist (delimiter b) version_lines"
    using t(5) by (rule delimiter_not_in)
  ultimately show ?thesis
    using extract_encrypted [OF m b _ u] ciphertext_of_written [OF c] by simp
qed

text \<open>
  C22. What was encrypted is what gets decrypted: the reader takes the ciphertext out of a
  message the writer made, base64 undone, and hands exactly it to the key source; when that
  gives back the payload that was encrypted (the inner message, or the signed message when
  a signer is given), the payload is what is shown and rendered, without a verdict on it.
\<close>

theorem encrypt_then_decrypt:
  assumes "encryption_payload source (fst ts) signer inner h = Inr payload"
    and "encrypt_to source recipients payload = Inr ct"
    and "encrypt_pgp_mime c source ts signer recipients inner h = Inr m" "utf8 m"
    and "\<not> contains (to_ascii_lowercase (write_outer_headers h)) boundary_attr"
    and "\<not> contains (write_outer_headers h) (delimiter (make_boundary ''pgp-encrypted'' (snd ts)))"
    and "\<forall>x \<in> set (b64_encode c ct). base64_char x" "b64_decode c (b64_encode c ct) = Inr ct"
    and "decrypt source ct = Inr (payload, vr)"
  shows "try_decrypt_pgp_mime c source render m =
    bind_outcome (render payload) (\<lambda>r. Return (decrypted payload, case r of Inl e \<Rightarrow> None | Inr page \<Rightarrow> Some page))"
proof -
  have m: "m = encrypted_message h (make_boundary ''pgp-encrypted'' (snd ts)) (b64_wrap c ct)"
    using assms(1-3) by (simp add: encrypt_pgp_mime_def)
  have "extract_pgp_encrypted_ciphertext c m = Return (Some ct)"
    unfolding m by (rule extract_encrypted_message [OF plain_boundary_make [OF plain_tags(2)]])
      (use assms(4-8) m in simp_all)
  then show ?thesis using assms(9) by (simp add: try_decrypt_pgp_mime_def)
qed

definition demo_codec :: codec where
  "demo_codec =
     \<lparr>b64_encode = (\<lambda>x. ''AAAA''), b64_decode = (\<lambda>s. if s = ''AAAA'' then Inr (''Hello'' @ crlf) else Inl ''bad''),
      packets_of_armor = (\<lambda>a. Inr (''Hello'' @ crlf)), key_of_packets = (\<lambda>p. Inr (''fpr'', ''armor''))\<rparr>"

theorem encrypt_then_decrypt_witness:
  "try_decrypt_pgp_mime demo_codec demo_source (\<lambda>x. Return (Inr (length x) :: string + nat))
     (encrypted_message demo_headers (make_boundary ''pgp-encrypted'' 4096) (b64_wrap demo_codec (''Hello'' @ crlf))) =
   Return (decrypted (''Hello'' @ crlf), Some 7)"
proof -
  let ?inner = "''Hello'' @ [CHR 0x0A]" and ?p = "''Hello'' @ crlf"
  let ?m = "encrypted_message demo_headers (make_boundary ''pgp-encrypted'' 4096) (b64_wrap demo_codec ?p)"
  let ?vr = "\<lparr>valid = False, signer_fingerprint = None, signer_uid = None, created_unix = None\<rparr>"
  have p: "encryption_payload demo_source (fst (0, 4096)) None ?inner demo_headers = Inr ?p" by code_simp
  have e: "encrypt_to demo_source [''K''] ?p = Inr ?p" by code_simp
  have m: "encrypt_pgp_mime demo_codec demo_source (0, 4096) None [''K''] ?inner demo_headers = Inr ?m" by code_simp
  have "list_all (\<lambda>c. byte c < 0x80) ?m" by code_simp
  then have u: "utf8 ?m" by (intro utf8_ascii) (simp only: list_all_iff)
  have w: "\<not> contains (to_ascii_lowercase (write_outer_headers demo_headers)) boundary_attr"
    "\<not> contains (write_outer_headers demo_headers) (delimiter (make_boundary ''pgp-encrypted'' (snd (0, 4096))))"
    by code_simp+
  have b: "\<forall>x \<in> set (b64_encode demo_codec ?p). base64_char x"
    "b64_decode demo_codec (b64_encode demo_codec ?p) = Inr ?p" by code_simp+
  have d: "decrypt demo_source ?p = Inr (?p, ?vr)" by code_simp
  show ?thesis
    using encrypt_then_decrypt [where render = "\<lambda>x. Return (Inr (length x) :: string + nat)", OF p e m u w b d] by simp
qed

section \<open>The Autocrypt header\<close>

lemma unfold_folds:
  assumes "CHR 0x0D \<notin> set a" "\<forall>x \<in> set cs. CHR 0x0D \<notin> set x"
  shows "unfold_crlf (a @ concat (map (\<lambda>x. crlf @ '' '' @ x) cs)) = a @ concat cs"
  using assms
proof (induction cs arbitrary: a)
  case Nil
  have "\<not> sublist crlf a" using Nil.prems(1) by (auto simp: crlf_def dest: set_mono_sublist)
  then have "find_sub crlf a = None" by (rule find_sub_None [THEN iffD2])
  then show ?case by (subst unfold_crlf.simps) simp
next
  case (Cons x cs)
  let ?r = "concat (map (\<lambda>x. crlf @ '' '' @ x) cs)"
  have "find_sub crlf (a @ crlf @ '' '' @ x @ ?r) = Some (length a)"
    using find_sub_fresh [of crlf a] Cons.prems by (simp add: crlf_def)
  then have "unfold_crlf (a @ crlf @ '' '' @ x @ ?r) = unfold_crlf ((a @ x) @ ?r)"
    by (subst unfold_crlf.simps) (simp add: blank_tab_def)
  then show ?case using Cons.IH [of "a @ x"] Cons.prems by simp
qed

lemma unfold_lf_free: "CHR 0x0A \<notin> set s \<Longrightarrow> unfold_lf s = s"
  by (induction s rule: unfold_lf.induct) auto

lemma trim_blank: "trim (CHR '' '' # s) = trim s"
  by (simp add: trim_def trim_start_def ws_at_space)

lemma folded_join: "ls \<noteq> [] \<Longrightarrow> sep @ join sep ls = concat (map (\<lambda>x. sep @ x) ls)"
proof (induction ls)
  case (Cons l ls)
  then show ?case by (cases "ls = []") (simp_all add: join_Cons)
qed simp

lemma folded_chunks:
  "crlf @ '' '' @ join (crlf @ '' '') (chunks 76 s) =
   concat (map (\<lambda>x. crlf @ '' '' @ x) (if s = [] then [[]] else chunks 76 s))"
proof (cases "s = []")
  case True
  then have "chunks 76 s = []" by (subst chunks.simps) simp
  with True show ?thesis by simp
next
  case False
  then have "chunks 76 s \<noteq> []" by (subst chunks.simps) simp
  from folded_join [OF this, of "crlf @ '' ''"] False show ?thesis by simp
qed

lemma autocrypt_attr_cases:
  assumes "trimmed v" "CHR ''='' \<notin> set k" "k \<noteq> []" "\<forall>c \<in> set k. plain_char c"
  shows "trim (k @ CHR ''='' # v) = k @ CHR ''='' # v"
    "split_once (CHR ''='') (k @ CHR ''='' # v) = Some (k, v)"
proof -
  show "trim (k @ CHR ''='' # v) = k @ CHR ''='' # v"
    using trim_plain_prefix [of "k @ ''=''" v] assms by (auto simp: plain_char_def byte_def)
  show "split_once (CHR ''='') (k @ CHR ''='' # v) = Some (k, v)"
    using split_once_append assms(2) by blast
qed

text \<open>One attribute of the written header, by its name and value.\<close>

lemma autocrypt_attr_written:
  assumes "trimmed v"
  shows "autocrypt_attr (''addr='' @ v) a = a\<lparr>at_addr := Some v\<rparr>"
    "autocrypt_attr ('' keydata='' @ v) a = a\<lparr>at_keydata := Some (filter (\<lambda>c. \<not> is_ascii_whitespace c) v)\<rparr>"
    "autocrypt_attr '' prefer-encrypt=mutual'' a = a\<lparr>at_prefer := Mutual\<rparr>"
proof -
  have k: "to_ascii_lowercase (trim k) = k" "CHR ''='' \<notin> set k" "k \<noteq> []" "\<forall>c \<in> set k. plain_char c"
    if "k = ''addr'' \<or> k = ''keydata''" for k
    using that by (elim disjE; simp; code_simp)+
  note w = autocrypt_attr_cases [OF assms k(2-4)]
  show "autocrypt_attr (''addr='' @ v) a = a\<lparr>at_addr := Some v\<rparr>"
    using w [of "''addr''"] k(1) [of "''addr''"] trim_id [OF assms]
    by (simp add: autocrypt_attr_def Let_def)
  show "autocrypt_attr ('' keydata='' @ v) a = a\<lparr>at_keydata := Some (filter (\<lambda>c. \<not> is_ascii_whitespace c) v)\<rparr>"
    using w [of "''keydata''"] k(1) [of "''keydata''"] trim_id [OF assms]
    by (simp add: autocrypt_attr_def Let_def trim_blank)
  have m: "trim '' prefer-encrypt=mutual'' = ''prefer-encrypt=mutual''"
    "split_once (CHR ''='') ''prefer-encrypt=mutual'' = Some (''prefer-encrypt'', ''mutual'')"
    "to_ascii_lowercase (trim ''prefer-encrypt'') = ''prefer-encrypt''" "trim ''mutual'' = ''mutual''"
    by code_simp+
  show "autocrypt_attr '' prefer-encrypt=mutual'' a = a\<lparr>at_prefer := Mutual\<rparr>"
    unfolding autocrypt_attr_def m by (simp add: m)
qed

lemma trimmed_plain: "\<forall>c \<in> set s. plain_char c \<Longrightarrow> trimmed s"
  using trimmed_plain_prefix [of s "[]"] by (cases "s = []") (simp_all add: trimmed_def)

lemma base64_plain: "base64_char c \<Longrightarrow> plain_char c"
  by (auto simp: base64_char_def plain_char_def is_ascii_alphanumeric_def is_ascii_alphabetic_def
      is_ascii_digit_def is_ascii_lower_def is_ascii_upper_def byte_def)

lemma autocrypt_attrs_written:
  fixes mutual :: bool
  defines "pe \<equiv> (if mutual then ''; prefer-encrypt=mutual'' else [])"
  assumes data: "\<forall>x \<in> set data. base64_char x"
    and addr: "trimmed addr" "CHR '';'' \<notin> set addr" "CHR 0x0D \<notin> set addr" "CHR 0x0A \<notin> set addr"
  shows "autocrypt_attrs_of (''addr='' @ addr @ pe @ ''; keydata='' @ crlf @ '' '' @ join (crlf @ '' '') (chunks 76 data)) =
    \<lparr>at_addr = Some addr, at_keydata = Some data, at_prefer = (if mutual then Mutual else Nopreference)\<rparr>"
proof -
  let ?head = "''addr='' @ addr @ pe @ ''; keydata=''" and ?ls = "if data = [] then [[]] else chunks 76 data"
  have nodata: "CHR 0x0D \<notin> set data" "CHR 0x0A \<notin> set data" "CHR '';'' \<notin> set data"
    using data by (auto simp: base64_char_def is_ascii_alphanumeric_def is_ascii_alphabetic_def
      is_ascii_digit_def is_ascii_lower_def is_ascii_upper_def byte_def)
  have "unfold_crlf (?head @ concat (map (\<lambda>x. crlf @ '' '' @ x) ?ls)) = ?head @ concat ?ls"
    by (rule unfold_folds) (use addr(3) nodata(1) in \<open>auto simp: pe_def dest: in_chunks\<close>)
  moreover have "concat ?ls = data" by (simp add: concat_chunks)
  moreover have "unfold_lf (?head @ data) = ?head @ data"
    by (rule unfold_lf_free) (use addr(4) nodata(2) in \<open>auto simp: pe_def\<close>)
  ultimately have u: "unfold_lf (unfold_crlf (?head @ crlf @ '' '' @ join (crlf @ '' '') (chunks 76 data))) = ?head @ data"
    by (simp only: folded_chunks)
  have "split_on (CHR '';'') (?head @ data) =
      [''addr='' @ addr] @ (if mutual then ['' prefer-encrypt=mutual''] else []) @ ['' keydata='' @ data]"
    using addr(2) nodata(3) split_on_append [of "CHR '';''" "''addr='' @ addr"]
      split_on_append [of "CHR '';''" "'' prefer-encrypt=mutual''"] split_on_free [of "CHR '';''" "'' keydata='' @ data"]
    by (simp add: pe_def)
  moreover have "trimmed data" using data base64_plain by (intro trimmed_plain) auto
  moreover have "filter (\<lambda>c. \<not> is_ascii_whitespace c) data = data"
    using data base64_char_facts(5) by (simp add: filter_id_conv)
  ultimately show ?thesis
    using u autocrypt_attr_written addr(1)
    unfolding autocrypt_attrs_of_def append_assoc by simp
qed

text \<open>
  An Autocrypt header parses back: from the folded value the program writes for an
  address and a key, a reader gets that address, exactly the key's packets out of the
  base64 lines, and the preference that was set; for every length of key and every address
  without semicolon or line break.
\<close>

theorem autocrypt_roundtrip:
  assumes "packets_of_armor c armored = Inr binary"
    and "\<forall>x \<in> set (b64_encode c binary). base64_char x" "b64_decode c (b64_encode c binary) = Inr binary"
    and "key_of_packets c binary = Inr (fingerprint, key)"
    and "trimmed addr" "CHR '';'' \<notin> set addr" "CHR 0x0D \<notin> set addr" "CHR 0x0A \<notin> set addr"
  shows "and_then (autocrypt_header_value c addr armored mutual) (parse_autocrypt_header c) =
    Inr \<lparr>ac_addr = addr, ac_keydata_armored = key, ac_fingerprint = fingerprint,
         ac_prefer_encrypt = (if mutual then Mutual else Nopreference)\<rparr>"
proof -
  let ?v = "''addr='' @ addr @ (if mutual then ''; prefer-encrypt=mutual'' else []) @
    ''; keydata='' @ crlf @ '' '' @ join (crlf @ '' '') (chunks 76 (b64_encode c binary))"
  have "autocrypt_header_value c addr armored mutual = Inr ?v"
    using assms(1) by (simp only: autocrypt_header_value_def and_then_simps)
  moreover have "autocrypt_attrs_of ?v =
      \<lparr>at_addr = Some addr, at_keydata = Some (b64_encode c binary), at_prefer = (if mutual then Mutual else Nopreference)\<rparr>"
    by (rule autocrypt_attrs_written [OF assms(2,5-8)])
  then have "parse_autocrypt_header c ?v =
      Inr \<lparr>ac_addr = addr, ac_keydata_armored = key, ac_fingerprint = fingerprint,
         ac_prefer_encrypt = (if mutual then Mutual else Nopreference)\<rparr>"
    unfolding parse_autocrypt_header_def using assms(3,4) by simp
  ultimately show ?thesis by (simp only: and_then_simps)
qed

theorem autocrypt_roundtrip_witness:
  "and_then (autocrypt_header_value demo_codec ''me@x.org'' ''armor'' True) (parse_autocrypt_header demo_codec) =
    Inr \<lparr>ac_addr = ''me@x.org'', ac_keydata_armored = ''armor'', ac_fingerprint = ''fpr'', ac_prefer_encrypt = Mutual\<rparr>"
proof -
  have "\<forall>x \<in> set (b64_encode demo_codec (''Hello'' @ crlf)). base64_char x" by code_simp
  moreover have "trimmed ''me@x.org''" by (rule trimmed_plain) (simp add: plain_char_def byte_def)
  ultimately show ?thesis
    using autocrypt_roundtrip [of demo_codec "''armor''" "''Hello'' @ crlf" "''fpr''" "''armor''" "''me@x.org''" True]
    by (simp add: demo_codec_def)
qed

section \<open>Messages that make the reader panic\<close>

lemma signed_panics:
  assumes "list_all (\<lambda>c. byte c < 0x80) m" "find_boundary m = Some b"
    and "occurrences (delimiter b) 0 m = b0 # b1 # bs" "next_line m b0 = Some n" "part_end m b1 < n"
  shows "extract_pgp_mime_parts m = Panic"
proof -
  have "utf8 m" using assms(1) by (intro utf8_ascii) (simp only: list_all_iff)
  with assms(2-5) show ?thesis by (simp add: extract_pgp_mime_parts_def slice_def)
qed

lemma encrypted_panics:
  assumes "list_all (\<lambda>c. byte c < 0x80) m" "find_boundary m = Some b"
    and "occurrences (delimiter b) 0 m = b0 # b1 # b2 # bs" "next_line m b1 = Some n" "b2 < n"
  shows "extract_pgp_encrypted_ciphertext c m = Panic"
proof -
  have "utf8 m" using assms(1) by (intro utf8_ascii) (simp only: list_all_iff)
  with assms(2-5) show ?thesis by (simp add: extract_pgp_encrypted_ciphertext_def slice_def)
qed


end
