(* ===== verification/Render_Props.thy ===== *)
theory Render_Props
  imports Render Pgp_Decrypt
begin

text \<open>What a verdict on a rendered message rests on.\<close>

lemma bind_outcome_Return: "bind_outcome x f = Return b \<longleftrightarrow> (\<exists>a. x = Return a \<and> f a = Return b)"
  by (cases x) auto

lemma render_message_unverified:
  "render_message env policy msg = Return (Inr r) \<Longrightarrow> pgp_verify r = None"
  by (auto simp: render_message_def bind_outcome_Return split: option.splits)

lemma verified_by_source:
  assumes "try_verify_pgp_mime source lookup who msg = Return v" "pv_verified v"
  obtains signed sig key remark vr where "extract_pgp_mime_parts msg = Return (Some (signed, sig))"
    "verification_key source lookup who = Inr (key, remark)"
    "verify_detached source key signed sig = Inr vr" "valid vr"
  using assms
proof -
  have e: "\<not> pv_verified e" if "verification_key source lookup who = Inl e" for e
    using that by (auto simp: verification_key_def own_key_def and_then_def verify_failed_def
        split: option.splits sum.splits list.splits)
  show ?thesis
    using assms e that
    by (auto simp: try_verify_pgp_mime_def bind_outcome_def verify_failed_def
        split: outcome.splits option.splits sum.splits)
qed

lemma decrypt_unverified:
  "try_decrypt_pgp_mime c source render msg = Return (v, d) \<Longrightarrow> \<not> pv_verified v"
  by (auto simp: try_decrypt_pgp_mime_def bind_outcome_def verify_failed_def decrypted_def
      split: outcome.splits option.splits sum.splits prod.splits)

lemma apply_pgp_verified:
  assumes "apply_pgp c env policy source lookup msg r0 = Return r" "pgp_verify r0 = None"
    and "pgp_verify r = Some v" "pv_verified v"
  shows "kind (security r) = Pgp_Mime_Signed \<and>
    try_verify_pgp_mime source lookup (extract_from_email (parse env) msg) msg = Return v"
proof (cases "kind (security r0)")
  case Pgp_Encrypted
  then obtain w d where w: "try_decrypt_pgp_mime c source (render_message env policy) msg = Return (w, d)"
    "r = (merge_decrypted d r0)\<lparr>pgp_verify := Some w\<rparr>"
    using assms(1) by (auto simp: apply_pgp_def bind_outcome_Return)
  with decrypt_unverified [OF w(1)] assms(3,4) show ?thesis by simp
qed (use assms in \<open>auto simp: apply_pgp_def bind_outcome_Return\<close>)


definition demo_env :: render_env where
  "demo_env =
     \<lparr>parse = (\<lambda>_. Some
        \<lparr>mv_headers = [], header_values = (\<lambda>_. []), header_of = (\<lambda>_. None),
         mv_from = Some [\<lparr>display_name = None, address = Some ''a@b.c''\<rparr>], mv_to = None, mv_cc = None,
         mv_bcc = None, mv_reply_to = None, mv_subject = None, mv_message_id = None, mv_references = None,
         mv_date = None, mv_body_text = None,
         mv_parts = [\<lparr>part_type = Some \<lparr>ctype = ''multipart'', subtype = Some ''signed'',
            attributes = [(''protocol'', ''application/pgp-signature'')]\<rparr>, content_id = None, part_body = Container_Part\<rparr>]\<rparr>),
      clean_html = id, clean_text = id, html_to_text = id, alnum = (\<lambda>_. False)\<rparr>"


end
