(* ===== verification/Composer.thy ===== *)
theory Composer
  imports Render
begin

text \<open>
  The composer (crates/inbx-composer/src/lib.rs, identity.rs): one message in flight. A header
  field is the text its editor shows and the body the content of its editor; what an
  editor makes of a text that is put into it is a parameter (\<open>widgets\<close>), and so are the
  mail parser, the writer of MIME messages and the key source.
\<close>

section \<open>Identity and state\<close>

record identity =
  email :: string
  id_name :: "string option"
  signature :: "string option"

definition signature_block :: "identity \<Rightarrow> string option" where
  "signature_block i =
     (case signature i of
        None \<Rightarrow> None
      | Some s \<Rightarrow>
          if prefix (''-- '' @ [CHR 0x0A]) s \<or> prefix (''--'' @ [CHR 0x0A]) s then Some s
          else Some (''-- '' @ [CHR 0x0A] @ s))"

datatype field = Subject | To | Cc | Bcc | Body

fun next_field :: "field \<Rightarrow> field" where
  "next_field Subject = To"
| "next_field To = Cc"
| "next_field Cc = Bcc"
| "next_field Bcc = Body"
| "next_field Body = Subject"

fun prev_field :: "field \<Rightarrow> field" where
  "prev_field Subject = Body"
| "prev_field To = Subject"
| "prev_field Cc = To"
| "prev_field Bcc = Cc"
| "prev_field Body = Bcc"

fun field_to_header_idx :: "field \<Rightarrow> nat option" where
  "field_to_header_idx Subject = Some 0"
| "field_to_header_idx To = Some 1"
| "field_to_header_idx Cc = Some 2"
| "field_to_header_idx Bcc = Some 3"
| "field_to_header_idx Body = None"

record pgp_flags =
  pgp_sign :: bool
  pgp_encrypt :: bool

record attachment =
  filename :: string
  att_type :: string
  att_bytes :: string

record widgets =
  put_text :: "string \<Rightarrow> string"
  put_content :: "string \<Rightarrow> string"
  fresh_text :: string
  fresh_content :: string

text \<open>\<open>header_fields\<close> are the texts of Subject, To, Cc and Bcc, \<open>form_focus\<close> the field the form has in focus.\<close>

record composer =
  ident :: identity
  header_fields :: "string list"
  form_focus :: nat
  body :: string
  focus :: field
  irt :: "string option"
  reference_ids :: "string list"
  attachments :: "attachment list"
  pgp :: pgp_flags
  autocrypt_pubkey :: "(string \<times> string) option"
  prefer_encrypt_mutual :: bool

datatype composer_error = Parse_Failed | Missing string | Pgp_Failed string

section \<open>Fields and focus\<close>

definition header_text :: "nat \<Rightarrow> composer \<Rightarrow> string" where
  "header_text i c =
     (if i < length (header_fields c) then trim_end_matches (\<lambda>x. x = CHR 0x0A) (header_fields c ! i) else [])"

definition set_header_text :: "widgets \<Rightarrow> nat \<Rightarrow> string \<Rightarrow> composer \<Rightarrow> composer" where
  "set_header_text w i t c = c\<lparr>header_fields := (header_fields c)[i := put_text w t]\<rparr>"

definition set_body :: "widgets \<Rightarrow> string \<Rightarrow> composer \<Rightarrow> composer" where
  "set_body w t c = c\<lparr>body := put_content w t\<rparr>"

definition body_text :: "composer \<Rightarrow> string" where
  "body_text c = trim_end_matches (\<lambda>x. x = CHR 0x0A) (body c)"

definition sync_form_focus :: "composer \<Rightarrow> composer" where
  "sync_form_focus c =
     (case field_to_header_idx (focus c) of Some i \<Rightarrow> c\<lparr>form_focus := i\<rparr> | None \<Rightarrow> c)"

definition focus_next :: "composer \<Rightarrow> composer" where
  "focus_next c = sync_form_focus (c\<lparr>focus := next_field (focus c)\<rparr>)"

definition focus_prev :: "composer \<Rightarrow> composer" where
  "focus_prev c = sync_form_focus (c\<lparr>focus := prev_field (focus c)\<rparr>)"

text \<open>The editor keystrokes go to: a header field, or the body.\<close>

definition focused_editor :: "composer \<Rightarrow> nat option" where
  "focused_editor c =
     (case field_to_header_idx (focus c) of
        Some i \<Rightarrow> if i < length (header_fields c) then Some i else None
      | None \<Rightarrow> None)"

definition set_autocrypt_pubkey :: "string \<Rightarrow> string \<Rightarrow> composer \<Rightarrow> composer" where
  "set_autocrypt_pubkey addr armored c = c\<lparr>autocrypt_pubkey := Some (addr, armored)\<rparr>"

section \<open>Attachments\<close>

definition or_empty :: "string option \<Rightarrow> string" where
  "or_empty x = (case x of Some s \<Rightarrow> s | None \<Rightarrow> [])"

text \<open>
  The extension of a file name: after its last dot, unless that is its first character or
  the name is \<open>..\<close>.
\<close>

definition split_extension :: "string \<Rightarrow> string \<times> string option" where
  "split_extension n =
     (if n = ''..'' then (n, None)
      else case rsplit_once (CHR ''.'') n of
        None \<Rightarrow> (n, None)
      | Some (stem, ext) \<Rightarrow> if stem = [] then (n, None) else (stem, Some ext))"

definition CONTENT_TYPES :: "(string \<times> string) list" where
  "CONTENT_TYPES =
     [(''pdf'', ''application/pdf''), (''txt'', ''text/plain''), (''log'', ''text/plain''), (''md'', ''text/plain''),
      (''html'', ''text/html''), (''htm'', ''text/html''), (''json'', ''application/json''), (''xml'', ''application/xml''),
      (''csv'', ''text/csv''), (''png'', ''image/png''), (''jpg'', ''image/jpeg''), (''jpeg'', ''image/jpeg''),
      (''gif'', ''image/gif''), (''webp'', ''image/webp''), (''svg'', ''image/svg+xml''), (''zip'', ''application/zip''),
      (''gz'', ''application/gzip''), (''tgz'', ''application/gzip''), (''tar'', ''application/x-tar''),
      (''mp3'', ''audio/mpeg''), (''mp4'', ''video/mp4''), (''ics'', ''text/calendar'')]"

definition guess_content_type :: "string \<Rightarrow> string" where
  "guess_content_type n =
     (let ext = (case snd (split_extension n) of Some e \<Rightarrow> to_ascii_lowercase e | None \<Rightarrow> [])
      in case map_of CONTENT_TYPES ext of Some t \<Rightarrow> t | None \<Rightarrow> ''application/octet-stream'')"

text \<open>\<open>content\<close> is what reading the file gives, \<open>file\<close> its name when it is a UTF-8 one.\<close>

definition attach_path :: "string option \<Rightarrow> string option \<Rightarrow> composer \<Rightarrow> composer_error + composer" where
  "attach_path content file c =
     (case content of
        None \<Rightarrow> Inl (Missing ''read attachment'')
      | Some bytes \<Rightarrow>
          (let n = (case file of Some f \<Rightarrow> f | None \<Rightarrow> ''attachment'')
           in Inr (c\<lparr>attachments := attachments c @
                \<lparr>filename = n, att_type = guess_content_type n, att_bytes = bytes\<rparr> # []\<rparr>)))"

text \<open>The clipboard gives an image and a text, or neither when it is unavailable.\<close>

definition attach_from_clipboard ::
  "(string option \<times> string option) option \<Rightarrow> nat \<Rightarrow> composer \<Rightarrow> composer_error + composer" where
  "attach_from_clipboard clip now c =
     (let add = (\<lambda>n t b. Inr (c\<lparr>attachments := attachments c @ [\<lparr>filename = n, att_type = t, att_bytes = b\<rparr>]\<rparr>))
      in case clip of
           None \<Rightarrow> Inl (Missing ''clipboard unavailable'')
         | Some (png, txt) \<Rightarrow>
             if png \<noteq> None \<and> png \<noteq> Some []
             then add (''clipboard-'' @ show_nat now @ ''.png'') ''image/png'' (or_empty png)
             else if txt = None \<or> txt = Some [] then Inl (Missing ''clipboard empty'')
             else add (''clipboard-'' @ show_nat now @ ''.txt'') ''text/plain'' (or_empty txt))"

section \<open>New messages\<close>

definition new_blank :: "widgets \<Rightarrow> identity \<Rightarrow> composer" where
  "new_blank w i =
     \<lparr>ident = i, header_fields = replicate 4 (fresh_text w), form_focus = 1,
      body = (case signature_block i of Some s \<Rightarrow> put_content w s | None \<Rightarrow> fresh_content w),
      focus = To, irt = None, reference_ids = [], attachments = [],
      pgp = \<lparr>pgp_sign = False, pgp_encrypt = False\<rparr>, autocrypt_pubkey = None, prefer_encrypt_mutual = True\<rparr>"

definition prefix_subject :: "string \<Rightarrow> string \<Rightarrow> string" where
  "prefix_subject subj p =
     (let t = trim subj
      in if prefix (to_ascii_uppercase (trim p)) (to_ascii_uppercase t) then t else p @ t)"

definition format_attribution :: "mail_view \<Rightarrow> string" where
  "format_attribution m =
     (let sender = or_empty (first_address (mv_from m));
          date = (case header_values m ''Date'' of [] \<Rightarrow> [] | h # _ \<Rightarrow> or_empty (text_value h))
      in if sender = [] then []
         else if date = [] then ''On <unknown date>, '' @ sender @ '' wrote:''
         else ''On '' @ date @ '', '' @ sender @ '' wrote:'')"

text \<open>The addresses of To and Cc, without the own one, the sender and repetitions.\<close>

definition group_addresses :: "mail_address list option \<Rightarrow> string list" where
  "group_addresses g = (case g of None \<Rightarrow> [] | Some as \<Rightarrow> List.map_filter address as)"

definition add_cc :: "string \<Rightarrow> string \<Rightarrow> string \<Rightarrow> string list \<Rightarrow> string list" where
  "add_cc own sender s cc = (if s \<noteq> own \<and> s \<noteq> sender \<and> s \<notin> set cc then cc @ [s] else cc)"

definition reply_all_cc :: "string \<Rightarrow> string \<Rightarrow> mail_view \<Rightarrow> string list" where
  "reply_all_cc own sender m =
     fold (add_cc own sender) (group_addresses (mv_to m) @ group_addresses (mv_cc m)) []"

definition quoted_body :: "identity \<Rightarrow> mail_view \<Rightarrow> string" where
  "quoted_body i m =
     (let attribution = format_attribution m
      in (if attribution \<noteq> [] then attribution @ [CHR 0x0A, CHR 0x0A] else []) @
         concat (map (\<lambda>l. ''> '' @ l @ [CHR 0x0A]) (lines (or_empty (mv_body_text m)))) @
         (case signature_block i of Some s \<Rightarrow> CHR 0x0A # s | None \<Rightarrow> []))"

definition new_reply ::
  "(string \<Rightarrow> mail_view option) \<Rightarrow> widgets \<Rightarrow> identity \<Rightarrow> string \<Rightarrow> bool \<Rightarrow> composer_error + composer" where
  "new_reply parse_mail w i msg reply_all =
     (case parse_mail msg of
        None \<Rightarrow> Inl Parse_Failed
      | Some m \<Rightarrow>
          (let sender = or_empty (first_address (mv_from m));
               refs0 = (case mv_references m of Some rs \<Rightarrow> rs | None \<Rightarrow> []);
               c0 = (new_blank w i)\<lparr>irt := mv_message_id m,
                      reference_ids := refs0 @ (case mv_message_id m of Some x \<Rightarrow> [x] | None \<Rightarrow> [])\<rparr>;
               c1 = set_header_text w 1 sender
                      (set_header_text w 0 (prefix_subject (or_empty (mv_subject m)) ''Re: '') c0);
               c2 = (if reply_all then set_header_text w 2 (join '', '' (reply_all_cc (email i) sender m)) c1 else c1)
           in Inr ((set_body w (quoted_body i m) c2)\<lparr>focus := Body\<rparr>)))"

definition maybe_enable_autocrypt ::
  "(string \<Rightarrow> mail_view option) \<Rightarrow> codec \<Rightarrow> pubkey_lookup option \<Rightarrow> string \<Rightarrow> composer \<Rightarrow> composer" where
  "maybe_enable_autocrypt parse_mail cd lookup msg c =
     (case (lookup, parse_mail msg) of
        (Some lk, Some m) \<Rightarrow>
          (let sender = or_empty (first_address (mv_from m));
               peer_mutual = (case Option.bind (header_of m ''Autocrypt'') as_text of
                                None \<Rightarrow> False
                              | Some t \<Rightarrow> (case parse_autocrypt_header cd t of
                                             Inl _ \<Rightarrow> False | Inr h \<Rightarrow> ac_prefer_encrypt h = Mutual))
           in if sender = [] then c
              else case lk sender of
                Inr (Some _) \<Rightarrow>
                  if peer_mutual \<and> \<not> prefer_encrypt_mutual c then c
                  else c\<lparr>pgp := \<lparr>pgp_sign = True, pgp_encrypt = True\<rparr>\<rparr>
              | _ \<Rightarrow> c)
      | _ \<Rightarrow> c)"

definition new_reply_with_pgp_lookup ::
  "(string \<Rightarrow> mail_view option) \<Rightarrow> widgets \<Rightarrow> codec \<Rightarrow> pubkey_lookup option \<Rightarrow>
   identity \<Rightarrow> string \<Rightarrow> bool \<Rightarrow> composer_error + composer" where
  "new_reply_with_pgp_lookup parse_mail w cd lookup i msg reply_all =
     and_then (new_reply parse_mail w i msg reply_all)
       (\<lambda>c. Inr (maybe_enable_autocrypt parse_mail cd lookup msg c))"

definition line_feed :: string where
  "line_feed = [CHR 0x0A]"

definition forward_body :: "identity \<Rightarrow> mail_view \<Rightarrow> string" where
  "forward_body i m =
     (case signature_block i of Some s \<Rightarrow> s @ line_feed @ line_feed | None \<Rightarrow> []) @
     ''---------- Forwarded message ----------'' @ line_feed @
     ''From: '' @ or_empty (first_address (mv_from m)) @ line_feed @
     (if or_empty (mv_date m) = [] then [] else ''Date: '' @ or_empty (mv_date m) @ line_feed) @
     ''Subject: '' @ or_empty (mv_subject m) @ line_feed @ line_feed @
     or_empty (mv_body_text m)"

definition new_forward ::
  "(string \<Rightarrow> mail_view option) \<Rightarrow> widgets \<Rightarrow> identity \<Rightarrow> string \<Rightarrow> composer_error + composer" where
  "new_forward parse_mail w i msg =
     (case parse_mail msg of
        None \<Rightarrow> Inl Parse_Failed
      | Some m \<Rightarrow> Inr ((set_body w (forward_body i m)
          (set_header_text w 0 (prefix_subject (or_empty (mv_subject m)) ''Fwd: '') (new_blank w i)))
            \<lparr>focus := To\<rparr>))"

section \<open>Writing\<close>

definition parse_address :: "string \<Rightarrow> string \<times> string" where
  "parse_address piece =
     (case (rfind_idx (\<lambda>c. c = CHR ''<'') piece, rfind_idx (\<lambda>c. c = CHR ''>'') piece) of
        (Some op, Some cl) \<Rightarrow>
          if op < cl
          then (trim_matches (\<lambda>c. c = CHR 0x22) (trim (take op piece)), trim (take (cl - op - 1) (drop (op + 1) piece)))
          else ([], piece)
      | _ \<Rightarrow> ([], piece))"

definition parse_addresses :: "string \<Rightarrow> (string \<times> string) list" where
  "parse_addresses s = map parse_address (filter (\<lambda>p. p \<noteq> []) (map trim (split_on (CHR '','') s)))"

definition bracketed :: "string \<Rightarrow> string" where
  "bracketed s = ''<'' @ s @ ''>''"

definition to_draft :: "composer \<Rightarrow> string" where
  "to_draft c =
     (let line = (\<lambda>n v. n @ '': '' @ v @ line_feed);
          optional = (\<lambda>n v. if v = [] then [] else line n v);
          sender = (case id_name (ident c) of
                      Some n \<Rightarrow> if n \<noteq> [] then n @ '' '' @ bracketed (email (ident c)) else email (ident c)
                    | None \<Rightarrow> email (ident c));
          out = line ''From'' sender @ line ''To'' (header_text 1 c) @
                optional ''Cc'' (header_text 2 c) @ optional ''Bcc'' (header_text 3 c) @
                line ''Subject'' (header_text 0 c) @
                (case irt c of Some x \<Rightarrow> line ''In-Reply-To'' (bracketed x) | None \<Rightarrow> []) @
                (if reference_ids c = [] then []
                 else line ''References'' (join '' '' (map bracketed (reference_ids c)))) @
                line_feed @ body_text c
      in if out \<noteq> [] \<and> last out = CHR 0x0A then out else out @ line_feed)"

text \<open>What the MIME writer is given.\<close>

record built_message =
  bm_from :: "string \<times> string"
  bm_to :: "(string \<times> string) list"
  bm_subject :: string
  bm_text :: string
  bm_cc :: "(string \<times> string) list"
  bm_bcc :: "(string \<times> string) list"
  bm_in_reply_to :: "string option"
  bm_references :: "string list"
  bm_attachments :: "attachment list"
  bm_autocrypt :: "string option"

definition autocrypt_value :: "codec \<Rightarrow> composer \<Rightarrow> string option" where
  "autocrypt_value cd c =
     (case autocrypt_pubkey c of
        None \<Rightarrow> None
      | Some (addr, armored) \<Rightarrow>
          (case autocrypt_header_value cd addr armored (prefer_encrypt_mutual c) of
             Inl _ \<Rightarrow> None | Inr v \<Rightarrow> Some v))"

definition to_mime :: "(built_message \<Rightarrow> string option) \<Rightarrow> codec \<Rightarrow> composer \<Rightarrow> composer_error + string" where
  "to_mime write cd c =
     (let to = parse_addresses (header_text 1 c)
      in if to = [] then Inl (Missing ''To'')
         else case write
                \<lparr>bm_from = (or_empty (id_name (ident c)), email (ident c)), bm_to = to,
                 bm_subject = header_text 0 c, bm_text = body_text c,
                 bm_cc = parse_addresses (header_text 2 c), bm_bcc = parse_addresses (header_text 3 c),
                 bm_in_reply_to = irt c, bm_references = reference_ids c,
                 bm_attachments = attachments c, bm_autocrypt = autocrypt_value cd c\<rparr> of
           None \<Rightarrow> Inl (Missing ''write'')
         | Some bytes \<Rightarrow> Inr bytes)"

definition mailbox :: "string \<times> string \<Rightarrow> string" where
  "mailbox = (\<lambda>(n, a). if n = [] then a else n @ '' '' @ bracketed a)"

definition composer_headers :: "codec \<Rightarrow> composer \<Rightarrow> outer_headers" where
  "composer_headers cd c =
     \<lparr>oh_from = mailbox (or_empty (id_name (ident c)), email (ident c)),
      oh_to = map mailbox (parse_addresses (header_text 1 c)),
      oh_cc = map mailbox (parse_addresses (header_text 2 c)),
      oh_bcc = map mailbox (parse_addresses (header_text 3 c)),
      oh_subject = header_text 0 c, oh_message_id = None, oh_in_reply_to = irt c,
      oh_references = reference_ids c, oh_date = None, oh_autocrypt = autocrypt_value cd c\<rparr>"

definition pgp_result :: "string + string \<Rightarrow> composer_error + string" where
  "pgp_result r = (case r of Inl e \<Rightarrow> Inl (Pgp_Failed e) | Inr x \<Rightarrow> Inr x)"

definition signer_or_missing :: "string option \<Rightarrow> composer_error + string" where
  "signer_or_missing k =
     (case k of None \<Rightarrow> Inl (Missing ''signer_key required when pgp.sign is set'') | Some x \<Rightarrow> Inr x)"

definition to_mime_with_pgp ::
  "(built_message \<Rightarrow> string option) \<Rightarrow> codec \<Rightarrow> key_source option \<Rightarrow> nat \<times> nat \<Rightarrow> string option \<Rightarrow>
   string list \<Rightarrow> composer \<Rightarrow> composer_error + string" where
  "to_mime_with_pgp write cd source ts signer_key recipients c =
     (if \<not> pgp_sign (pgp c) \<and> \<not> pgp_encrypt (pgp c) then to_mime write cd c
      else case source of
        None \<Rightarrow> Inl (Missing ''pgp key source required when sign/encrypt is set'')
      | Some src \<Rightarrow>
          and_then (to_mime write cd c) (\<lambda>inner.
            if pgp_encrypt (pgp c)
            then and_then (if pgp_sign (pgp c) then and_then (signer_or_missing signer_key) (\<lambda>k. Inr (Some k)) else Inr None)
                   (\<lambda>signer. pgp_result (encrypt_pgp_mime cd src ts signer recipients inner (composer_headers cd c)))
            else and_then (signer_or_missing signer_key)
                   (\<lambda>k. pgp_result (sign_pgp_mime src (fst ts) k inner (composer_headers cd c)))))"

end
