(* ===== verification/Templates.thy ===== *)
theory Templates
  imports Composer "HOL-Library.AList"
begin

text \<open>
  Templates (crates/inbx-composer/src/templates.rs): messages kept as files
  \<^verbatim>\<open><name>.eml\<close> of one directory per account. The directory is the list of its files, or
  \<open>None\<close> while it does not exist. It refines a map from names to messages.
\<close>

datatype template_error = Unparsable | Not_Found string | Invalid_Name string

type_synonym directory = "(string \<times> string) list option"

definition files :: "directory \<Rightarrow> (string \<times> string) list" where
  "files d = (case d of None \<Rightarrow> [] | Some fs \<Rightarrow> fs)"

definition valid_name :: "string \<Rightarrow> bool" where
  "valid_name n \<longleftrightarrow>
     n \<noteq> [] \<and> list_all (\<lambda>c. is_ascii_alphanumeric c \<or> c = CHR ''.'' \<or> c = CHR ''_'' \<or> c = CHR ''-'') n"

definition validate_name :: "string \<Rightarrow> template_error + unit" where
  "validate_name n = (if valid_name n then Inr () else Inl (Invalid_Name n))"

definition file_of :: "string \<Rightarrow> string" where
  "file_of n = n @ ''.eml''"

definition save :: "string \<Rightarrow> string \<Rightarrow> directory \<Rightarrow> template_error + directory" where
  "save n msg d = and_then (validate_name n) (\<lambda>_. Inr (Some (AList.update (file_of n) msg (files d))))"

definition remove :: "string \<Rightarrow> directory \<Rightarrow> template_error + directory" where
  "remove n d =
     and_then (validate_name n) (\<lambda>_.
       if map_of (files d) (file_of n) = None then Inl (Not_Found n)
       else Inr (Some (AList.delete (file_of n) (files d))))"

definition load_raw :: "string \<Rightarrow> directory \<Rightarrow> template_error + string" where
  "load_raw n d =
     and_then (validate_name n) (\<lambda>_.
       case map_of (files d) (file_of n) of None \<Rightarrow> Inl (Not_Found n) | Some msg \<Rightarrow> Inr msg)"

definition template_stem :: "string \<Rightarrow> string option" where
  "template_stem f =
     (let (stem, ext) = split_extension f
      in if utf8 stem \<and> (case ext of Some e \<Rightarrow> utf8 e \<and> eq_ignore_ascii_case e ''eml'' | None \<Rightarrow> False)
         then Some stem else None)"

definition list_names :: "directory \<Rightarrow> string list" where
  "list_names d = sort (List.map_filter (\<lambda>(f, _). template_stem f) (files d))"

text \<open>A group of addresses of the template goes into its field, unless it has none.\<close>

definition fill_group :: "widgets \<Rightarrow> nat \<Rightarrow> mail_address list option \<Rightarrow> composer \<Rightarrow> composer" where
  "fill_group w i g c =
     (let joined = join '', '' (group_addresses g)
      in if joined = [] then c else set_header_text w i joined c)"

definition from_template ::
  "(string \<Rightarrow> mail_view option) \<Rightarrow> widgets \<Rightarrow> identity \<Rightarrow> string \<Rightarrow> directory \<Rightarrow> template_error + composer" where
  "from_template parse_mail w i n d =
     and_then (load_raw n d) (\<lambda>msg.
       case parse_mail msg of
         None \<Rightarrow> Inl Unparsable
       | Some m \<Rightarrow>
           (let c0 = new_blank w i;
                c1 = (case mv_subject m of Some s \<Rightarrow> set_header_text w 0 s c0 | None \<Rightarrow> c0);
                c2 = fill_group w 3 (mv_bcc m) (fill_group w 2 (mv_cc m) (fill_group w 1 (mv_to m) c1));
                c3 = (case mv_body_text m of
                        None \<Rightarrow> c2
                      | Some t \<Rightarrow> set_body w
                          (case signature_block i of
                             Some s \<Rightarrow> if contains t ''-- '' then t else t @ line_feed @ s
                           | None \<Rightarrow> t) c2)
            in Inr (c3\<lparr>focus := To\<rparr>)))"

section \<open>A store of named messages\<close>

text \<open>What the callers rely on: a store behaves as a map from valid names to messages.\<close>

locale named_store =
  fixes valid :: "'n \<Rightarrow> bool"
    and abs :: "'d \<Rightarrow> 'n \<rightharpoonup> 'm"
    and put :: "'n \<Rightarrow> 'm \<Rightarrow> 'd \<Rightarrow> 'e + 'd"
    and drop_name :: "'n \<Rightarrow> 'd \<Rightarrow> 'e + 'd"
    and get :: "'n \<Rightarrow> 'd \<Rightarrow> 'e + 'm"
  assumes put_refines: "put n x d = Inr d' \<Longrightarrow> abs d' = (abs d)(n \<mapsto> x)"
    and put_valid: "(\<exists>d'. put n x d = Inr d') \<longleftrightarrow> valid n"
    and drop_refines: "drop_name n d = Inr d' \<Longrightarrow> abs d' = (abs d)(n := None)"
    and drop_known: "(\<exists>d'. drop_name n d = Inr d') \<longleftrightarrow> n \<in> dom (abs d)"
    and get_refines: "get n d = Inr x \<longleftrightarrow> abs d n = Some x"
begin

lemma get_put: "put n x d = Inr d' \<Longrightarrow> get n d' = Inr x"
  using put_refines get_refines by simp

lemma get_put_other: "put n x d = Inr d' \<Longrightarrow> k \<noteq> n \<Longrightarrow> get k d' = Inr y \<longleftrightarrow> get k d = Inr y"
  using put_refines get_refines by simp

lemma get_drop: "drop_name n d = Inr d' \<Longrightarrow> get n d' \<noteq> Inr y"
  using drop_refines get_refines by simp

lemma put_drop: "put n x d = Inr d' \<Longrightarrow> \<exists>d''. drop_name n d' = Inr d'' \<and> abs d'' = (abs d)(n := None)"
proof -
  assume p: "put n x d = Inr d'"
  then have "n \<in> dom (abs d')" using put_refines by auto
  then obtain d'' where "drop_name n d' = Inr d''" using drop_known by blast
  with p show ?thesis using put_refines drop_refines by fastforce
qed

end

text \<open>The map a directory stands for.\<close>

definition templates :: "directory \<Rightarrow> string \<rightharpoonup> string" where
  "templates d n = (if valid_name n then map_of (files d) (file_of n) else None)"

lemma file_of_inj [simp]: "file_of a = file_of b \<longleftrightarrow> a = b"
  by (simp add: file_of_def)

lemma files_Some [simp]: "files (Some fs) = fs"
  by (simp add: files_def)

interpretation ts: named_store valid_name templates save remove load_raw
proof
  fix n x d d'
  show "save n x d = Inr d' \<Longrightarrow> templates d' = (templates d)(n \<mapsto> x)"
    by (auto simp: save_def validate_name_def templates_def update_conv' fun_eq_iff split: if_splits)
  show "(\<exists>d'. save n x d = Inr d') \<longleftrightarrow> valid_name n"
    by (simp add: save_def validate_name_def)
  show "remove n d = Inr d' \<Longrightarrow> templates d' = (templates d)(n := None)"
    by (auto simp: remove_def validate_name_def templates_def delete_conv' fun_eq_iff split: if_splits)
  show "(\<exists>d'. remove n d = Inr d') \<longleftrightarrow> n \<in> dom (templates d)"
    by (auto simp: remove_def validate_name_def templates_def split: if_splits)
  show "load_raw n d = Inr x \<longleftrightarrow> templates d n = Some x"
    by (auto simp: load_raw_def validate_name_def templates_def split: option.splits)
qed

lemma templates_load: "templates d n = (case load_raw n d of Inr x \<Rightarrow> Some x | Inl _ \<Rightarrow> None)"
  by (simp add: load_raw_def validate_name_def templates_def split: option.split)

section \<open>Listing\<close>

text \<open>A directory that only this code has written to.\<close>

definition own_directory :: "directory \<Rightarrow> bool" where
  "own_directory d \<longleftrightarrow> distinct (map fst (files d)) \<and> (\<forall>f \<in> fst ` set (files d). \<exists>n. valid_name n \<and> f = file_of n)"

lemma own_save:
  assumes "own_directory d" "save n x d = Inr d'"
  shows "own_directory d'"
proof -
  have "valid_name n" "files d' = AList.update (file_of n) x (files d)"
    using assms(2) by (auto simp: save_def validate_name_def split: if_splits)
  with assms(1) show ?thesis unfolding own_directory_def by (auto simp: dom_update distinct_update simp del: image_iff)
qed

lemma own_remove:
  assumes "own_directory d" "remove n d = Inr d'"
  shows "own_directory d'"
proof -
  have "files d' = AList.delete (file_of n) (files d)"
    using assms(2) by (auto simp: remove_def validate_name_def split: if_splits)
  then show ?thesis
    using assms(1) dom_delete_subset [of "file_of n" "files d"] distinct_delete [of "files d" "file_of n"]
    unfolding own_directory_def by (metis subsetD)
qed

lemma stem_file_of:
  assumes "valid_name n"
  shows "template_stem (file_of n) = Some n"
proof -
  have "file_of n \<noteq> ''..''" using arg_cong [of "file_of n" "''..''" last] by (auto simp: file_of_def)
  moreover have "rsplit_once (CHR ''.'') (n @ CHR ''.'' # ''eml'') = Some (n, ''eml'')"
    by (rule rsplit_once_append) simp
  moreover have "utf8 ''eml''" by (rule utf8_ascii) (simp add: byte_def)
  moreover have "utf8 n"
    using assms by (intro utf8_ascii) (auto simp: valid_name_def list_all_iff is_ascii_alphanumeric_def
      is_ascii_alphabetic_def is_ascii_lower_def is_ascii_upper_def is_ascii_digit_def byte_def)
  ultimately show ?thesis
    using assms by (simp add: template_stem_def split_extension_def file_of_def valid_name_def)
qed

lemma own_names:
  assumes "own_directory d"
  obtains ns where "map fst (files d) = map file_of ns" "\<forall>n \<in> set ns. valid_name n" "distinct ns"
    "list_names d = sort ns"
proof -
  have ex: "\<exists>ns. fs = map file_of ns \<and> (\<forall>n \<in> set ns. valid_name n)"
    if "\<forall>f \<in> set fs. \<exists>n. valid_name n \<and> f = file_of n" for fs
    using that
  proof (induction fs)
    case (Cons f fs)
    then obtain n ns where "valid_name n" "f = file_of n" "fs = map file_of ns" "\<forall>n \<in> set ns. valid_name n"
      by auto
    then show ?case by (intro exI [of _ "n # ns"]) simp
  qed simp
  have "\<forall>f \<in> set (map fst (files d)). \<exists>n. valid_name n \<and> f = file_of n"
    using assms by (simp add: own_directory_def)
  from ex [OF this] obtain ns where ns: "map fst (files d) = map file_of ns" "\<forall>n \<in> set ns. valid_name n"
    by blast
  moreover have "distinct (map file_of ns)" using assms by (simp add: own_directory_def ns(1))
  then have "distinct ns" by (simp add: distinct_map)
  moreover have "List.map_filter (\<lambda>(f, _). template_stem f) fs = List.map_filter template_stem (map fst fs)" for fs :: "(string \<times> string) list"
    by (induction fs) (auto simp: List.map_filter_def)
  then have "List.map_filter (\<lambda>(f, _). template_stem f) (files d) = List.map_filter template_stem (map file_of ns)"
    by (simp only: ns(1))
  moreover have "List.map_filter template_stem (map file_of ns) = ns"
    using ns(2) by (induction ns) (simp_all add: List.map_filter_def stem_file_of)
  ultimately show ?thesis using that by (simp add: list_names_def)
qed

text \<open>
  C32. Templates are a map from names to messages: on a directory the program wrote itself,
  saving stores exactly that name, removing forgets exactly that name, loading reads it, and
  the listing is the sorted list of all names, each once. Names that are not plain are
  refused, so no file outside the directory is touched.
\<close>

theorem templates_refine_map:
  assumes "own_directory d"
  shows "(\<forall>x. case save n x d of
        Inr d' \<Rightarrow> valid_name n \<and> own_directory d' \<and> templates d' = (templates d)(n \<mapsto> x)
      | Inl e \<Rightarrow> \<not> valid_name n \<and> e = Invalid_Name n) \<and>
    (case remove n d of
        Inr d' \<Rightarrow> own_directory d' \<and> templates d' = (templates d)(n := None) | Inl e \<Rightarrow> templates d n = None) \<and>
    (case load_raw n d of Inr x \<Rightarrow> templates d n = Some x | Inl e \<Rightarrow> templates d n = None) \<and>
    set (list_names d) = dom (templates d) \<and> sorted (list_names d) \<and> distinct (list_names d)"
proof (intro conjI allI)
  show "case save n x d of Inr d' \<Rightarrow> valid_name n \<and> own_directory d' \<and> templates d' = (templates d)(n \<mapsto> x)
      | Inl e \<Rightarrow> \<not> valid_name n \<and> e = Invalid_Name n" for x
    using own_save [OF assms, of n x] ts.put_refines [of n x d] ts.put_valid [of n x d]
    by (auto simp: save_def validate_name_def split: sum.splits if_splits)
  show "case remove n d of Inr d' \<Rightarrow> own_directory d' \<and> templates d' = (templates d)(n := None)
      | Inl e \<Rightarrow> templates d n = None"
    using own_remove [OF assms, of n] ts.drop_refines [of n d] ts.drop_known [of n d]
    by (auto split: sum.splits)
  show "case load_raw n d of Inr x \<Rightarrow> templates d n = Some x | Inl e \<Rightarrow> templates d n = None"
    by (simp add: templates_load split: sum.split)
  obtain ns where ns: "map fst (files d) = map file_of ns" "\<forall>n \<in> set ns. valid_name n" "distinct ns"
    "list_names d = sort ns"
    using own_names [OF assms] by blast
  then show "sorted (list_names d)" "distinct (list_names d)" by simp_all
  have "templates d k \<noteq> None \<longleftrightarrow> k \<in> set ns" for k
  proof -
    have "templates d k \<noteq> None \<longleftrightarrow> valid_name k \<and> file_of k \<in> set (map fst (files d))"
      using map_of_eq_None_iff [of "files d" "file_of k"]
      by (cases "map_of (files d) (file_of k)") (simp_all add: templates_def)
    also have "\<dots> \<longleftrightarrow> k \<in> set ns" using ns(2) by (auto simp: ns(1))
    finally show ?thesis .
  qed
  with ns(4) show "set (list_names d) = dom (templates d)" by auto
qed

theorem templates_refine_map_witness:
  "templates (Some (AList.update ''a.eml'' ''new'' [(''b.eml'', ''old'')])) = (templates (Some [(''b.eml'', ''old'')]))(''a'' \<mapsto> ''new'') \<and>
   set (list_names (Some [(''b.eml'', ''old'')])) = dom (templates (Some [(''b.eml'', ''old'')]))"
proof -
  have v: "valid_name ''b''" "valid_name ''a''" by code_simp+
  have own: "own_directory (Some [(''b.eml'', ''old'')])"
    using v(1) by (auto simp: own_directory_def file_of_def intro: exI [of _ "''b''"])
  have "save ''a'' ''new'' (Some [(''b.eml'', ''old'')]) = Inr (Some (AList.update ''a.eml'' ''new'' [(''b.eml'', ''old'')]))"
    using v(2) by (simp add: save_def validate_name_def file_of_def)
  then show ?thesis
    using templates_refine_map [OF own, of "''a''"] by (auto dest!: spec [of _ "''new''"])
qed

end
