(* ===== verification/Composer_Props.thy ===== *)
theory Composer_Props
  imports Templates Pgp_Decrypt
begin

text \<open>
  Properties of the composer: where keystrokes go, who a reply is addressed to, and what
  leaves the program when encryption is asked for.
\<close>

section \<open>Composers that can arise\<close>

text \<open>
  A composer starts blank, as a reply, as a forward or from a template, and is then edited:
  the focus moves, the focused editor changes its text, files are attached, flags are set.
\<close>

inductive composing ::
  "(string \<Rightarrow> mail_view option) \<Rightarrow> widgets \<Rightarrow> codec \<Rightarrow> composer \<Rightarrow> bool"
  for parse_mail w cd where
  blank: "composing parse_mail w cd (new_blank w i)"
| reply: "new_reply_with_pgp_lookup parse_mail w cd lookup i msg all = Inr c \<Longrightarrow> composing parse_mail w cd c"
| forward: "new_forward parse_mail w i msg = Inr c \<Longrightarrow> composing parse_mail w cd c"
| template: "from_template parse_mail w i n d = Inr c \<Longrightarrow> composing parse_mail w cd c"
| focus_forth: "composing parse_mail w cd c \<Longrightarrow> composing parse_mail w cd (focus_next c)"
| focus_back: "composing parse_mail w cd c \<Longrightarrow> composing parse_mail w cd (focus_prev c)"
| type_header: "composing parse_mail w cd c \<Longrightarrow> focused_editor c = Some k \<Longrightarrow>
    composing parse_mail w cd (c\<lparr>header_fields := (header_fields c)[k := t]\<rparr>)"
| type_body: "composing parse_mail w cd c \<Longrightarrow> focused_editor c = None \<Longrightarrow> composing parse_mail w cd (c\<lparr>body := t\<rparr>)"
| attach: "composing parse_mail w cd c \<Longrightarrow> attach_path content f c = Inr c' \<Longrightarrow> composing parse_mail w cd c'"
| paste: "composing parse_mail w cd c \<Longrightarrow> attach_from_clipboard clip now c = Inr c' \<Longrightarrow> composing parse_mail w cd c'"
| flags: "composing parse_mail w cd c \<Longrightarrow> composing parse_mail w cd (c\<lparr>pgp := p\<rparr>)"
| key: "composing parse_mail w cd c \<Longrightarrow> composing parse_mail w cd (set_autocrypt_pubkey a armored c)"

definition focus_ok :: "composer \<Rightarrow> bool" where
  "focus_ok c \<longleftrightarrow> length (header_fields c) = 4 \<and>
     (field_to_header_idx (focus c) = None \<or> field_to_header_idx (focus c) = Some (form_focus c))"

lemma header_idx_bound: "field_to_header_idx f = Some k \<Longrightarrow> k < 4"
  by (cases f) auto

lemma blank_ok: "focus_ok (new_blank w i)"
  by (simp add: focus_ok_def new_blank_def)

lemma set_ok [simp]:
  "focus_ok (set_header_text w k t c) = focus_ok c" "focus_ok (set_body w t c) = focus_ok c"
  "form_focus (set_header_text w k t c) = form_focus c" "form_focus (set_body w t c) = form_focus c"
  "length (header_fields (set_header_text w k t c)) = length (header_fields c)"
  "header_fields (set_body w t c) = header_fields c"
  "focus (set_header_text w k t c) = focus c" "focus (set_body w t c) = focus c"
  by (simp_all add: focus_ok_def set_header_text_def set_body_def)

lemma fill_group_ok [simp]:
  "form_focus (fill_group w k g c) = form_focus c"
  "length (header_fields (fill_group w k g c)) = length (header_fields c)"
  by (simp_all add: fill_group_def Let_def)

lemma blank_simps [simp]:
  "form_focus (new_blank w i) = 1" "length (header_fields (new_blank w i)) = 4" "focus (new_blank w i) = To"
  by (simp_all add: new_blank_def)

lemma reply_ok: "new_reply parse_mail w i msg all = Inr c \<Longrightarrow> focus_ok c"
  by (auto simp: new_reply_def Let_def focus_ok_def split: option.splits if_splits)

lemma autocrypt_flags:
  "focus_ok (maybe_enable_autocrypt parse_mail cd lookup msg c) = focus_ok c"
  by (simp add: maybe_enable_autocrypt_def focus_ok_def Let_def split: option.split sum.split)

lemma optional_set [simp]:
  "form_focus (case x of None \<Rightarrow> c | Some s \<Rightarrow> set_header_text w k s c) = form_focus c"
  "length (header_fields (case x of None \<Rightarrow> c | Some s \<Rightarrow> set_header_text w k s c)) = length (header_fields c)"
  "form_focus (case x of None \<Rightarrow> c | Some s \<Rightarrow> set_body w (f s) c) = form_focus c"
  "header_fields (case x of None \<Rightarrow> c | Some s \<Rightarrow> set_body w (f s) c) = header_fields c"
  by (simp_all split: option.split)

lemma template_ok:
  assumes "from_template parse_mail w i n d = Inr c"
  shows "focus_ok c"
proof -
  obtain msg m where "load_raw n d = Inr msg" "parse_mail msg = Some m"
    using assms by (auto simp: from_template_def and_then_Inr split: option.splits)
  with assms have "form_focus c = 1 \<and> length (header_fields c) = 4 \<and> focus c = To"
    by (auto simp: from_template_def Let_def)
  then show ?thesis by (simp add: focus_ok_def)
qed

lemma sync_ok:
  "length (header_fields c) = 4 \<Longrightarrow> focus_ok (sync_form_focus c)"
  by (auto simp: focus_ok_def sync_form_focus_def split: option.split)

lemma composing_focus_ok: "composing parse_mail w cd c \<Longrightarrow> focus_ok c"
proof (induction rule: composing.induct)
  case (reply lookup i msg all c)
  then show ?case using autocrypt_flags reply_ok by (auto simp: new_reply_with_pgp_lookup_def and_then_Inr)
next
  case (forward i msg c)
  then show ?case by (auto simp: new_forward_def focus_ok_def split: option.splits)
next
  case (template i n d c)
  then show ?case by (rule template_ok)
next
  case (focus_forth c)
  then show ?case by (auto simp: focus_next_def focus_ok_def intro!: sync_ok [unfolded focus_ok_def])
next
  case (focus_back c)
  then show ?case by (auto simp: focus_prev_def focus_ok_def intro!: sync_ok [unfolded focus_ok_def])
next
  case (attach c content f c')
  then show ?case by (auto simp: attach_path_def focus_ok_def Let_def split: option.splits)
next
  case (paste c clip now c')
  then show ?case
    by (auto simp: attach_from_clipboard_def focus_ok_def Let_def split: option.splits if_splits prod.splits)
qed (simp_all add: blank_ok focus_ok_def set_autocrypt_pubkey_def)

text \<open>
  Keystrokes go where the focus is shown: in every composer that can arise, whatever was
  typed, attached or moved, the four header fields exist, the form's focus is the field in
  focus whenever that is a header field, and the editor that receives input is that field,
  or the body when the body is in focus.
\<close>

theorem focus_is_shown:
  assumes "composing parse_mail w cd c"
  shows "length (header_fields c) = 4 \<and> focused_editor c = field_to_header_idx (focus c) \<and>
    (focus c = Body \<or> field_to_header_idx (focus c) = Some (form_focus c))"
  using composing_focus_ok [OF assms] header_idx_bound [of "focus c"]
  by (cases "focus c") (simp_all add: focus_ok_def focused_editor_def)

definition plain_widgets :: widgets where
  "plain_widgets = \<lparr>put_text = id, put_content = id, fresh_text = [], fresh_content = []\<rparr>"

definition demo_identity :: identity where
  "demo_identity = \<lparr>email = ''me@x.org'', id_name = None, signature = Some ''bye''\<rparr>"

theorem focus_is_shown_witness:
  "focused_editor (focus_next (focus_next (new_blank plain_widgets demo_identity))) = Some 3"
proof -
  let ?c = "focus_next (focus_next (new_blank plain_widgets demo_identity))"
  have "composing (\<lambda>_. None) plain_widgets cd ?c" for cd by (intro composing.intros)
  from focus_is_shown [OF this] have "focused_editor ?c = field_to_header_idx (focus ?c)" by blast
  also have "\<dots> = Some 3" by code_simp
  finally show ?thesis .
qed

section \<open>Recipients of a reply\<close>

text \<open>An address that stands for itself in an address field.\<close>

definition bare_address :: "string \<Rightarrow> bool" where
  "bare_address a \<longleftrightarrow> a \<noteq> [] \<and> trimmed a \<and> CHR '','' \<notin> set a \<and> CHR ''<'' \<notin> set a \<and> CHR 0x0A \<notin> set a"

lemma parse_bare:
  assumes "bare_address a"
  shows "parse_address a = ([], a)"
proof -
  have "rfind_idx (\<lambda>c. c = CHR ''<'') a = None"
    using assms by (auto simp: bare_address_def rfind_idx_None)
  then show ?thesis by (simp add: parse_address_def)
qed

lemma trim_blank': "trim (CHR '' '' # s) = trim s"
  by (simp add: trim_def trim_start_def ws_at_space)

lemma parse_joined:
  assumes "\<forall>a \<in> set as. bare_address a"
  shows "parse_addresses (join '', '' as) = map (\<lambda>a. ([], a)) as"
proof -
  have "map trim (split_on (CHR '','') (join '', '' as)) = (if as = [] then [[]] else as)"
    using assms
  proof (induction as)
    case (Cons a as)
    then have a: "trim a = a" "CHR '','' \<notin> set a" by (simp_all add: bare_address_def trim_id)
    show ?case
    proof (cases as)
      case Nil
      with a show ?thesis by (simp add: split_on_free)
    next
      case [simp]: (Cons b bs)
      have "split_on (CHR '','') (CHR '' '' # join '', '' (b # bs)) =
          (CHR '' '' # hd (split_on (CHR '','') (join '', '' (b # bs)))) # tl (split_on (CHR '','') (join '', '' (b # bs)))"
        by (cases "split_on (CHR '','') (join '', '' (b # bs))") simp_all
      then have "map trim (split_on (CHR '','') (CHR '' '' # join '', '' (b # bs))) =
          map trim (split_on (CHR '','') (join '', '' (b # bs)))"
        by (cases "split_on (CHR '','') (join '', '' (b # bs))") (simp_all add: trim_blank')
      then show ?thesis
        using Cons.IH Cons.prems a split_on_append [OF a(2), of "CHR '' '' # join '', '' (b # bs)"] by simp
    qed
  qed simp
  then have "parse_addresses (join '', '' as) = map parse_address as"
    using assms by (cases "as = []") (simp_all add: parse_addresses_def filter_id_conv bare_address_def)
  with assms parse_bare show ?thesis by simp
qed

lemma reply_all_cc_set:
  "set (fold (add_cc own sender) as cc) = set cc \<union> (set as - {own, sender})"
  by (induction as arbitrary: cc) (auto simp: add_cc_def)

lemma reply_all_cc_distinct: "distinct cc \<Longrightarrow> distinct (fold (add_cc own sender) as cc)"
  by (induction as arbitrary: cc) (simp_all add: add_cc_def)

lemma header_text_put:
  assumes "k < 4" "length (header_fields c) = 4" "put_text w t = t" "CHR 0x0A \<notin> set t"
  shows "header_text k (set_header_text w k t c) = t"
proof -
  have "t = [] \<or> last t \<noteq> CHR 0x0A" using assms(4) by (cases t rule: rev_cases) auto
  then have "trim_end_matches (\<lambda>x. x = CHR 0x0A) t = t" by (rule trim_end_matches_id)
  with assms show ?thesis by (simp add: header_text_def set_header_text_def)
qed

lemma header_text_other [simp]:
  "k \<noteq> j \<Longrightarrow> header_text k (set_header_text w j t c) = header_text k c"
  "header_text k (set_body w t c) = header_text k c"
  "header_text k (c\<lparr>focus := f\<rparr>) = header_text k c"
  by (simp_all add: header_text_def set_header_text_def set_body_def)

lemma join_free: "CHR 0x0A \<notin> set sep \<Longrightarrow> \<forall>a \<in> set as. CHR 0x0A \<notin> set a \<Longrightarrow> CHR 0x0A \<notin> set (join sep as)"
proof (induction as)
  case (Cons a as)
  then show ?case by (cases "as = []") (simp_all add: join_Cons)
qed simp

text \<open>The fields of a reply to all.\<close>

lemma reply_fields:
  assumes "new_reply parse_mail w i msg True = Inr c" "parse_mail msg = Some m"
    and "\<forall>t. CHR 0x0A \<notin> set t \<longrightarrow> put_text w t = t"
    and "CHR 0x0A \<notin> set (or_empty (first_address (mv_from m)))"
    and "\<forall>a \<in> set (reply_all_cc (email i) (or_empty (first_address (mv_from m))) m). CHR 0x0A \<notin> set a"
  shows "header_text 1 c = or_empty (first_address (mv_from m))"
    "header_text 2 c = join '', '' (reply_all_cc (email i) (or_empty (first_address (mv_from m))) m)"
proof -
  let ?s = "or_empty (first_address (mv_from m))" and ?cc = "reply_all_cc (email i) (or_empty (first_address (mv_from m))) m"
  obtain c0 where c: "c = (set_body w (quoted_body i m)
      (set_header_text w 2 (join '', '' ?cc) (set_header_text w 1 ?s (set_header_text w 0
        (prefix_subject (or_empty (mv_subject m)) ''Re: '') c0))))\<lparr>focus := Body\<rparr>"
    "length (header_fields c0) = 4"
    using assms(1,2) by (auto simp: new_reply_def Let_def)
  have "CHR 0x0A \<notin> set (join '', '' ?cc)" using assms(5) by (intro join_free) auto
  then show "header_text 1 c = ?s" "header_text 2 c = join '', '' ?cc"
    using assms(3,4) c by (simp_all add: header_text_put)
qed

text \<open>
  A reply to all goes to everyone once: it is addressed to the sender, and its Cc is read
  back as exactly the addresses of the original's To and Cc, each once, without the sender
  and without the own address (in the same spelling; the code compares case-sensitively).
  The field editor has to keep a line as it is put in.
\<close>

theorem reply_all_recipients:
  assumes "new_reply parse_mail w i msg True = Inr c" "parse_mail msg = Some m"
    and "\<forall>t. CHR 0x0A \<notin> set t \<longrightarrow> put_text w t = t"
    and "first_address (mv_from m) = Some sender" "bare_address sender"
    and "\<forall>a \<in> set (group_addresses (mv_to m) @ group_addresses (mv_cc m)). bare_address a"
  shows "parse_addresses (header_text 1 c) = [([], sender)] \<and>
    (\<exists>cc. parse_addresses (header_text 2 c) = map (\<lambda>a. ([], a)) cc \<and> distinct cc \<and>
      set cc = (set (group_addresses (mv_to m)) \<union> set (group_addresses (mv_cc m))) - {email i, sender})"
proof -
  let ?cc = "reply_all_cc (email i) sender m"
  have set: "set ?cc = (set (group_addresses (mv_to m)) \<union> set (group_addresses (mv_cc m))) - {email i, sender}"
    by (auto simp: reply_all_cc_def reply_all_cc_set)
  then have bare: "\<forall>a \<in> set ?cc. bare_address a" using assms(6) by auto
  have s: "or_empty (first_address (mv_from m)) = sender" using assms(4) by (simp add: or_empty_def)
  have "header_text 1 c = sender" "header_text 2 c = join '', '' ?cc"
    using reply_fields [OF assms(1-3)] assms(5) bare s by (auto simp: bare_address_def)
  moreover have "parse_addresses (join '', '' [sender]) = [([], sender)]"
    using parse_joined [of "[sender]"] assms(5) by simp
  moreover have "distinct ?cc" by (simp add: reply_all_cc_def reply_all_cc_distinct)
  ultimately show ?thesis using parse_joined [OF bare] set by auto
qed

definition group :: "string list \<Rightarrow> mail_address list option" where
  "group as = Some (map (\<lambda>a. \<lparr>display_name = None, address = Some a\<rparr>) as)"

definition reply_view :: mail_view where
  "reply_view =
     \<lparr>mv_headers = [], header_values = (\<lambda>_. []), header_of = (\<lambda>_. None), mv_from = group [''a@b''],
      mv_to = group [''me@x.org'', ''c@d''], mv_cc = group [''c@d'', ''a@b'', ''e@f''], mv_bcc = None, mv_reply_to = None,
      mv_subject = Some ''Hi'', mv_message_id = None, mv_references = None, mv_date = None, mv_body_text = None,
      mv_parts = []\<rparr>"

lemma bare_plain: "a \<noteq> [] \<Longrightarrow> list_all (\<lambda>c. plain_char c \<and> c \<noteq> CHR '','' \<and> c \<noteq> CHR ''<'') a \<Longrightarrow> bare_address a"
proof -
  assume a: "a \<noteq> []" "list_all (\<lambda>c. plain_char c \<and> c \<noteq> CHR '','' \<and> c \<noteq> CHR ''<'') a"
  have "\<not> plain_char (CHR 0x0A)" by (simp add: plain_char_def byte_def)
  then have "CHR 0x0A \<notin> set a" "CHR '','' \<notin> set a" "CHR ''<'' \<notin> set a" using a(2) by (auto simp: list_all_iff)
  moreover have "trimmed (a @ [])"
    by (rule trimmed_plain_prefix) (use a in \<open>auto simp: list_all_iff\<close>)
  ultimately show ?thesis using a(1) by (simp add: bare_address_def)
qed

theorem reply_all_recipients_witness:
  "\<exists>c. new_reply (\<lambda>_. Some reply_view) plain_widgets demo_identity [] True = Inr c \<and>
     (\<exists>cc. parse_addresses (header_text 2 c) = map (\<lambda>a. ([], a)) cc \<and> set cc = {''c@d'', ''e@f''})"
proof -
  obtain c where c: "new_reply (\<lambda>_. Some reply_view) plain_widgets demo_identity [] True = Inr c"
    by (simp add: new_reply_def Let_def)
  have g: "group_addresses (mv_to reply_view) = [''me@x.org'', ''c@d'']"
    "group_addresses (mv_cc reply_view) = [''c@d'', ''a@b'', ''e@f'']" "first_address (mv_from reply_view) = Some ''a@b''"
    by code_simp+
  have p: "\<forall>t. CHR 0x0A \<notin> set t \<longrightarrow> put_text plain_widgets t = t" by (simp add: plain_widgets_def)
  have s: "bare_address ''a@b''" by (rule bare_plain) (simp_all add: plain_char_def byte_def)
  have b: "\<forall>a \<in> set (group_addresses (mv_to reply_view) @ group_addresses (mv_cc reply_view)). bare_address a"
  proof -
    have "bare_address ''me@x.org''" "bare_address ''c@d''" "bare_address ''e@f''"
      by (rule bare_plain; simp add: plain_char_def byte_def)+
    then show ?thesis using s unfolding g by simp
  qed
  have "email demo_identity = ''me@x.org''" by (simp add: demo_identity_def)
  then show ?thesis
    using c reply_all_recipients [OF c refl p g(3) s b] unfolding g by auto
qed

section \<open>Encrypted mail\<close>

text \<open>
  C29. With encryption on, nothing but ciphertext leaves the program: a message is written only
  when the key source encrypted a payload to the recipients' keys, and it is the envelope
  headers around that ciphertext and nothing else. The payload is the signed message under
  the given key when signing is on too, the message itself otherwise; without a key source,
  or without a key to sign with, there is an error and no message.
\<close>

theorem encrypt_flag_means_ciphertext:
  assumes "to_mime_with_pgp write cd source ts signer recipients c = Inr out" "pgp_encrypt (pgp c)"
  shows "\<exists>src inner payload ct. source = Some src \<and> to_mime write cd c = Inr inner \<and>
    (if pgp_sign (pgp c)
     then \<exists>k. signer = Some k \<and> sign_pgp_mime src (fst ts) k inner (inner_headers (composer_headers cd c)) = Inr payload
     else payload = normalize_crlf inner) \<and>
    encrypt_to src recipients payload = Inr ct \<and>
    out = encrypted_message (composer_headers cd c) (make_boundary ''pgp-encrypted'' (snd ts)) (b64_wrap cd ct)"
proof -
  obtain src inner k where s: "source = Some src" "to_mime write cd c = Inr inner"
    "pgp_result (encrypt_pgp_mime cd src ts k recipients inner (composer_headers cd c)) = Inr out"
    "if pgp_sign (pgp c) then k \<noteq> None \<and> k = signer else k = None"
    using assms
    by (auto simp: to_mime_with_pgp_def and_then_Inr signer_or_missing_def split: option.splits if_splits)
  then obtain payload ct where "encryption_payload src (fst ts) k inner (composer_headers cd c) = Inr payload"
    "encrypt_to src recipients payload = Inr ct"
    "out = encrypted_message (composer_headers cd c) (make_boundary ''pgp-encrypted'' (snd ts)) (b64_wrap cd ct)"
    by (auto simp: pgp_result_def encrypt_pgp_mime_def and_then_Inr split: sum.splits)
  with s show ?thesis by (auto simp: encryption_payload_def split: if_splits)
qed

definition demo_composer :: composer where
  "demo_composer =
     (set_header_text plain_widgets 1 ''d@e.f'' (new_blank plain_widgets demo_identity))
       \<lparr>pgp := \<lparr>pgp_sign = False, pgp_encrypt = True\<rparr>\<rparr>"

theorem encrypt_flag_means_ciphertext_witness:
  "\<exists>out ct. to_mime_with_pgp (\<lambda>_. Some (''Hello'' @ [CHR 0x0A])) demo_codec (Some demo_source) (0, 7) None [''K''] demo_composer = Inr out \<and>
     out = encrypted_message (composer_headers demo_codec demo_composer) (make_boundary ''pgp-encrypted'' 7) (b64_wrap demo_codec ct)"
proof -
  let ?w = "\<lambda>_. Some (''Hello'' @ [CHR 0x0A])"
  have e: "pgp_encrypt (pgp demo_composer)" "\<not> pgp_sign (pgp demo_composer)" by (simp_all add: demo_composer_def)
  have m: "to_mime ?w demo_codec demo_composer = Inr (''Hello'' @ [CHR 0x0A])" by code_simp
  obtain out where out: "to_mime_with_pgp ?w demo_codec (Some demo_source) (0, 7) None [''K''] demo_composer = Inr out"
    using e m by (simp add: to_mime_with_pgp_def pgp_result_def encrypt_pgp_mime_def encryption_payload_def demo_source_def)
  from out encrypt_flag_means_ciphertext [OF out e(1)] show ?thesis by auto
qed

end
