(* ===== verification/Iso_Dates.thy ===== *)
theory Iso_Dates
  imports Civil_Date Rust_Panic
begin

text \<open>
  Timestamps of mail servers, \<^verbatim>\<open>2026-01-02T15:04:05Z\<close>: the parser that jmap.rs and graph.rs
  of crates/inbx-net share, with its loop over the months, and the one of apps/inbx/src/main.rs, which
  counts days the way Civil_Date undoes it. On dates that exist the two agree.
\<close>

section \<open>Integers\<close>

definition parse_i64 :: "string \<Rightarrow> int option" where
  "parse_i64 s =
     (let (neg, d) = (case s of c # r \<Rightarrow> if c = CHR ''-'' then (True, r) else if c = CHR ''+'' then (False, r) else (False, s)
                              | [] \<Rightarrow> (False, [])) in
      if d = [] then None
      else case digits_value 0 d of
        None \<Rightarrow> None
      | Some n \<Rightarrow>
          let i = (if neg then - int n else int n)
          in if - (2 ^ 63) \<le> i \<and> i < 2 ^ 63 then Some i else None)"

definition parse_u32 :: "string \<Rightarrow> nat option" where
  "parse_u32 s = (case parse_usize s of Some n \<Rightarrow> if n < 2 ^ 32 then Some n else None | None \<Rightarrow> None)"

text \<open>The bytes from one position to another, read as an integer; \<^verbatim>\<open>str::get\<close> on a range.\<close>

definition int_field :: "nat \<Rightarrow> nat \<Rightarrow> string \<Rightarrow> int option" where
  "int_field a b s = (let t = take (b - a) (drop a s) in if utf8 t then parse_i64 t else None)"

definition str_get :: "nat \<Rightarrow> nat \<Rightarrow> string \<Rightarrow> string option" where
  "str_get a b s = (case str_slice a b s of Return t \<Rightarrow> Some t | Panic \<Rightarrow> None)"

section \<open>The loop over the months\<close>

definition days_in_month :: "int list" where
  "days_in_month = [0, 31, 28, 31, 30, 31, 30, 31, 31, 30, 31, 30, 31]"

text \<open>The turns from month \<open>m\<close> on; an index past the table panics.\<close>

function add_months :: "bool \<Rightarrow> int \<Rightarrow> int \<Rightarrow> int \<Rightarrow> int outcome" where
  "add_months leap m month days =
     (if month \<le> m then Return days
      else if m < 0 \<or> int (length days_in_month) \<le> m then Panic
      else add_months leap (m + 1) month
             (days + days_in_month ! nat m + (if m = 2 \<and> leap then 1 else 0)))"
  by pat_completeness auto
termination by (relation "measure (\<lambda>(_, m, month, _). nat (month - m))") auto

declare add_months.simps [simp del]

definition days_to_year :: "int \<Rightarrow> int" where
  "days_to_year y = (y - 1970) * 365 + (y - 1969) div 4 - (y - 1901) div 100 + (y - 1601) div 400"

definition unix_of_fields :: "int \<Rightarrow> int \<Rightarrow> int \<Rightarrow> int \<Rightarrow> int \<Rightarrow> int \<Rightarrow> int outcome" where
  "unix_of_fields y mo d h mi sec =
     bind_outcome (add_months (y mod 4 = 0 \<and> y mod 100 \<noteq> 0 \<or> y mod 400 = 0) 1 mo (days_to_year y))
       (\<lambda>days. Return ((days + d - 1) * 86400 + h * 3600 + mi * 60 + sec))"

definition parse_jmap_date :: "string \<Rightarrow> int option outcome" where
  "parse_jmap_date s =
     (if length s < 20 then Return None
      else case (int_field 0 4 s, int_field 5 7 s, int_field 8 10 s,
                 int_field 11 13 s, int_field 14 16 s, int_field 17 19 s) of
        (Some y, Some mo, Some d, Some h, Some mi, Some sec) \<Rightarrow>
          bind_outcome (unix_of_fields y mo d h mi sec) (\<lambda>t. Return (Some t))
      | _ \<Rightarrow> Return None)"

text \<open>graph.rs has the same text.\<close>

definition parse_graph_date :: "string \<Rightarrow> int option outcome" where
  "parse_graph_date s = parse_jmap_date s"

section \<open>Counting days of the civil calendar\<close>

definition civil_to_days :: "int \<Rightarrow> int \<Rightarrow> int \<Rightarrow> int" where
  "civil_to_days y0 m d =
     (let y = (if m \<le> 2 then y0 - 1 else y0);
          era = y div 400;
          yoe = y - era * 400;
          doy = (153 * (if m > 2 then m - 3 else m + 9) + 2) div 5 + d - 1;
          doe = yoe * 365 + yoe div 4 - yoe div 100 + doy
      in era * 146097 + doe - 719468)"

definition civil_to_unix :: "int \<Rightarrow> nat \<Rightarrow> nat \<Rightarrow> nat \<Rightarrow> nat \<Rightarrow> nat \<Rightarrow> int" where
  "civil_to_unix y m d h mi s =
     civil_to_days y (int m) (int d) * 86400 + int h * 3600 + int mi * 60 + int s"

definition parse_iso8601 :: "string \<Rightarrow> int option" where
  "parse_iso8601 s =
     (if length s < 20 then None
      else case (Option.bind (str_get 0 4 s) parse_i64, Option.bind (str_get 5 7 s) parse_u32,
                 Option.bind (str_get 8 10 s) parse_u32, Option.bind (str_get 11 13 s) parse_u32,
                 Option.bind (str_get 14 16 s) parse_u32, Option.bind (str_get 17 19 s) parse_u32) of
        (Some y, Some m, Some d, Some h, Some mi, Some sec) \<Rightarrow> Some (civil_to_unix y m d h mi sec)
      | _ \<Rightarrow> None)"

section \<open>Both count the days of the calendar\<close>

definition month_start :: "int \<Rightarrow> int \<Rightarrow> int" where
  "month_start y m =
     (if m \<le> 1 then 0 else if m = 2 then 31
      else [59, 90, 120, 151, 181, 212, 243, 273, 304, 334] ! nat (m - 3) + (if leap_year y then 1 else 0))"

lemma month_cases:
  assumes "1 \<le> (m::int)" "m \<le> 12"
  obtains "m = 1" | "m = 2" | "m = 3" | "m = 4" | "m = 5" | "m = 6" | "m = 7" | "m = 8" | "m = 9" | "m = 10" | "m = 11" | "m = 12"
proof -
  have "m = 1 \<or> m = 2 \<or> m = 3 \<or> m = 4 \<or> m = 5 \<or> m = 6 \<or> m = 7 \<or> m = 8 \<or> m = 9 \<or> m = 10 \<or> m = 11 \<or> m = 12"
    using assms by arith
  with that show ?thesis by blast
qed

lemma div_succ:
  assumes "0 < (n::int)"
  shows "(a + 1) div n = a div n + (if (a + 1) mod n = 0 then 1 else 0)"
proof (cases "a mod n + 1 = n")
  case True
  have "a + 1 = n * (a div n) + (a mod n + 1)" using mult_div_mod_eq [of n a] by simp
  also have "\<dots> = n * (a div n + 1)" unfolding True by (simp add: distrib_left)
  finally have "a + 1 = n * (a div n + 1)" .
  then show ?thesis using assms by simp
next
  case False
  have b: "0 \<le> a mod n" "a mod n < n" using assms by simp_all
  have e: "a + 1 = n * (a div n) + (a mod n + 1)" using mult_div_mod_eq [of n a] by simp
  have "(a + 1) div n = a div n" by (rule int_div_pos_eq [OF e]) (use b False in simp_all)
  moreover have "(a + 1) mod n = a mod n + 1" by (rule int_mod_pos_eq [OF e]) (use b False in simp_all)
  ultimately show ?thesis using b by simp
qed

lemma leap_code: "(y mod 4 = 0 \<and> y mod 100 \<noteq> 0 \<or> y mod 400 = 0) = leap_year y"
proof -
  have "y mod 4 = 0" if "y mod 400 = 0"
    using that dvd_trans [of 4 400 y] by (simp add: mod_eq_0_iff_dvd)
  then show ?thesis by (auto simp: leap_year_def)
qed

lemma add_months_done: "month \<le> m \<Longrightarrow> add_months leap m month x = Return x"
  by (simp add: add_months.simps)

lemma add_months_turn:
  "m < month \<Longrightarrow> 0 \<le> m \<Longrightarrow> m < 13 \<Longrightarrow>
    add_months leap m month x = add_months leap (m + 1) month (x + days_in_month ! nat m + (if m = 2 \<and> leap then 1 else 0))"
  by (subst add_months.simps) (simp add: days_in_month_def)

lemma add_months_start:
  assumes "1 \<le> m" "m \<le> 12"
  shows "add_months (leap_year y) 1 m x = Return (x + month_start y m)"
  by (rule month_cases [OF assms])
    (simp_all add: add_months_done add_months_turn days_in_month_def month_start_def)

definition date_days :: "int \<Rightarrow> int \<Rightarrow> int \<Rightarrow> int" where
  "date_days y m d = days_to_year y + month_start y m + d - 1"

lemma leap_count:
  "(p400 \<Longrightarrow> p100) \<Longrightarrow> (p100 \<Longrightarrow> p4) \<Longrightarrow>
    (y + 1 - 1970) * 365 + (a + (if p4 then 1 else 0)) - (b + (if p100 then 1 else 0)) + (c + (if p400 then 1 else 0)) =
    (y - 1970) * 365 + a - b + c + (if p4 \<and> (\<not> p100 \<or> p400) then 366 else (365 :: int))"
  by (cases p400; cases p100; cases p4) simp_all

lemma days_to_year_next: "days_to_year (y + 1) = days_to_year y + (if leap_year y then 366 else 365)"
proof -
  have shift: "y + 1 - 1969 = y - 1969 + 1" "y + 1 - 1901 = y - 1901 + 1" "y + 1 - 1601 = y - 1601 + 1"
    "y - 1969 + 1 = y - 1968" "y - 1901 + 1 = y - 1900" "y - 1601 + 1 = y - 1600" by simp_all
  have m: "(y - 1968) mod 4 = 0 \<longleftrightarrow> y mod 4 = 0" "(y - 1900) mod 100 = 0 \<longleftrightarrow> y mod 100 = 0"
    "(y - 1600) mod 400 = 0 \<longleftrightarrow> y mod 400 = 0"
    by (simp_all only: mod_eq_0_iff_dvd) (simp_all add: dvd_diff_left_iff)
  have d: "y mod 400 = 0 \<Longrightarrow> y mod 100 = 0" "y mod 100 = 0 \<Longrightarrow> y mod 4 = 0"
    using dvd_trans [of 100 400 y] dvd_trans [of 4 100 y] by (simp_all only: mod_eq_0_iff_dvd) simp_all
  have "(y + 1 - 1969) div 4 = (y - 1969) div 4 + (if y mod 4 = 0 then 1 else 0)"
    "(y + 1 - 1901) div 100 = (y - 1901) div 100 + (if y mod 100 = 0 then 1 else 0)"
    "(y + 1 - 1601) div 400 = (y - 1601) div 400 + (if y mod 400 = 0 then 1 else 0)"
    unfolding shift(1-3) using div_succ [of 4 "y - 1969"] div_succ [of 100 "y - 1901"] div_succ [of 400 "y - 1601"]
    by (simp_all only: shift m)
  then show ?thesis unfolding days_to_year_def leap_year_def by (simp only: leap_count [OF d])
qed

lemma month_start_next:
  assumes "1 \<le> m" "m < 12"
  shows "month_start y (m + 1) = month_start y m + month_length y m"
proof -
  have "m \<le> 12" using assms(2) by simp
  then show ?thesis using assms(2)
    by (rule_tac month_cases [OF assms(1)]) (simp_all add: month_start_def month_length_def)
qed

lemma date_days_next:
  assumes "valid_date (y, m, d)" "next_day (y, m, d) = (y', m', d')"
  shows "date_days y' m' d' = date_days y m d + 1"
proof -
  have v: "1 \<le> m" "m \<le> 12" "d \<le> month_length y m" using assms(1) by (simp_all add: valid_date_def)
  consider "d < month_length y m" | "d = month_length y m" "m < 12" | "d = month_length y m" "m = 12"
    using v by linarith
  then show ?thesis
  proof cases
    case 1
    then show ?thesis using assms(2) by (auto simp: date_days_def)
  next
    case 2
    then show ?thesis using assms(2) month_start_next [OF v(1)] by (auto simp: date_days_def)
  next
    case 3
    then show ?thesis using assms(2) days_to_year_next [of y]
      by (auto simp: date_days_def month_start_def month_length_def)
  qed
qed


text \<open>Day 0 of the count is 1970-01-01, and every later date is reached from it.\<close>

definition reached :: "int \<times> int \<times> int \<Rightarrow> bool" where
  "reached x \<longleftrightarrow> (\<exists>n. x = (next_day ^^ n) (1970, 1, 1))"

lemma reached_next: "reached x \<Longrightarrow> reached (next_day x)"
  unfolding reached_def by (metis funpow.simps(2) comp_apply)

lemma reached_day:
  "reached (y, m, 1) \<Longrightarrow> int k < month_length y m \<Longrightarrow> reached (y, m, 1 + int k)"
proof (induction k)
  case (Suc k)
  then have "reached (y, m, 1 + int k)" by simp
  then show ?case using reached_next Suc.prems(2) by (fastforce simp: add.commute)
qed simp

lemma month_length_pos: "28 \<le> month_length y m" "month_length y m \<le> 31"
  by (simp_all add: month_length_def)

lemma reached_last: "reached (y, m, 1) \<Longrightarrow> reached (y, m, month_length y m)"
  using reached_day [of y m "nat (month_length y m - 1)"] month_length_pos [of y m] by simp

lemma reached_month:
  "reached (y, 1, 1) \<Longrightarrow> k < 12 \<Longrightarrow> reached (y, 1 + int k, 1)"
proof (induction k)
  case (Suc k)
  then have "reached (y, 1 + int k, month_length y (1 + int k))" using reached_last by simp
  then show ?case using reached_next Suc.prems(2) by (fastforce simp: add.commute add.left_commute)
qed simp

lemma reached_year: "reached (1970 + int k, 1, 1)"
proof (induction k)
  case 0
  then show ?case using funpow_0 [of next_day] by (metis reached_def add.right_neutral of_nat_0)
next
  case (Suc k)
  then have "reached (1970 + int k, 12, month_length (1970 + int k) 12)"
    using reached_last [OF reached_month [of _ 11]] by simp
  then show ?case using reached_next by (fastforce simp: add.commute add.left_commute)
qed

lemma reached_valid:
  assumes "valid_date (y, m, d)" "1970 \<le> y"
  shows "reached (y, m, d)"
proof -
  have "reached (y, m, 1)"
    using reached_month [of y "nat (m - 1)"] reached_year [of "nat (y - 1970)"] assms
    by (simp add: valid_date_def nat_less_iff)
  then show ?thesis using reached_day [of y m "nat (d - 1)"] assms by (simp add: valid_date_def)
qed

text \<open>A count of days that is 0 at the epoch and steps with the calendar is that of Civil_Date.\<close>

locale day_count =
  fixes count :: "int \<Rightarrow> int \<Rightarrow> int \<Rightarrow> int"
  assumes epoch: "count 1970 1 1 = 0"
    and step: "valid_date (y, m, d) \<Longrightarrow> next_day (y, m, d) = (y', m', d') \<Longrightarrow> count y' m' d' = count y m d + 1"
begin

lemma count_iterate: "(next_day ^^ n) (1970, 1, 1) = (y, m, d) \<Longrightarrow> count y m d = int n"
proof (induction n arbitrary: y m d)
  case (Suc n)
  obtain y0 m0 d0 where x: "(next_day ^^ n) (1970, 1, 1) = (y0, m0, d0)" by (metis prod_cases3)
  then have "valid_date (y0, m0, d0)" using valid_civil [of n] by (simp add: civil_iterate)
  moreover have "next_day (y0, m0, d0) = (y, m, d)" using Suc.prems x by simp
  ultimately show ?case using step Suc.IH [OF x] by simp
qed (simp add: epoch)

lemma count_days:
  assumes "valid_date (y, m, d)" "1970 \<le> y"
  shows "civil_from_days (count y m d) = (y, m, d) \<and> 0 \<le> count y m d"
proof -
  obtain n where "(next_day ^^ n) (1970, 1, 1) = (y, m, d)"
    using reached_valid [OF assms] by (auto simp: reached_def)
  then show ?thesis using count_iterate civil_iterate by simp
qed

lemma count_unique:
  assumes "valid_date (y, m, d)" "1970 \<le> y" "civil_from_days (int n) = (y, m, d)"
  shows "count y m d = int n"
  using assms(3) count_iterate by (simp add: civil_iterate)

end

interpretation month_loop: day_count date_days
proof
  show "date_days 1970 1 1 = 0" by (simp add: date_days_def days_to_year_def month_start_def)
qed (rule date_days_next)


definition year_days :: "int \<Rightarrow> int" where
  "year_days y = 365 * y + y div 4 - y div 100 + y div 400"

lemma year_days_era:
  "(y div 400) * 146097 + ((y - y div 400 * 400) * 365 + (y - y div 400 * 400) div 4 - (y - y div 400 * 400) div 100 + doy) =
   year_days y + doy"
proof -
  define e r where "e = y div 400" and "r = y - y div 400 * 400"
  have y: "y = r + e * 400" by (simp add: e_def r_def)
  have "y div 4 = (r + (e * 100) * 4) div 4" "y div 100 = (r + (e * 4) * 100) div 100" unfolding y by simp_all
  then have d: "y div 4 = r div 4 + e * 100" "y div 100 = r div 100 + e * 4"
    using div_mult_self1 [of 4 r "e * 100"] div_mult_self1 [of 100 r "e * 4"] by (simp_all only: mult.commute)
  have eq: "e * 146097 + (r * 365 + a - b + doy) = 365 * (r + e * 400) + (a + e * 100) - (b + e * 4) + e + doy" for a b :: int
    by (simp add: algebra_simps)
  show ?thesis unfolding r_def [symmetric] year_days_def d unfolding e_def [symmetric] eq unfolding y ..
qed

lemma year_days_next: "year_days (y + 1) = year_days y + (if leap_year (y + 1) then 366 else 365)"
proof -
  have d: "(y + 1) mod 400 = 0 \<Longrightarrow> (y + 1) mod 100 = 0" "(y + 1) mod 100 = 0 \<Longrightarrow> (y + 1) mod 4 = 0"
    using dvd_trans [of 100 400 "y + 1"] dvd_trans [of 4 100 "y + 1"] by (simp_all only: mod_eq_0_iff_dvd) simp_all
  have "365 * (y + 1) + (a + (if p4 then 1 else 0)) - (b + (if p100 then 1 else 0)) + (c + (if p400 then 1 else 0)) =
      365 * y + a - b + c + (if p4 \<and> (\<not> p100 \<or> p400) then 366 else 365)"
    if "p400 \<Longrightarrow> p100" "p100 \<Longrightarrow> p4" for p4 p100 p400 and a b c :: int
    using that by (cases p400; cases p100; cases p4) simp_all
  then show ?thesis unfolding year_days_def leap_year_def
    by (simp only: div_succ [of 4 y] div_succ [of 100 y] div_succ [of 400 y]) (use d in simp)
qed

definition month_days :: "int \<Rightarrow> int" where
  "month_days m = (153 * (if m > 2 then m - 3 else m + 9) + 2) div 5"

lemma civil_to_days_eq:
  "civil_to_days y m d = year_days (if m \<le> 2 then y - 1 else y) + month_days m + d - 1 - 719468"
  unfolding civil_to_days_def Let_def month_days_def [symmetric] year_days_era by simp

lemma month_days_next:
  assumes "1 \<le> m" "m < 12" "m \<noteq> 2"
  shows "month_days (m + 1) = month_days m + month_length y m"
proof -
  have "m \<le> 12" using assms(2) by simp
  then show ?thesis using assms(2,3)
    by (rule_tac month_cases [OF assms(1)]) (simp_all add: month_days_def month_length_def)
qed

lemma civil_to_days_next:
  assumes "valid_date (y, m, d)" "next_day (y, m, d) = (y', m', d')"
  shows "civil_to_days y' m' d' = civil_to_days y m d + 1"
proof -
  have v: "1 \<le> m" "m \<le> 12" "d \<le> month_length y m" using assms(1) by (simp_all add: valid_date_def)
  consider "d < month_length y m" | "d = month_length y m" "m < 12" "m \<noteq> 2" | "d = month_length y m" "m = 2" | "d = month_length y m" "m = 12"
    using v by linarith
  then show ?thesis
  proof cases
    case 1
    then show ?thesis using assms(2) by (auto simp: civil_to_days_eq)
  next
    case 2
    then show ?thesis using assms(2) month_days_next [OF v(1)] by (auto simp: civil_to_days_eq)
  next
    case 3
    then have "y' = y" "m' = 3" "d' = 1" using assms(2) by auto
    then show ?thesis using 3 year_days_next [of "y - 1"]
      by (simp add: civil_to_days_eq month_length_def month_days_def)
  next
    case 4
    then show ?thesis using assms(2) by (auto simp: civil_to_days_eq month_length_def month_days_def)
  qed
qed

interpretation civil_count: day_count civil_to_days
proof
  show "civil_to_days 1970 1 1 = 0" by code_simp
qed (rule civil_to_days_next)


section \<open>Timestamps\<close>

definition two :: "nat \<Rightarrow> string" where
  "two n = pad_left (CHR ''0'') 2 (show_nat n)"

definition timestamp :: "nat \<Rightarrow> nat \<Rightarrow> nat \<Rightarrow> nat \<Rightarrow> nat \<Rightarrow> nat \<Rightarrow> string" where
  "timestamp y m d h mi s =
     pad_left (CHR ''0'') 4 (show_nat y) @ ''-'' @ two m @ ''-'' @ two d @ ''T'' @ two h @ '':'' @ two mi @ '':'' @ two s @ ''Z''"

lemma digits_value_pad: "digits_value 0 (pad_left (CHR ''0'') w s) = digits_value 0 s"
proof -
  have "digits_value 0 (replicate k (CHR ''0'') @ s) = digits_value 0 s" for k
    by (induction k) (simp_all add: is_ascii_digit_def byte_def)
  then show ?thesis by (simp add: pad_left_def)
qed

lemma pad_left_digits: "c \<in> set (pad_left (CHR ''0'') w (show_nat n)) \<Longrightarrow> is_ascii_digit c"
  by (auto simp: pad_left_def is_ascii_digit_def byte_def dest: show_nat_digits)

lemma parse_padded:
  assumes "n < 10 ^ k" "0 < k" "k < 10"
  shows "parse_i64 (pad_left (CHR ''0'') k (show_nat n)) = Some (int n)"
    "parse_usize (pad_left (CHR ''0'') k (show_nat n)) = Some n"
    "utf8 (pad_left (CHR ''0'') k (show_nat n))"
    "length (pad_left (CHR ''0'') k (show_nat n)) = k"
proof -
  let ?p = "pad_left (CHR ''0'') k (show_nat n)"
  have l: "length ?p = k" using length_show_nat [of n "k - 1"] assms(1,2) by (simp add: pad_left_def)
  then obtain c r where p: "?p = c # r" using assms(2) by (cases ?p) auto
  have c: "c \<noteq> CHR ''+''" "c \<noteq> CHR ''-''" using pad_left_digits [of c k n] p by (auto simp: is_ascii_digit_def byte_def)
  have v: "digits_value 0 (c # r) = Some n" using digits_value_pad [of k "show_nat n"] p by (simp add: digits_value_show_nat)
  have "(10::nat) ^ k \<le> 10 ^ 9" using assms(3) by (intro power_increasing) auto
  then have n: "n < 10 ^ 9" using assms(1) by simp
  show "parse_i64 ?p = Some (int n)" using p c v n by (simp add: parse_i64_def)
  show "parse_usize ?p = Some n" using p c v n by (simp add: parse_usize_def)
  show "utf8 ?p" using pad_left_digits [of _ k n] by (intro utf8_ascii) (fastforce simp: is_ascii_digit_def)
  show "length ?p = k" by (rule l)
qed


lemma parse_u32_padded:
  "n < 10 ^ k \<Longrightarrow> 0 < k \<Longrightarrow> k < 10 \<Longrightarrow> parse_u32 (pad_left (CHR ''0'') k (show_nat n)) = Some n"
proof -
  assume k: "n < 10 ^ k" "0 < k" "k < 10"
  have "(10::nat) ^ k \<le> 10 ^ 9" using k(3) by (intro power_increasing) auto
  then show ?thesis using parse_padded(2) [OF k] k(1) by (simp add: parse_u32_def)
qed

text \<open>A field between two texts of known length.\<close>

lemma int_field_at:
  "s = a @ t @ b \<Longrightarrow> i = length a \<Longrightarrow> j = length a + length t \<Longrightarrow> utf8 t \<Longrightarrow> int_field i j s = parse_i64 t"
  by (simp add: int_field_def)

lemma str_get_at:
  assumes "s = a @ t @ b" "i = length a" "j = length a + length t" "list_all (\<lambda>c. byte c < 0x80) s"
  shows "str_get i j s = Some t"
proof -
  have "is_char_boundary k s" if "k \<le> length s" for k
    using that assms(4) by (auto simp: is_char_boundary_def is_cont_def list_all_length dest: spec [of _ k])
  then show ?thesis using assms(1-3) by (simp add: str_get_def str_slice_def slice_def)
qed

lemma timestamp_ascii: "list_all (\<lambda>c. byte c < 0x80) (timestamp y m d h mi s)"
proof -
  have "list_all (\<lambda>c. byte c < 0x80) (pad_left (CHR ''0'') w (show_nat n))" for w n
    using pad_left_digits [of _ w n] by (fastforce simp: list_all_iff is_ascii_digit_def)
  moreover have "list_all (\<lambda>c. byte c < 0x80) ''-''" "list_all (\<lambda>c. byte c < 0x80) ''T''"
    "list_all (\<lambda>c. byte c < 0x80) '':''" "list_all (\<lambda>c. byte c < 0x80) ''Z''" by code_simp+
  ultimately show ?thesis unfolding timestamp_def two_def list_all_append by blast
qed

lemma timestamp_fields:
  assumes "y < 10000" "m < 100" "d < 100" "h < 100" "mi < 100" "s < 100"
  defines "t \<equiv> timestamp y m d h mi s"
  shows "length t = 20"
    "int_field 0 4 t = Some (int y)" "int_field 5 7 t = Some (int m)" "int_field 8 10 t = Some (int d)"
    "int_field 11 13 t = Some (int h)" "int_field 14 16 t = Some (int mi)" "int_field 17 19 t = Some (int s)"
    "Option.bind (str_get 0 4 t) parse_i64 = Some (int y)" "Option.bind (str_get 5 7 t) parse_u32 = Some m"
    "Option.bind (str_get 8 10 t) parse_u32 = Some d" "Option.bind (str_get 11 13 t) parse_u32 = Some h"
    "Option.bind (str_get 14 16 t) parse_u32 = Some mi" "Option.bind (str_get 17 19 t) parse_u32 = Some s"
proof -
  let ?Y = "pad_left (CHR ''0'') 4 (show_nat y)"
  have Y: "parse_i64 ?Y = Some (int y)" "utf8 ?Y" "length ?Y = 4"
    using parse_padded [of y 4] assms(1) by simp_all
  have T: "parse_i64 (two n) = Some (int n)" "utf8 (two n)" "length (two n) = 2" "parse_u32 (two n) = Some n"
    if "n < 100" for n
    using parse_padded [of n 2] parse_u32_padded [of n 2] that by (simp_all add: two_def)
  note v = t_def timestamp_def
  note l = T(3) [OF assms(2)] T(3) [OF assms(3)] T(3) [OF assms(4)] T(3) [OF assms(5)] T(3) [OF assms(6)] Y(3)
  show "length t = 20" unfolding v using l by simp
  have f: "int_field 0 4 t = parse_i64 ?Y" "int_field 5 7 t = parse_i64 (two m)" "int_field 8 10 t = parse_i64 (two d)"
    "int_field 11 13 t = parse_i64 (two h)" "int_field 14 16 t = parse_i64 (two mi)" "int_field 17 19 t = parse_i64 (two s)"
    subgoal by (rule int_field_at [of t "[]"]) (use l Y(2) in \<open>simp_all add: v\<close>)
    subgoal by (rule int_field_at [of t "?Y @ ''-''"]) (use l T(2) [OF assms(2)] in \<open>simp_all add: v\<close>)
    subgoal by (rule int_field_at [of t "?Y @ ''-'' @ two m @ ''-''"]) (use l T(2) [OF assms(3)] in \<open>simp_all add: v\<close>)
    subgoal by (rule int_field_at [of t "?Y @ ''-'' @ two m @ ''-'' @ two d @ ''T''"])
        (use l T(2) [OF assms(4)] in \<open>simp_all add: v\<close>)
    subgoal by (rule int_field_at [of t "?Y @ ''-'' @ two m @ ''-'' @ two d @ ''T'' @ two h @ '':''"])
        (use l T(2) [OF assms(5)] in \<open>simp_all add: v\<close>)
    subgoal by (rule int_field_at [of t "?Y @ ''-'' @ two m @ ''-'' @ two d @ ''T'' @ two h @ '':'' @ two mi @ '':''"])
        (use l T(2) [OF assms(6)] in \<open>simp_all add: v\<close>)
    done
  then show "int_field 0 4 t = Some (int y)" "int_field 5 7 t = Some (int m)" "int_field 8 10 t = Some (int d)"
    "int_field 11 13 t = Some (int h)" "int_field 14 16 t = Some (int mi)" "int_field 17 19 t = Some (int s)"
    using Y T assms(2-6) by simp_all
  note a = timestamp_ascii [of y m d h mi s, folded t_def]
  have g: "str_get 0 4 t = Some ?Y" "str_get 5 7 t = Some (two m)" "str_get 8 10 t = Some (two d)"
    "str_get 11 13 t = Some (two h)" "str_get 14 16 t = Some (two mi)" "str_get 17 19 t = Some (two s)"
    subgoal by (rule str_get_at [OF _ _ _ a, of "[]"]) (use l in \<open>simp_all add: v\<close>)
    subgoal by (rule str_get_at [OF _ _ _ a, of "?Y @ ''-''"]) (use l in \<open>simp_all add: v\<close>)
    subgoal by (rule str_get_at [OF _ _ _ a, of "?Y @ ''-'' @ two m @ ''-''"]) (use l in \<open>simp_all add: v\<close>)
    subgoal by (rule str_get_at [OF _ _ _ a, of "?Y @ ''-'' @ two m @ ''-'' @ two d @ ''T''"]) (use l in \<open>simp_all add: v\<close>)
    subgoal by (rule str_get_at [OF _ _ _ a, of "?Y @ ''-'' @ two m @ ''-'' @ two d @ ''T'' @ two h @ '':''"])
        (use l in \<open>simp_all add: v\<close>)
    subgoal by (rule str_get_at [OF _ _ _ a, of "?Y @ ''-'' @ two m @ ''-'' @ two d @ ''T'' @ two h @ '':'' @ two mi @ '':''"])
        (use l in \<open>simp_all add: v\<close>)
    done
  then show "Option.bind (str_get 0 4 t) parse_i64 = Some (int y)" "Option.bind (str_get 5 7 t) parse_u32 = Some m"
    "Option.bind (str_get 8 10 t) parse_u32 = Some d" "Option.bind (str_get 11 13 t) parse_u32 = Some h"
    "Option.bind (str_get 14 16 t) parse_u32 = Some mi" "Option.bind (str_get 17 19 t) parse_u32 = Some s"
    using Y T assms(2-6) by simp_all
qed

text \<open>
  C40. On the timestamp of a date that exists, the month loop of the JMAP and Graph clients and
  the day count of the command line give the same time, and it falls on that date.
\<close>

theorem timestamps_agree:
  assumes "valid_date (int y, int m, int d)" "1970 \<le> y" "y < 10000" "h < 24" "mi < 60" "s < 60"
  shows "\<exists>t. parse_jmap_date (timestamp y m d h mi s) = Return (Some t) \<and>
    parse_graph_date (timestamp y m d h mi s) = Return (Some t) \<and>
    parse_iso8601 (timestamp y m d h mi s) = Some t \<and>
    civil_from_days (t div 86400) = (int y, int m, int d) \<and> t mod 86400 = int (h * 3600 + mi * 60 + s)"
proof -
  have v: "1 \<le> int m" "int m \<le> 12" "int d \<le> 31"
    using assms(1) month_length_pos(2) [of "int y" "int m"] by (auto simp: valid_date_def)
  have f: "m < 100" "d < 100" "h < 100" "mi < 100" "s < 100" using v assms by simp_all
  note fields = timestamp_fields [OF assms(3) f]
  obtain n where n: "(next_day ^^ n) (1970, 1, 1) = (int y, int m, int d)"
    using reached_valid [OF assms(1)] assms(2) by (auto simp: reached_def)
  have c: "date_days (int y) (int m) (int d) = int n" "civil_to_days (int y) (int m) (int d) = int n"
    using month_loop.count_iterate [OF n] civil_count.count_iterate [OF n] by simp_all
  let ?t = "int n * 86400 + int h * 3600 + int mi * 60 + int s"
  have "unix_of_fields (int y) (int m) (int d) (int h) (int mi) (int s) = Return ?t"
    unfolding unix_of_fields_def leap_code add_months_start [OF v(1,2)] bind_outcome_simps
    using c(1) by (simp only: date_days_def)
  then have "parse_jmap_date (timestamp y m d h mi s) = Return (Some ?t)"
    by (simp add: parse_jmap_date_def fields)
  moreover have "parse_iso8601 (timestamp y m d h mi s) = Some ?t"
    using c(2) by (simp add: parse_iso8601_def fields civil_to_unix_def)
  moreover have "?t div 86400 = int n" "?t mod 86400 = int (h * 3600 + mi * 60 + s)"
    using assms(4-6) int_div_pos_eq [of ?t 86400 "int n" "int (h * 3600 + mi * 60 + s)"]
      int_mod_pos_eq [of ?t 86400 "int n" "int (h * 3600 + mi * 60 + s)"] by simp_all
  moreover have "civil_from_days (int n) = (int y, int m, int d)" using n by (simp add: civil_iterate)
  ultimately show ?thesis by (auto simp: parse_graph_date_def)
qed

lemma timestamps_agree_witness:
  "\<exists>t. parse_jmap_date (timestamp 2024 2 29 23 59 59) = Return (Some t) \<and> civil_from_days (t div 86400) = (2024, 2, 29)"
proof -
  have "valid_date (int 2024, int 2, int 29)" by code_simp
  then show ?thesis using timestamps_agree [of 2024 2 29 23 59 59] by auto
qed

text \<open>A month past 13 is no date, but reads past the table of months.\<close>

lemma late_month_panics:
  "parse_jmap_date ''2026-14-01T00:00:00Z'' = Panic" "parse_iso8601 ''2026-14-01T00:00:00Z'' \<noteq> None"
proof -
  have "timestamp 2026 14 1 0 0 0 = ''2026-14-01T00:00:00Z''" by code_simp
  then have f: "int_field 0 4 ''2026-14-01T00:00:00Z'' = Some 2026" "int_field 5 7 ''2026-14-01T00:00:00Z'' = Some 14"
    "int_field 8 10 ''2026-14-01T00:00:00Z'' = Some 1" "int_field 11 13 ''2026-14-01T00:00:00Z'' = Some 0"
    "int_field 14 16 ''2026-14-01T00:00:00Z'' = Some 0" "int_field 17 19 ''2026-14-01T00:00:00Z'' = Some 0"
    using timestamp_fields [of 2026 14 1 0 0 0] by simp_all
  have "add_months l 13 14 x = Panic" for l x by (subst add_months.simps) (simp add: days_in_month_def)
  then have "add_months l 1 14 x = Panic" for l x by (simp add: add_months_turn)
  then show "parse_jmap_date ''2026-14-01T00:00:00Z'' = Panic"
    by (simp add: parse_jmap_date_def f unix_of_fields_def)
  show "parse_iso8601 ''2026-14-01T00:00:00Z'' \<noteq> None"
    using timestamp_fields [of 2026 14 1 0 0 0] \<open>timestamp 2026 14 1 0 0 0 = ''2026-14-01T00:00:00Z''\<close>
    by (simp add: parse_iso8601_def)
qed

end
