(* ===== verification/Jmap_Events.thy ===== *)
theory Jmap_Events
  imports Rust_Panic
begin

text \<open>
  The push stream of a JMAP server (crates/inbx-net/src/jmap.rs, \<^verbatim>\<open>EventStream\<close>): server-sent
  events, cut out of the chunks that the transport delivers. The events do not depend on
  how the stream is cut into chunks.
\<close>

section \<open>The scanner\<close>

definition line_ending_len :: "string \<Rightarrow> nat option" where
  "line_ending_len s =
     (case s of
        [] \<Rightarrow> None
      | c # r \<Rightarrow>
          if c = CHR 0x0D then Some (if r \<noteq> [] \<and> hd r = CHR 0x0A then 2 else 1)
          else if c = CHR 0x0A then Some 1 else None)"

text \<open>Two line endings at the head of the text, with their length; the first such place.\<close>

definition blank_here :: "string \<Rightarrow> nat option" where
  "blank_here s =
     (case line_ending_len s of
        None \<Rightarrow> None
      | Some a \<Rightarrow> (case line_ending_len (drop a s) of None \<Rightarrow> None | Some b \<Rightarrow> Some (a + b)))"

fun blank_line :: "string \<Rightarrow> (nat \<times> nat) option" where
  "blank_line [] = None"
| "blank_line (c # s) =
     (case blank_here (c # s) of
        Some d \<Rightarrow> Some (0, d)
      | None \<Rightarrow> (case blank_line s of Some (e, d) \<Rightarrow> Some (e + 1, d) | None \<Rightarrow> None))"

definition find_blank_line :: "string \<Rightarrow> nat \<Rightarrow> (nat \<times> nat) option" where
  "find_blank_line s start =
     (let i = start - 3
      in case blank_line (drop i s) of Some (e, d) \<Rightarrow> Some (e + i, d) | None \<Rightarrow> None)"

lemma line_ending_len_bound: "line_ending_len s = Some a \<Longrightarrow> 0 < a \<and> a \<le> length s \<and> a \<le> 2"
  by (cases s) (auto simp: line_ending_len_def Suc_le_eq split: if_splits)

lemma blank_here_bound: "blank_here s = Some d \<Longrightarrow> 0 < d \<and> d \<le> length s"
  by (auto simp: blank_here_def split: option.splits dest!: line_ending_len_bound)

lemma blank_line_bound: "blank_line s = Some (e, d) \<Longrightarrow> 0 < d \<and> e + d \<le> length s"
  by (induction s arbitrary: e)
    (auto split: option.splits simp del: length_Cons simp: length_Cons dest!: blank_here_bound)

lemma find_blank_line_bound:
  assumes "find_blank_line s start = Some (e, d)"
  shows "0 < d \<and> e + d \<le> length s"
  using assms blank_line_bound [of "drop (start - 3) s"]
  by (force simp: find_blank_line_def Let_def split: option.splits)

section \<open>Records\<close>

definition add_data :: "string \<Rightarrow> string \<Rightarrow> string" where
  "add_data line data =
     (if prefix ''data:'' line
      then (if data = [] then [] else data @ [CHR 0x0A]) @ trim_start (drop 5 line)
      else data)"

definition event_data :: "string \<Rightarrow> string" where
  "event_data record_bytes =
     fold add_data
       (lines (replace_char (CHR 0x0D) [CHR 0x0A] (replace_sub crlf [CHR 0x0A] (from_utf8_lossy record_bytes)))) []"

datatype chunk = Chunk string | Broken

datatype sse_error = Record_Too_Large | Transport

record event_stream =
  es_buf :: string
  scan_from :: nat

definition MAX_SSE_RECORD_BYTES :: nat where
  "MAX_SSE_RECORD_BYTES = 1024 * 1024"

fun chunk_bytes :: "chunk \<Rightarrow> string" where
  "chunk_bytes (Chunk c) = c"
| "chunk_bytes Broken = []"

text \<open>The stream of chunks ends when the server closes the connection.\<close>

function next_event ::
  "chunk list \<Rightarrow> event_stream \<Rightarrow> (sse_error + string option) \<times> event_stream \<times> chunk list" where
  "next_event cs st =
     (case find_blank_line (es_buf st) (scan_from st) of
        Some (e, d) \<Rightarrow>
          if MAX_SSE_RECORD_BYTES < e then (Inl Record_Too_Large, st, cs)
          else let st' = \<lparr>es_buf = drop (e + d) (es_buf st), scan_from = 0\<rparr>;
                   data = event_data (take e (es_buf st))
               in if data \<noteq> [] then (Inr (Some data), st', cs) else next_event cs st'
      | None \<Rightarrow>
          (case cs of
             [] \<Rightarrow> (Inr None, st, [])
           | Broken # cs' \<Rightarrow> (Inl Transport, st, cs')
           | Chunk c # cs' \<Rightarrow>
               let st' = \<lparr>es_buf = es_buf st @ c, scan_from = length (es_buf st) - 3\<rparr>
               in if find_blank_line (es_buf st') (scan_from st') = None \<and> MAX_SSE_RECORD_BYTES < length (es_buf st')
                  then (Inl Record_Too_Large, st', cs')
                  else next_event cs' st'))"
  by pat_completeness auto
termination
  by (relation "measure (\<lambda>(cs, st). (\<Sum>c\<leftarrow>cs. length (chunk_bytes c) + 1) + length (es_buf st))")
    (auto dest: find_blank_line_bound)

declare next_event.simps [simp del]

text \<open>Everything the stream delivers until it ends or fails: the payloads of \<^verbatim>\<open>inbx jmap push\<close>.\<close>

lemma next_event_progress:
  "next_event cs st = (Inr (Some x), st', cs') \<Longrightarrow>
     (\<Sum>c\<leftarrow>cs'. length (chunk_bytes c) + 1) + length (es_buf st') <
     (\<Sum>c\<leftarrow>cs. length (chunk_bytes c) + 1) + length (es_buf st)"
proof (induction cs st rule: next_event.induct)
  case (1 cs st)
  show ?case
  proof (cases "find_blank_line (es_buf st) (scan_from st)")
    case None
    then show ?thesis using 1 by (fastforce simp: next_event.simps [of cs st] Let_def
        split: list.splits chunk.splits if_splits)
  next
    case (Some p)
    obtain e d where p: "p = (e, d)" by (cases p)
    note b = find_blank_line_bound [OF Some [unfolded p]]
    show ?thesis
    proof (cases "event_data (take e (es_buf st)) = []")
      case True
      then show ?thesis using 1 Some p b
        by (fastforce simp: next_event.simps [of cs st] Let_def split: if_splits)
    next
      case False
      then show ?thesis using 1(3) Some p b
        by (auto simp: next_event.simps [of cs st] Let_def split: if_splits)
    qed
  qed
qed

function event_loop :: "chunk list \<Rightarrow> event_stream \<Rightarrow> string list \<times> sse_error option" where
  "event_loop cs st =
     (case next_event cs st of
        (Inl e, _) \<Rightarrow> ([], Some e)
      | (Inr None, _) \<Rightarrow> ([], None)
      | (Inr (Some x), st', cs') \<Rightarrow> (let (xs, r) = event_loop cs' st' in (x # xs, r)))"
  by pat_completeness auto
termination
  by (relation "measure (\<lambda>(cs, st). (\<Sum>c\<leftarrow>cs. length (chunk_bytes c) + 1) + length (es_buf st))")
    (auto dest!: next_event_progress [OF sym])

declare event_loop.simps [simp del]

section \<open>The events of a whole text\<close>

function sse_events :: "string \<Rightarrow> string list" where
  "sse_events s =
     (case blank_line s of
        None \<Rightarrow> []
      | Some (e, d) \<Rightarrow>
          (if event_data (take e s) = [] then [] else [event_data (take e s)]) @ sse_events (drop (e + d) s))"
  by pat_completeness auto
termination by (relation "measure length") (auto dest: blank_line_bound)

declare sse_events.simps [simp del]

lemma lossy_head:
  assumes "s = [] \<or> hd s \<noteq> CHR 0x0A"
  shows "from_utf8_lossy s = [] \<or> hd (from_utf8_lossy s) \<noteq> CHR 0x0A"
proof (cases s)
  case (Cons c r)
  have "0 < snd (utf8_step (c # r))" by (rule utf8_step_pos)
  then show ?thesis using assms Cons
    by (auto simp: from_utf8_lossy.simps [of "c # r"] Let_def replacement_def case_prod_beta hd_append take_Cons')
qed simp


definition normalized :: "string \<Rightarrow> string" where
  "normalized s = replace_char (CHR 0x0D) [CHR 0x0A] (replace_sub crlf [CHR 0x0A] (from_utf8_lossy s))"

lemma normalized_lf: "normalized (CHR 0x0A # s) = CHR 0x0A # normalized s"
  by (simp add: normalized_def from_utf8_lossy_ascii byte_def crlf_def replace_char_def)

lemma normalized_cr:
  assumes "s = [] \<or> hd s \<noteq> CHR 0x0A"
  shows "normalized (CHR 0x0D # s) = CHR 0x0A # normalized s"
  using lossy_head [OF assms]
  by (cases "from_utf8_lossy s")
    (auto simp: normalized_def from_utf8_lossy_ascii byte_def crlf_def replace_char_def)

lemma normalized_crlf: "normalized (CHR 0x0D # CHR 0x0A # s) = CHR 0x0A # normalized s"
  by (simp add: normalized_def from_utf8_lossy_ascii byte_def crlf_def replace_char_def)

lemma event_data_blank: "normalized s = CHR 0x0A # normalized t \<Longrightarrow> event_data s = event_data t"
  using lines_Cons [of "[]" "normalized t"]
  by (simp add: event_data_def normalized_def [symmetric] add_data_def strip_cr_def)

lemma event_data_Nil [simp]: "event_data [] = []"
  by (simp add: event_data_def replace_char_def)

text \<open>A line ending at the head of the text changes nothing.\<close>

lemma sse_events_record:
  assumes "blank_line s = Some (e + k, d)" "blank_line t = Some (e, d)"
    "event_data (take (e + k) s) = event_data (take e t)" "drop k s = t"
  shows "sse_events s = sse_events t"
proof -
  have "drop (e + k + d) s = drop (e + d) t" using assms(4) by (auto simp: ac_simps)
  then show ?thesis using assms(1-3) by (simp add: sse_events.simps [of s] sse_events.simps [of t])
qed

lemma sse_events_shift:
  assumes "drop k s = t" "blank_line s = (case blank_line t of Some (e, d) \<Rightarrow> Some (e + k, d) | None \<Rightarrow> None)"
    "\<And>e. event_data (take (e + k) s) = event_data (take e t)"
  shows "sse_events s = sse_events t"
proof (cases "blank_line t")
  case None
  then show ?thesis using assms(2) by (simp add: sse_events.simps [of s] sse_events.simps [of t])
next
  case (Some p)
  then show ?thesis using sse_events_record [OF _ _ assms(3) assms(1)] assms(2) by (cases p) simp
qed

lemma sse_events_blank:
  assumes "blank_here s = Some d"
  shows "sse_events s = sse_events (drop d s)"
proof -
  have "blank_line s = Some (0, d)" using assms blank_here_bound [OF assms] by (cases s) auto
  then show ?thesis by (simp add: sse_events.simps [of s])
qed



lemma blank_line_one:
  assumes "line_ending_len s = Some a" "blank_here s = None"
  shows "blank_line s = (case blank_line (drop a s) of Some (e, d) \<Rightarrow> Some (e + a, d) | None \<Rightarrow> None)"
proof -
  obtain c r where s: "s = c # r" using assms(1) by (cases s) (auto simp: line_ending_len_def)
  show ?thesis
  proof (cases "c = CHR 0x0D \<and> r \<noteq> [] \<and> hd r = CHR 0x0A")
    case True
    then obtain r' where r: "r = CHR 0x0A # r'" by (cases r) auto
    with True s assms(1) have "a = 2" by (simp add: line_ending_len_def)
    moreover from this have "blank_here r = None"
      using assms s r by (auto simp: blank_here_def line_ending_len_def split: option.splits)
    ultimately show ?thesis using assms(2) s r by (auto split: option.splits)
  next
    case False
    with s assms(1) have "a = 1" by (auto simp: line_ending_len_def split: if_splits)
    then show ?thesis using assms(2) s by (auto split: option.splits)
  qed
qed

lemma event_data_one:
  assumes "line_ending_len s = Some a"
  shows "event_data (take (e + a) s) = event_data (take e (drop a s))"
proof -
  obtain c r where s: "s = c # r" using assms by (cases s) (auto simp: line_ending_len_def)
  show ?thesis
  proof (cases "c = CHR 0x0D \<and> r \<noteq> [] \<and> hd r = CHR 0x0A")
    case True
    then obtain r' where r: "r = CHR 0x0A # r'" by (cases r) auto
    with True s assms have "a = 2" by (simp add: line_ending_len_def)
    then show ?thesis using True s r normalized_crlf [of "take e r'"] by (auto intro!: event_data_blank)
  next
    case False
    with s assms have a: "a = 1" and c: "c = CHR 0x0D \<or> c = CHR 0x0A"
      by (auto simp: line_ending_len_def split: if_splits)
    have "c = CHR 0x0D \<Longrightarrow> take e r = [] \<or> hd (take e r) \<noteq> CHR 0x0A"
      using False by (cases r) (auto simp: take_Cons')
    then show ?thesis using a c s by (auto intro!: event_data_blank simp: normalized_cr normalized_lf)
  qed
qed

lemma sse_events_line_ending:
  "line_ending_len s = Some a \<Longrightarrow> sse_events s = sse_events (drop a s)"
proof (induction "length s" arbitrary: s a rule: less_induct)
  case less
  show ?case
  proof (cases "line_ending_len (drop a s)")
    case (Some b)
    then have "blank_here s = Some (a + b)" using less.prems by (simp add: blank_here_def)
    then have "sse_events s = sse_events (drop b (drop a s))"
      by (simp add: sse_events_blank add.commute)
    moreover have "length (drop a s) < length s" using line_ending_len_bound [OF less.prems] by auto
    ultimately show ?thesis using less.hyps Some by metis
  next
    case None
    then have "blank_here s = None" using less.prems by (simp add: blank_here_def)
    from sse_events_shift [OF refl blank_line_one [OF less.prems this] event_data_one [OF less.prems]]
    show ?thesis .
  qed
qed

section \<open>More bytes\<close>

lemma line_ending_len_append:
  assumes "line_ending_len s = Some a"
  shows "line_ending_len (s @ t) =
    Some (if a = length s \<and> s \<noteq> [] \<and> last s = CHR 0x0D \<and> t \<noteq> [] \<and> hd t = CHR 0x0A then a + 1 else a)"
proof (cases s)
  case (Cons c r)
  then show ?thesis using assms by (cases r) (auto simp: line_ending_len_def hd_append split: if_splits)
qed (use assms in \<open>simp add: line_ending_len_def\<close>)

lemma line_ending_len_none: "s \<noteq> [] \<Longrightarrow> line_ending_len s = None \<Longrightarrow> line_ending_len (s @ t) = None"
  by (cases s) (auto simp: line_ending_len_def split: if_splits)

lemma blank_here_append:
  assumes "blank_here s = Some d"
  shows "blank_here (s @ t) = Some d \<or>
    d = length s \<and> t \<noteq> [] \<and> hd t = CHR 0x0A \<and> blank_here (s @ t) = Some (d + 1)"
proof -
  obtain a b where a: "line_ending_len s = Some a" and b: "line_ending_len (drop a s) = Some b" and d: "d = a + b"
    using assms by (auto simp: blank_here_def split: option.splits)
  have "a < length s" using line_ending_len_bound [OF b] by (simp only: length_drop) linarith
  moreover from this have "line_ending_len (s @ t) = Some a" using line_ending_len_append [OF a, of t] by simp
  ultimately show ?thesis using line_ending_len_append [OF b, of t] d by (auto simp: blank_here_def)
qed

lemma blank_here_none:
  assumes "blank_here s = None" "3 \<le> length s"
  shows "blank_here (s @ t) = None"
proof (cases "line_ending_len s")
  case None
  then have "line_ending_len (s @ t) = None" using assms(2) by (intro line_ending_len_none) auto
  then show ?thesis by (simp add: blank_here_def)
next
  case (Some a)
  then have a: "a < length s" using line_ending_len_bound [OF Some] assms(2) by simp
  then have "line_ending_len (drop a s) = None" using assms(1) Some by (auto simp: blank_here_def split: option.splits)
  then have "line_ending_len (drop a s @ t) = None" using a by (intro line_ending_len_none) auto
  moreover have "line_ending_len (s @ t) = Some a" using line_ending_len_append [OF Some, of t] a by simp
  ultimately show ?thesis using a by (simp add: blank_here_def)
qed

lemma blank_line_append:
  "blank_line s = Some (e, d) \<Longrightarrow> blank_line (s @ t) = Some (e, d) \<or>
    e + d = length s \<and> t \<noteq> [] \<and> hd t = CHR 0x0A \<and> blank_line (s @ t) = Some (e, d + 1)"
proof (induction s arbitrary: e)
  case (Cons c s)
  show ?case
  proof (cases "blank_here (c # s)")
    case None
    then obtain e' where e': "blank_line s = Some (e', d)" "e = e' + 1" using Cons.prems by (auto split: option.splits)
    show ?thesis
    proof (cases "3 \<le> length (c # s)")
      case True
      then have "blank_here (c # s @ t) = None" using blank_here_none [OF None, of t] by simp
      then show ?thesis using Cons.IH [OF e'(1)] e' by auto
    next
      case False
      with blank_line_bound [OF e'(1)] have l: "length s = 1" "e' = 0" "d = 1" by auto
      then obtain x where s: "s = [x]" by (cases s) auto
      with e' l show ?thesis by (auto simp: blank_here_def split: option.splits dest!: line_ending_len_bound)
    qed
  next
    case (Some k)
    then show ?thesis using Cons.prems blank_here_append [OF Some, of t] by auto
  qed
qed simp

text \<open>A record that is complete in the buffer is the next record of the stream.\<close>

lemma sse_events_append:
  assumes "blank_line s = Some (e, d)"
  shows "sse_events (s @ t) =
    (if event_data (take e s) = [] then [] else [event_data (take e s)]) @ sse_events (drop (e + d) s @ t)"
proof -
  have b: "e + d \<le> length s" using blank_line_bound [OF assms] by simp
  from blank_line_append [OF assms, of t] show ?thesis
  proof
    assume "blank_line (s @ t) = Some (e, d)"
    then show ?thesis using b by (simp add: sse_events.simps [of "s @ t"])
  next
    assume *: "e + d = length s \<and> t \<noteq> [] \<and> hd t = CHR 0x0A \<and> blank_line (s @ t) = Some (e, d + 1)"
    then obtain t' where t: "t = CHR 0x0A # t'" by (cases t) auto
    then have "sse_events t = sse_events t'" using sse_events_line_ending [of t 1] by (simp add: line_ending_len_def)
    moreover have "sse_events (s @ t) =
        (if event_data (take e s) = [] then [] else [event_data (take e s)]) @ sse_events t'"
      using * t by (subst sse_events.simps) auto
    ultimately show ?thesis using * t by simp
  qed
qed

text \<open>The scan may start where the last one ended, less the three bytes a delimiter may hang over.\<close>

lemma blank_line_skip:
  "blank_line s = None \<Longrightarrow> i = 0 \<or> i + 2 \<le> length s \<Longrightarrow>
    blank_line (s @ t) = (case blank_line (drop i (s @ t)) of Some (e, d) \<Rightarrow> Some (e + i, d) | None \<Rightarrow> None)"
proof (induction i arbitrary: s)
  case (Suc i)
  then obtain c s' where s: "s = c # s'" by (cases s) auto
  from Suc.prems s have h: "blank_here (c # s') = None" "blank_line s' = None" by (auto split: option.splits)
  moreover have "blank_here (c # s' @ t) = None" using blank_here_none [OF h(1), of t] Suc.prems s by simp
  moreover have "i = 0 \<or> i + 2 \<le> length s'" using Suc.prems s by simp
  ultimately show ?case using Suc.IH [of s'] s by (auto split: option.splits)
qed (auto split: option.splits)

lemma find_blank_line_resumes:
  assumes "blank_line s = None"
  shows "find_blank_line (s @ t) (length s - 3) = blank_line (s @ t)"
proof -
  have "length s - 3 - 3 = 0 \<or> length s - 3 - 3 + 2 \<le> length s" by linarith
  from blank_line_skip [OF assms this, of t] show ?thesis unfolding find_blank_line_def Let_def by (rule sym)
qed

lemma find_blank_line_start [simp]: "find_blank_line s 0 = blank_line s"
  by (auto simp: find_blank_line_def split: option.splits)


lemma blank_line_late:
  assumes "blank_line s = None" "blank_line (s @ t) = Some (e, d)"
  shows "length s \<le> e + 2"
proof (rule ccontr)
  assume "\<not> length s \<le> e + 2"
  then have "e + 1 + 2 \<le> length s" by simp
  then show False using blank_line_skip [OF assms(1), of "e + 1" t] assms(2)
    by (auto split: option.splits)
qed

section \<open>Records\<close>

abbreviation line_end :: "char \<Rightarrow> bool" where
  "line_end c \<equiv> c = CHR 0x0D \<or> c = CHR 0x0A"

function sse_records :: "string \<Rightarrow> string list" where
  "sse_records s =
     (let u = dropWhile line_end s
      in case blank_line u of None \<Rightarrow> [u] | Some (e, d) \<Rightarrow> take e u # sse_records (drop (e + d) u))"
  by pat_completeness auto
termination
proof (relation "measure length")
  fix s u :: string and p e d
  assume u: "u = dropWhile line_end s" and p: "blank_line u = Some p" "(e, d) = p"
  then have "0 < d \<and> e + d \<le> length u" using blank_line_bound by metis
  moreover have "length u \<le> length s" unfolding u by (rule length_dropWhile_le)
  ultimately show "(drop (e + d) u, s) \<in> measure length" by auto
qed simp

declare sse_records.simps [simp del]

lemma drop_line_ending:
  "line_ending_len s = Some a \<Longrightarrow> dropWhile line_end (drop a s) = dropWhile line_end s"
  by (cases s) (auto simp: line_ending_len_def drop_Suc neq_Nil_conv numeral_2_eq_2 split: if_splits)

lemma line_ending_none: "line_ending_len s = None \<longleftrightarrow> s = [] \<or> \<not> line_end (hd s)"
  by (cases s) (auto simp: line_ending_len_def split: if_splits)

lemma strip_line_endings: "sse_events (dropWhile line_end s) = sse_events s"
proof (induction "length s" arbitrary: s rule: less_induct)
  case less
  show ?case
  proof (cases "line_ending_len s")
    case None
    then have "dropWhile line_end s = s" by (cases s) (auto simp: line_ending_none)
    then show ?thesis by simp
  next
    case (Some a)
    then have "length (drop a s) < length s" using line_ending_len_bound [OF Some] by simp linarith
    from less [OF this] Some show ?thesis by (simp add: drop_line_ending sse_events_line_ending)
  qed
qed

text \<open>The events are the payloads of the complete records that have one.\<close>

lemma sse_events_records: "sse_events s = filter (\<lambda>x. x \<noteq> []) (map event_data (butlast (sse_records s)))"
proof (induction s rule: sse_records.induct)
  case (1 s)
  let ?u = "dropWhile line_end s"
  show ?case
  proof (cases "blank_line ?u")
    case None
    then show ?thesis by (simp add: sse_records.simps [of s] strip_line_endings [of s, symmetric] sse_events.simps [of ?u])
  next
    case (Some p)
    obtain e d where p: "p = (e, d)" by (cases p)
    have "sse_records (drop (e + d) ?u) \<noteq> []" by (subst sse_records.simps) (auto simp: Let_def split: option.split)
    then show ?thesis using 1 [OF refl Some p [symmetric]] Some p
      by (simp add: sse_records.simps [of s] Let_def strip_line_endings [of s, symmetric] sse_events.simps [of ?u])
  qed
qed


section \<open>Chunks do not matter\<close>

text \<open>Every record is short enough for the limit, whatever line endings stand before it.\<close>

definition small_records :: "string \<Rightarrow> bool" where
  "small_records s \<longleftrightarrow> list_all (\<lambda>r. length r + 4 \<le> MAX_SSE_RECORD_BYTES) (sse_records s)"

lemma small_records_strip [simp]: "small_records (dropWhile line_end s) = small_records s"
  by (simp add: small_records_def sse_records.simps [of s] sse_records.simps [of "dropWhile line_end s"])

lemma small_records_line_ending: "line_ending_len s = Some a \<Longrightarrow> small_records (drop a s) = small_records s"
  by (metis small_records_strip drop_line_ending)

lemma stripped_cases:
  obtains (none) "dropWhile line_end s = s"
    | (one) a where "line_ending_len s = Some a" "dropWhile line_end s = drop a s" "blank_here s = None"
    | (blank) d where "blank_here s = Some d"
proof (cases "line_ending_len s")
  case None
  then have "dropWhile line_end s = s" by (cases s) (auto simp: line_ending_none)
  then show ?thesis by (rule none)
next
  case (Some a)
  show ?thesis
  proof (cases "line_ending_len (drop a s)")
    case None
    then have "dropWhile line_end (drop a s) = drop a s" by (cases "drop a s") (auto simp: line_ending_none)
    then show ?thesis using one [OF Some] drop_line_ending [OF Some] \<open>line_ending_len (drop a s) = None\<close> Some
      by (simp add: blank_here_def)
  next
    case (Some b)
    then show ?thesis using blank [of "a + b"] \<open>line_ending_len s = Some a\<close> by (simp add: blank_here_def)
  qed
qed

lemma small_records_next:
  assumes "small_records s" "blank_line s = Some (e, d)"
  shows "e + 2 \<le> MAX_SSE_RECORD_BYTES \<and> small_records (drop (e + d) s)"
proof (cases s rule: stripped_cases)
  case none
  then show ?thesis using assms blank_line_bound [OF assms(2)]
    by (simp add: small_records_def sse_records.simps [of s] min_absorb2)
next
  case (one a)
  obtain e' where e': "blank_line (drop a s) = Some (e', d)" "e = e' + a"
    using blank_line_one [OF one(1,3)] assms(2) by (auto split: option.splits)
  have "drop (e + d) s = drop (e' + d) (drop a s)" using e'(2) by (simp add: add.commute add.left_commute)
  moreover have "e' + 4 \<le> MAX_SSE_RECORD_BYTES \<and> small_records (drop (e' + d) (drop a s))"
    using assms(1) one(2) e'(1) blank_line_bound [OF e'(1)]
    by (simp add: small_records_def sse_records.simps [of s] min_absorb2)
  ultimately show ?thesis using e'(2) line_ending_len_bound [OF one(1)] by simp
next
  case (blank k)
  then obtain a b where ab: "line_ending_len s = Some a" "line_ending_len (drop a s) = Some b" "k = a + b"
    by (auto simp: blank_here_def split: option.splits)
  have "e = 0" "d = k" using assms(2) blank by (cases s; simp)+
  then show ?thesis
    using assms(1) ab(3) small_records_line_ending [OF ab(1)] small_records_line_ending [OF ab(2)]
    by (simp add: MAX_SSE_RECORD_BYTES_def add.commute)
qed


lemma small_records_rest:
  assumes "small_records s" "blank_line s = None"
  shows "length s \<le> MAX_SSE_RECORD_BYTES"
proof (cases s rule: stripped_cases)
  case none
  then show ?thesis using assms by (simp add: small_records_def sse_records.simps [of s])
next
  case (one a)
  then have "blank_line (drop a s) = None" using blank_line_one [OF one(1,3)] assms(2) by (auto split: option.splits)
  then show ?thesis using assms(1) one line_ending_len_bound [OF one(1)]
    by (simp add: small_records_def sse_records.simps [of s]) linarith
next
  case (blank k)
  then show ?thesis using assms(2) by (cases s) auto
qed

text \<open>A record that the buffer holds completely leaves a stream of small records.\<close>

lemma small_records_drained:
  assumes "small_records (s @ t)" "blank_line s = Some (e, d)"
  shows "e \<le> MAX_SSE_RECORD_BYTES \<and> small_records (drop (e + d) s @ t)"
proof -
  have b: "e + d \<le> length s" using blank_line_bound [OF assms(2)] by simp
  from blank_line_append [OF assms(2), of t] show ?thesis
  proof
    assume "blank_line (s @ t) = Some (e, d)"
    then show ?thesis using small_records_next [OF assms(1)] b by fastforce
  next
    assume *: "e + d = length s \<and> t \<noteq> [] \<and> hd t = CHR 0x0A \<and> blank_line (s @ t) = Some (e, d + 1)"
    then obtain t' where t: "t = CHR 0x0A # t'" by (cases t) auto
    then have "small_records t = small_records t'"
      using small_records_line_ending [of t 1] by (simp add: line_ending_len_def)
    then show ?thesis using small_records_next [OF assms(1), of e "d + 1"] * t by fastforce
  qed
qed

lemma small_records_pending:
  assumes "small_records (s @ t)" "blank_line s = None"
  shows "length s \<le> MAX_SSE_RECORD_BYTES"
proof (cases "blank_line (s @ t)")
  case None
  then show ?thesis using small_records_rest [OF assms(1)] by simp
next
  case (Some p)
  then obtain e d where "blank_line (s @ t) = Some (e, d)" by (cases p) auto
  then show ?thesis using blank_line_late [OF assms(2)] small_records_next [OF assms(1)] by (meson le_trans)
qed

definition resumable :: "event_stream \<Rightarrow> bool" where
  "resumable st \<longleftrightarrow> find_blank_line (es_buf st) (scan_from st) = blank_line (es_buf st)"

lemma next_event_chunk:
  assumes "find_blank_line (es_buf st) (scan_from st) = None"
    "find_blank_line (es_buf st @ c) (length (es_buf st) - 3) \<noteq> None \<or> length (es_buf st @ c) \<le> MAX_SSE_RECORD_BYTES"
  shows "next_event (Chunk c # cs) st = next_event cs \<lparr>es_buf = es_buf st @ c, scan_from = length (es_buf st) - 3\<rparr>"
  using assms by (auto simp: next_event.simps [of "Chunk c # cs" st] Let_def)

lemma next_event_record:
  assumes "find_blank_line (es_buf st) (scan_from st) = Some (e, d)" "e \<le> MAX_SSE_RECORD_BYTES"
  shows "next_event cs st =
    (if event_data (take e (es_buf st)) = [] then next_event cs \<lparr>es_buf = drop (e + d) (es_buf st), scan_from = 0\<rparr>
     else (Inr (Some (event_data (take e (es_buf st)))), \<lparr>es_buf = drop (e + d) (es_buf st), scan_from = 0\<rparr>, cs))"
  using assms by (simp add: next_event.simps [of cs st] Let_def)

definition faithful :: "string list \<Rightarrow> event_stream \<Rightarrow> (sse_error + string option) \<times> event_stream \<times> chunk list \<Rightarrow> bool" where
  "faithful cs st r \<longleftrightarrow>
    (case r of
       (Inl _, _) \<Rightarrow> False
     | (Inr None, _) \<Rightarrow> sse_events (es_buf st @ concat cs) = []
     | (Inr (Some x), st', rest) \<Rightarrow> \<exists>cs'. rest = map Chunk cs' \<and> resumable st' \<and>
         small_records (es_buf st' @ concat cs') \<and>
         sse_events (es_buf st @ concat cs) = x # sse_events (es_buf st' @ concat cs'))"

lemma faithful_cong:
  "sse_events (es_buf st @ concat cs) = sse_events (es_buf st' @ concat cs') \<Longrightarrow> faithful cs st r = faithful cs' st' r"
  by (simp only: faithful_def)

lemma next_event_faithful:
  "small_records (es_buf st @ concat cs) \<Longrightarrow> resumable st \<Longrightarrow> faithful cs st (next_event (map Chunk cs) st)"
proof (induction "(\<Sum>c\<leftarrow>cs. length c + 1) + length (es_buf st)" arbitrary: cs st rule: less_induct)
  case less
  note f = less.prems(2) [unfolded resumable_def]
  show ?case
  proof (cases "blank_line (es_buf st)")
    case None
    show ?thesis
    proof (cases cs)
      case Nil
      then show ?thesis using None f
        by (simp add: faithful_def next_event.simps [of "[]" st] sse_events.simps [of "es_buf st"])
    next
      case (Cons c cs')
      define st' where "st' = \<lparr>es_buf = es_buf st @ c, scan_from = length (es_buf st) - 3\<rparr>"
      have r: "resumable st'" using find_blank_line_resumes [OF None] by (simp add: resumable_def st'_def)
      have m: "small_records (es_buf st' @ concat cs')" using less.prems(1) Cons by (simp add: st'_def)
      have "blank_line (es_buf st @ c) \<noteq> None \<or> length (es_buf st @ c) \<le> MAX_SSE_RECORD_BYTES"
        using small_records_pending [OF m] by (cases "blank_line (es_buf st @ c)") (auto simp: st'_def)
      then have "next_event (map Chunk cs) st = next_event (map Chunk cs') st'"
        using next_event_chunk [of st c] find_blank_line_resumes [OF None, of c] None f Cons
        by (simp add: st'_def)
      moreover have "faithful cs' st' (next_event (map Chunk cs') st')"
        using less.hyps [OF _ m r] Cons by (simp add: st'_def)
      moreover have "faithful cs st r = faithful cs' st' r" for r
        by (rule faithful_cong) (simp add: Cons st'_def)
      ultimately show ?thesis by simp
    qed
  next
    case (Some p)
    then obtain e d where p: "blank_line (es_buf st) = Some (e, d)" by (cases p) auto
    define st' where "st' = \<lparr>es_buf = drop (e + d) (es_buf st), scan_from = 0\<rparr>"
    have m: "e \<le> MAX_SSE_RECORD_BYTES" "small_records (es_buf st' @ concat cs)"
      using small_records_drained [OF less.prems(1) p] by (simp_all add: st'_def)
    have r: "resumable st'" by (simp add: resumable_def st'_def)
    note step = next_event_record [OF _ m(1), of st d "map Chunk cs", folded st'_def] f p
    note events = sse_events_append [OF p, of "concat cs"]
    show ?thesis
    proof (cases "event_data (take e (es_buf st)) = []")
      case True
      have "faithful cs st' (next_event (map Chunk cs) st')"
        by (rule less.hyps [OF _ m(2) r]) (use blank_line_bound [OF p] in \<open>simp add: st'_def; linarith\<close>)
      moreover have "faithful cs st r = faithful cs st' r" for r
        by (rule faithful_cong) (use events True in \<open>simp add: st'_def\<close>)
      ultimately show ?thesis using step True by simp
    next
      case False
      then show ?thesis using step events m(2) r by (auto simp: faithful_def st'_def)
    qed
  qed
qed

definition fresh_stream :: event_stream where
  "fresh_stream = \<lparr>es_buf = [], scan_from = 0\<rparr>"

lemma event_loop_faithful:
  "small_records (es_buf st @ concat cs) \<Longrightarrow> resumable st \<Longrightarrow>
    event_loop (map Chunk cs) st = (sse_events (es_buf st @ concat cs), None)"
proof (induction "sse_events (es_buf st @ concat cs)" arbitrary: cs st)
  case Nil
  then show ?case using next_event_faithful [OF Nil.prems]
    by (auto simp: faithful_def event_loop.simps [of _ st] split: prod.splits sum.splits option.splits)
next
  case (Cons x xs)
  from next_event_faithful [OF Cons.prems] Cons.hyps(2) [symmetric] obtain st' cs' where
    "next_event (map Chunk cs) st = (Inr (Some x), st', map Chunk cs')"
    "resumable st'" "small_records (es_buf st' @ concat cs')" "xs = sse_events (es_buf st' @ concat cs')"
    by (auto simp: faithful_def split: prod.splits sum.splits option.splits)
  then show ?case using Cons.hyps(1) [of st' cs'] Cons.hyps(2) by (simp add: event_loop.simps [of _ st])
qed


text \<open>
  C17. However the bytes of a push stream are cut into chunks, also inside a line ending or a
  delimiter, the loop delivers the payloads of its records in order and no error, as long
  as every record fits the limit.
\<close>

theorem sse_chunking_irrelevant:
  assumes "list_all (\<lambda>r. length r + 4 \<le> MAX_SSE_RECORD_BYTES) (sse_records (concat cs))"
  shows "event_loop (map Chunk cs) fresh_stream =
    (filter (\<lambda>x. x \<noteq> []) (map event_data (butlast (sse_records (concat cs)))), None)"
  using event_loop_faithful [of fresh_stream cs] assms
  by (simp add: fresh_stream_def resumable_def small_records_def sse_events_records)

lemma sse_chunking_irrelevant_witness:
  "event_loop [Chunk (''data: a'' @ [CHR 0x0D]), Chunk [CHR 0x0A, CHR 0x0D], Chunk [CHR 0x0A], Chunk (''data:b'' @ [CHR 0x0A, CHR 0x0A])]
     fresh_stream = ([''a'', ''b''], None)"
proof -
  let ?cs = "[''data: a'' @ [CHR 0x0D], [CHR 0x0A, CHR 0x0D], [CHR 0x0A], ''data:b'' @ [CHR 0x0A, CHR 0x0A]]"
  have r: "sse_records (concat ?cs) = [''data: a'', ''data:b'', []]" by code_simp
  have "map event_data (butlast [''data: a'', ''data:b'', []]) = [''a'', ''b'']" by code_simp
  then show ?thesis using sse_chunking_irrelevant [of ?cs] unfolding r by (simp add: MAX_SSE_RECORD_BYTES_def)
qed

end
