(* ===== verification/Json.thy ===== *)
theory Json
  imports Rust_Str
begin

text \<open>
  JSON values as \<^verbatim>\<open>serde_json\<close> hands them out: looking up members, indexing, reading a value
  at a type. A number that is no integer is kept as its text.
\<close>

datatype json = Null | Bool bool | Num int | Fraction string | Str string | Arr "json list" | Obj "(string \<times> json) list"

text \<open>\<^verbatim>\<open>Value::get\<close> with a string; \<^verbatim>\<open>value[key]\<close> and \<^verbatim>\<open>value[index]\<close>, null where there is nothing.\<close>

fun get_key :: "string \<Rightarrow> json \<Rightarrow> json option" where
  "get_key k (Obj kvs) = map_of kvs k"
| "get_key k _ = None"

definition at_key :: "json \<Rightarrow> string \<Rightarrow> json" where
  "at_key v k = (case get_key k v of Some x \<Rightarrow> x | None \<Rightarrow> Null)"

fun at_index :: "json \<Rightarrow> nat \<Rightarrow> json" where
  "at_index (Arr vs) i = (if i < length vs then vs ! i else Null)"
| "at_index _ i = Null"

fun as_str :: "json \<Rightarrow> string option" where
  "as_str (Str s) = Some s"
| "as_str _ = None"

fun as_bool :: "json \<Rightarrow> bool option" where
  "as_bool (Bool b) = Some b"
| "as_bool _ = None"

fun as_array :: "json \<Rightarrow> json list option" where
  "as_array (Arr vs) = Some vs"
| "as_array _ = None"

fun as_u64 :: "json \<Rightarrow> nat option" where
  "as_u64 (Num n) = (if 0 \<le> n \<and> n < 2 ^ 64 then Some (nat n) else None)"
| "as_u64 _ = None"

text \<open>Deserializing: a member that must be there, one with a default, an option that may be null.\<close>

definition required :: "(json \<Rightarrow> 'a option) \<Rightarrow> string \<Rightarrow> json \<Rightarrow> 'a option" where
  "required f k v = Option.bind (get_key k v) f"

definition defaulted :: "(json \<Rightarrow> 'a option) \<Rightarrow> 'a \<Rightarrow> string \<Rightarrow> json \<Rightarrow> 'a option" where
  "defaulted f x k v = (case get_key k v of None \<Rightarrow> Some x | Some y \<Rightarrow> f y)"

definition nullable :: "(json \<Rightarrow> 'a option) \<Rightarrow> json \<Rightarrow> 'a option option" where
  "nullable f v = (if v = Null then Some None else map_option Some (f v))"

definition as_i64 :: "json \<Rightarrow> int option" where
  "as_i64 v = (case v of Num n \<Rightarrow> if - (2 ^ 63) \<le> n \<and> n < 2 ^ 63 then Some n else None | _ \<Rightarrow> None)"

fun as_object :: "json \<Rightarrow> (string \<times> json) list option" where
  "as_object (Obj kvs) = Some kvs"
| "as_object _ = None"

text \<open>A list whose every element reads at the type.\<close>

fun all_some :: "'a option list \<Rightarrow> 'a list option" where
  "all_some [] = Some []"
| "all_some (x # xs) =
     (case x of None \<Rightarrow> None | Some y \<Rightarrow> (case all_some xs of None \<Rightarrow> None | Some ys \<Rightarrow> Some (y # ys)))"

definition list_of :: "(json \<Rightarrow> 'a option) \<Rightarrow> json \<Rightarrow> 'a list option" where
  "list_of f v = (case v of Arr vs \<Rightarrow> all_some (map f vs) | _ \<Rightarrow> None)"

lemma all_some_map_Some [simp]: "all_some (map Some xs) = Some xs"
  by (induction xs) auto

lemma all_some_length: "all_some xs = Some ys \<Longrightarrow> length ys = length xs"
  by (induction xs arbitrary: ys) (auto split: option.splits)

end
