(* ===== verification/Jmap_Mailboxes.thy ===== *)
theory Jmap_Mailboxes
  imports Json
begin

text \<open>
  Mailboxes of a JMAP server (crates/inbx-net/src/jmap.rs): their tree as paths whose segments
  escape slashes, and finding the mailbox that a folder name means.
\<close>

section \<open>Data\<close>

record mailbox =
  mb_id :: string
  mb_name :: string
  mb_parent :: "string option"
  mb_role :: "string option"
  mb_total :: int
  mb_unread :: int

datatype jmap_error =
    Transport string
  | Server nat string
  | Bad_Json
  | Incomplete_Query
  | Method string string
  | Mailbox_Hierarchy string
  | No_Account_Id

definition mailbox_of_json :: "json \<Rightarrow> mailbox option" where
  "mailbox_of_json v =
     (case (required as_str ''id'' v, required as_str ''name'' v, defaulted (nullable as_str) None ''parentId'' v,
            defaulted (nullable as_str) None ''role'' v, defaulted as_i64 0 ''totalEmails'' v,
            defaulted as_i64 0 ''unreadEmails'' v) of
        (Some i, Some n, Some p, Some r, Some t, Some u) \<Rightarrow>
          Some \<lparr>mb_id = i, mb_name = n, mb_parent = p, mb_role = r, mb_total = t, mb_unread = u\<rparr>
      | _ \<Rightarrow> None)"

section \<open>Segments\<close>

definition slash :: char where
  "slash = CHR ''/''"

definition escape_mailbox_segment :: "string \<Rightarrow> string" where
  "escape_mailbox_segment s =
     replace_char slash [backslash, slash] (replace_char backslash [backslash, backslash] s)"

text \<open>One turn per character; the flag says that the last one was an escaping backslash.\<close>

fun split_segments :: "bool \<Rightarrow> string \<Rightarrow> string list \<Rightarrow> string \<Rightarrow> string + string list" where
  "split_segments escaped seg segs [] =
     (if escaped then Inl ''has a dangling escape''
      else if seg = [] then Inl ''contains an empty segment'' else Inr (segs @ [seg]))"
| "split_segments escaped seg segs (c # cs) =
     (if escaped then
        if c = slash \<or> c = backslash then split_segments False (seg @ [c]) segs cs
        else Inl ''has an invalid escape''
      else if c = backslash then split_segments True seg segs cs
      else if c = slash then
        if seg = [] then Inl ''contains an empty segment'' else split_segments False [] (segs @ [seg]) cs
      else split_segments False (seg @ [c]) segs cs)"

definition split_mailbox_path :: "string \<Rightarrow> jmap_error + string list" where
  "split_mailbox_path path =
     (if path = [] then Inl (Server 0 ''JMAP: mailbox path must not be empty'')
      else case split_segments False [] [] path of
        Inr segs \<Rightarrow> Inr segs
      | Inl e \<Rightarrow> Inl (Server 0 (''JMAP: mailbox path '' @ [CHR 0x27] @ path @ [CHR 0x27] @ '' '' @ e)))"

definition mailbox_path :: "string list \<Rightarrow> string" where
  "mailbox_path names = join [slash] (map escape_mailbox_segment names)"

lemma escape_Nil [simp]: "escape_mailbox_segment [] = []"
  by (simp add: escape_mailbox_segment_def replace_char_def)

lemma escape_Cons [simp]:
  "escape_mailbox_segment (c # s) =
    (if c = backslash then [backslash, backslash] else if c = slash then [backslash, slash] else [c]) @
    escape_mailbox_segment s"
  by (simp add: escape_mailbox_segment_def replace_char_def slash_def backslash_def)

lemma split_segments_escaped:
  "split_segments False seg segs (escape_mailbox_segment s @ r) = split_segments False (seg @ s) segs r"
  by (induction s arbitrary: seg) (auto simp: slash_def backslash_def)

lemma split_segments_path:
  "names \<noteq> [] \<Longrightarrow> [] \<notin> set names \<Longrightarrow>
     split_segments False [] segs (mailbox_path names) = Inr (segs @ names)"
proof (induction names arbitrary: segs)
  case (Cons n names)
  show ?case
  proof (cases names)
    case Nil
    then show ?thesis using Cons.prems split_segments_escaped [of "[]" segs n "[]"]
      by (simp add: mailbox_path_def)
  next
    case (Cons m ms)
    then have "mailbox_path (n # names) = escape_mailbox_segment n @ slash # mailbox_path names"
      by (simp add: mailbox_path_def join_Cons)
    then show ?thesis using Cons.IH [of "segs @ [n]"] Cons.prems Cons
      by (auto simp: split_segments_escaped) (auto simp: slash_def backslash_def)
  qed
qed simp

lemma escape_mailbox_segment_eq_Nil [simp]: "escape_mailbox_segment s = [] \<longleftrightarrow> s = []"
  by (cases s) auto

lemma mailbox_path_not_Nil: "names \<noteq> [] \<Longrightarrow> [] \<notin> set names \<Longrightarrow> mailbox_path names \<noteq> []"
  by (cases names; cases "tl names") (auto simp: mailbox_path_def)

lemma split_mailbox_path_of:
  "names \<noteq> [] \<Longrightarrow> [] \<notin> set names \<Longrightarrow> split_mailbox_path (mailbox_path names) = Inr names"
  by (simp add: split_mailbox_path_def split_segments_path mailbox_path_not_Nil)


section \<open>The tree\<close>

text \<open>The last mailbox with an id is the one that the map of mailboxes holds.\<close>

definition by_id :: "mailbox list \<Rightarrow> string \<Rightarrow> mailbox option" where
  "by_id ms = map_of (map (\<lambda>m. (mb_id m, m)) (rev ms))"

lemma by_id_in: "by_id ms i = Some m \<Longrightarrow> m \<in> set ms \<and> mb_id m = i"
  by (auto simp: by_id_def dest!: map_of_SomeD)

lemma by_id_self: "distinct (map mb_id ms) \<Longrightarrow> m \<in> set ms \<Longrightarrow> by_id ms (mb_id m) = Some m"
  by (auto simp: by_id_def comp_def rev_map [symmetric] intro!: map_of_is_SomeI)

text \<open>
  The path of a mailbox, with the paths known so far. An id that is being visited is taken
  out of the set again when its path is known, so the set is an argument only.
\<close>

function path_for ::
  "mailbox list \<Rightarrow> string set \<Rightarrow> mailbox \<Rightarrow> (string \<rightharpoonup> string) \<Rightarrow> jmap_error + string \<times> (string \<rightharpoonup> string)" where
  "path_for ms visiting m paths =
     (case paths (mb_id m) of
        Some p \<Rightarrow> Inr (p, paths)
      | None \<Rightarrow>
          if mb_id m \<in> visiting then Inl (Mailbox_Hierarchy (''parent cycle at '' @ mb_id m))
          else case mb_parent m of
            None \<Rightarrow> (let p = escape_mailbox_segment (mb_name m) in Inr (p, paths(mb_id m \<mapsto> p)))
          | Some i \<Rightarrow>
              (case by_id ms i of
                 None \<Rightarrow> Inl (Mailbox_Hierarchy (mb_id m @ '' has missing parent '' @ i))
               | Some parent \<Rightarrow>
                   (case path_for ms (insert (mb_id m) visiting) parent paths of
                      Inl e \<Rightarrow> Inl e
                    | Inr (pp, paths') \<Rightarrow>
                        (let p = pp @ [slash] @ escape_mailbox_segment (mb_name m)
                         in Inr (p, paths'(mb_id m \<mapsto> p))))))"
  by pat_completeness auto
termination
proof (relation "measure (\<lambda>(ms, visiting, m, paths).
    2 * card (mb_id ` set ms - visiting) + (if mb_id m \<in> visiting \<union> mb_id ` set ms then 0 else 1))")
  fix ms visiting and m parent :: mailbox and paths :: "string \<rightharpoonup> string" and i
  assume v: "mb_id m \<notin> visiting" and p: "by_id ms i = Some parent"
  let ?S = "mb_id ` set ms"
  have "mb_id parent \<in> ?S" using by_id_in [OF p] by auto
  moreover have "mb_id m \<in> ?S \<Longrightarrow> card (?S - insert (mb_id m) visiting) < card (?S - visiting)"
    using v by (intro psubset_card_mono) auto
  moreover have "mb_id m \<notin> ?S \<Longrightarrow> ?S - insert (mb_id m) visiting = ?S - visiting" by auto
  ultimately show "((ms, insert (mb_id m) visiting, parent, paths), (ms, visiting, m, paths)) \<in>
      measure (\<lambda>(ms, visiting, m, paths).
        2 * card (mb_id ` set ms - visiting) + (if mb_id m \<in> visiting \<union> mb_id ` set ms then 0 else 1))"
    using v by (cases "mb_id m \<in> ?S") auto
qed simp

declare path_for.simps [simp del]

fun collect_paths :: "mailbox list \<Rightarrow> mailbox list \<Rightarrow> (string \<rightharpoonup> string) \<Rightarrow> jmap_error + (string \<rightharpoonup> string)" where
  "collect_paths ms [] paths = Inr paths"
| "collect_paths ms (m # rest) paths =
     (case path_for ms {} m paths of Inl e \<Rightarrow> Inl e | Inr (_, paths') \<Rightarrow> collect_paths ms rest paths')"

definition mailbox_paths :: "mailbox list \<Rightarrow> jmap_error + (string \<rightharpoonup> string)" where
  "mailbox_paths ms = collect_paths ms ms Map.empty"

definition resolve_mailbox :: "mailbox list \<Rightarrow> string \<Rightarrow> jmap_error + mailbox" where
  "resolve_mailbox ms name =
     (case mailbox_paths ms of
        Inl e \<Rightarrow> Inl e
      | Inr paths \<Rightarrow>
          (case filter (\<lambda>m. case paths (mb_id m) of Some p \<Rightarrow> eq_ignore_ascii_case p name | None \<Rightarrow> False) ms of
             [m] \<Rightarrow> Inr m
           | _ # _ \<Rightarrow> Inl (Mailbox_Hierarchy (''ambiguous mailbox path '' @ [CHR 0x27] @ name @ [CHR 0x27]))
           | [] \<Rightarrow>
               let role = trim_start_matches (\<lambda>c. c = backslash) name
               in (case filter (\<lambda>m. case mb_role m of Some r \<Rightarrow> eq_ignore_ascii_case r role | None \<Rightarrow> False) ms of
                     [m] \<Rightarrow> Inr m
                   | [] \<Rightarrow> Inl (Server 0 (''JMAP: no mailbox matching '' @ [CHR 0x27] @ name @ [CHR 0x27]))
                   | _ \<Rightarrow> Inl (Mailbox_Hierarchy (''ambiguous role alias '' @ [CHR 0x27] @ name @ [CHR 0x27])))))"

section \<open>Paths of rooted mailboxes\<close>

text \<open>The names from a root down to a mailbox: the contract of the paths.\<close>

inductive below :: "mailbox list \<Rightarrow> mailbox \<Rightarrow> string list \<Rightarrow> bool" for ms where
  root: "mb_parent m = None \<Longrightarrow> below ms m [mb_name m]"
| child: "mb_parent m = Some i \<Longrightarrow> by_id ms i = Some p \<Longrightarrow> below ms p ns \<Longrightarrow> below ms m (ns @ [mb_name m])"

inductive_cases belowE: "below ms m ns"

lemma below_not_Nil: "below ms m ns \<Longrightarrow> ns \<noteq> []"
  by (erule below.cases) auto

lemma below_unique: "below ms m ns \<Longrightarrow> below ms m ns' \<Longrightarrow> ns' = ns"
proof (induction arbitrary: ns' rule: below.induct)
  case (root m)
  from root.prems show ?case by (cases rule: below.cases) (use root.hyps in auto)
next
  case (child m i p ns)
  from child.prems show ?case
  proof (cases rule: below.cases)
    case (child i' p' ns'')
    then have "p' = p" using \<open>mb_parent m = Some i\<close> \<open>by_id ms i = Some p\<close> by simp
    then show ?thesis using child \<open>\<And>ns'. below ms p ns' \<Longrightarrow> ns' = ns\<close> by simp
  qed (use child.hyps in simp)
qed

definition paths_ok :: "mailbox list \<Rightarrow> (string \<rightharpoonup> string) \<Rightarrow> bool" where
  "paths_ok ms paths \<longleftrightarrow>
     (\<forall>m p. by_id ms (mb_id m) = Some m \<longrightarrow> paths (mb_id m) = Some p \<longrightarrow>
        (\<exists>ns. below ms m ns \<and> p = mailbox_path ns))"

lemma mailbox_path_snoc: "ns \<noteq> [] \<Longrightarrow> mailbox_path (ns @ [n]) = mailbox_path ns @ [slash] @ escape_mailbox_segment n"
proof (induction ns)
  case (Cons a ns)
  then show ?case by (cases ns) (auto simp: mailbox_path_def join_Cons)
qed simp

lemma paths_okI:
  assumes "paths_ok ms paths" "by_id ms (mb_id m) = Some m" "below ms m ns"
  shows "paths_ok ms (paths(mb_id m \<mapsto> mailbox_path ns))"
  unfolding paths_ok_def
proof (intro allI impI)
  fix m' p
  assume m': "by_id ms (mb_id m') = Some m'" "(paths(mb_id m \<mapsto> mailbox_path ns)) (mb_id m') = Some p"
  show "\<exists>ns. below ms m' ns \<and> p = mailbox_path ns"
  proof (cases "mb_id m' = mb_id m")
    case True
    then have "Some m' = Some m" using m'(1) assms(2) by metis
    then have "m' = m" by simp
    moreover have "p = mailbox_path ns" using m'(2) True by simp
    ultimately show ?thesis using assms(3) by blast
  next
    case False
    then have "paths (mb_id m') = Some p" using m'(2) by simp
    with assms(1) [unfolded paths_ok_def, rule_format, OF m'(1)] show ?thesis .
  qed
qed

text \<open>The result names the mailbox; the paths found before stay.\<close>

definition names_it :: "mailbox list \<Rightarrow> mailbox \<Rightarrow> (string \<rightharpoonup> string) \<Rightarrow> string \<Rightarrow> (string \<rightharpoonup> string) \<Rightarrow> bool" where
  "names_it ms m paths p paths' \<longleftrightarrow>
     (\<exists>ns. below ms m ns \<and> p = mailbox_path ns) \<and> paths_ok ms paths' \<and> paths' (mb_id m) = Some p \<and>
     dom paths \<subseteq> dom paths'"

lemma names_it_new:
  assumes "paths_ok ms paths'" "dom paths \<subseteq> dom paths'" "by_id ms (mb_id m) = Some m"
    "below ms m ns" "p = mailbox_path ns"
  shows "names_it ms m paths p (paths'(mb_id m \<mapsto> p))"
  using assms paths_okI [OF assms(1,3,4)] by (auto simp: names_it_def)

lemma path_for_sound:
  "path_for ms visiting m paths = Inr (p, paths') \<Longrightarrow> paths_ok ms paths \<Longrightarrow> by_id ms (mb_id m) = Some m \<Longrightarrow>
    names_it ms m paths p paths'"
proof (induction ms visiting m paths arbitrary: p paths' rule: path_for.induct)
  case (1 ms visiting m paths)
  note eq = 1(2) [unfolded path_for.simps [of ms visiting m paths]]
  show ?case
  proof (cases "paths (mb_id m)")
    case (Some q)
    then show ?thesis using eq 1(3,4) by (auto simp: names_it_def paths_ok_def)
  next
    case None
    show ?thesis
    proof (cases "mb_parent m")
      case N: None
      then show ?thesis using eq None 1(3,4) names_it_new [OF 1(3) _ 1(4), of paths "[mb_name m]" p]
        by (auto simp: mailbox_path_def below.root Let_def split: if_splits)
    next
      case (Some i)
      then obtain parent pp paths1 where par: "mb_id m \<notin> visiting" "by_id ms i = Some parent"
          "path_for ms (insert (mb_id m) visiting) parent paths = Inr (pp, paths1)"
          "p = pp @ [slash] @ escape_mailbox_segment (mb_name m)" "paths' = paths1(mb_id m \<mapsto> p)"
        using eq None by (auto simp: Let_def split: if_splits option.splits sum.splits)
      have "by_id ms (mb_id parent) = Some parent" using par(2) by_id_in [OF par(2)] by simp
      then have n: "names_it ms parent paths pp paths1" using 1(1) [OF None par(1) Some par(2,3) 1(3)] by simp
      then obtain ns where ns: "below ms parent ns" "pp = mailbox_path ns" by (auto simp: names_it_def)
      have "below ms m (ns @ [mb_name m])" using below.child [OF Some par(2) ns(1)] .
      moreover have "p = mailbox_path (ns @ [mb_name m])"
        using par(4) ns mailbox_path_snoc [OF below_not_Nil [OF ns(1)]] by simp
      ultimately show ?thesis
        using n names_it_new [OF _ _ 1(4)] unfolding par(5) names_it_def [of ms parent] by blast
    qed
  qed
qed


text \<open>A mailbox under a root gets a path, when what is being visited lies deeper.\<close>

definition deeper :: "mailbox list \<Rightarrow> nat \<Rightarrow> string set \<Rightarrow> bool" where
  "deeper ms n visiting \<longleftrightarrow>
     (\<forall>x \<in> visiting. \<exists>m ns. by_id ms x = Some m \<and> below ms m ns \<and> n < length ns)"

lemma deeper_not_visited:
  assumes "deeper ms (length ns) visiting" "by_id ms (mb_id m) = Some m" "below ms m ns"
  shows "mb_id m \<notin> visiting"
proof
  assume "mb_id m \<in> visiting"
  then obtain m' ns' where m': "by_id ms (mb_id m) = Some m'" "below ms m' ns'" "length ns < length ns'"
    using assms(1) by (auto simp: deeper_def)
  then have "m' = m" using assms(2) by simp
  then show False using below_unique [OF assms(3)] m'(2,3) by auto
qed

lemma path_for_complete:
  "below ms m ns \<Longrightarrow> by_id ms (mb_id m) = Some m \<Longrightarrow> deeper ms (length ns) visiting \<Longrightarrow>
    \<exists>r. path_for ms visiting m paths = Inr r"
proof (induction arbitrary: visiting rule: below.induct)
  case (root m)
  then have "mb_id m \<notin> visiting" using deeper_not_visited [of ms "[mb_name m]" visiting m] below.root [OF root(1)] by simp
  then show ?case using root(1)
    by (cases "paths (mb_id m)") (auto simp: path_for.simps [of ms visiting m] Let_def)
next
  case (child m i p ns)
  note b = below.child [OF child.hyps]
  have v: "mb_id m \<notin> visiting" by (rule deeper_not_visited [OF child.prems(2,1) b])
  have "by_id ms (mb_id p) = Some p" using child.hyps(2) by_id_in [OF child.hyps(2)] by simp
  moreover have "deeper ms (length ns) (insert (mb_id m) visiting)"
    using child.prems b by (fastforce simp: deeper_def)
  ultimately obtain r where "path_for ms (insert (mb_id m) visiting) p paths = Inr r"
    using child.IH by blast
  then show ?case using child.hyps(1,2) v
    by (cases "paths (mb_id m)"; cases r) (auto simp: path_for.simps [of ms visiting m] Let_def)
qed

lemma collect_paths_sound:
  "collect_paths ms rest paths = Inr paths' \<Longrightarrow> paths_ok ms paths \<Longrightarrow> (\<And>m. m \<in> set rest \<Longrightarrow> by_id ms (mb_id m) = Some m) \<Longrightarrow>
    paths_ok ms paths' \<and> dom paths \<subseteq> dom paths' \<and> mb_id ` set rest \<subseteq> dom paths'"
proof (induction ms rest paths rule: collect_paths.induct)
  case (2 ms m rest paths)
  then obtain p paths1 where p: "path_for ms {} m paths = Inr (p, paths1)"
    "collect_paths ms rest paths1 = Inr paths'" by (auto split: sum.splits)
  have n: "names_it ms m paths p paths1" using path_for_sound [OF p(1) 2(3)] 2(4) by simp
  then have d: "dom paths \<subseteq> dom paths1" "mb_id m \<in> dom paths1" by (auto simp: names_it_def)
  have "paths_ok ms paths' \<and> dom paths1 \<subseteq> dom paths' \<and> mb_id ` set rest \<subseteq> dom paths'"
    using 2(1) [OF p(1) refl p(2)] 2(4) n by (simp add: names_it_def)
  then show ?case using d by (metis image_insert insert_subset list.set(2) subset_iff)
qed simp

lemma collect_paths_complete:
  "(\<And>m. m \<in> set rest \<Longrightarrow> by_id ms (mb_id m) = Some m \<and> (\<exists>ns. below ms m ns)) \<Longrightarrow>
    \<exists>paths'. collect_paths ms rest paths = Inr paths'"
proof (induction rest arbitrary: paths)
  case (Cons m rest)
  then obtain ns where "below ms m ns" "by_id ms (mb_id m) = Some m" by auto
  then obtain r where "path_for ms {} m paths = Inr r"
    using path_for_complete [of ms m ns "{}" paths] unfolding deeper_def by blast
  then show ?case using Cons by (cases r) simp
qed simp

lemma mailbox_paths_spec:
  assumes "distinct (map mb_id ms)" "mailbox_paths ms = Inr paths" "m \<in> set ms"
  shows "\<exists>ns. below ms m ns \<and> paths (mb_id m) = Some (mailbox_path ns)"
proof -
  have ok: "paths_ok ms paths" "mb_id ` set ms \<subseteq> dom paths"
    using collect_paths_sound [of ms ms Map.empty paths] assms(2) by_id_self [OF assms(1)]
    by (simp_all add: mailbox_paths_def paths_ok_def)
  obtain p where "paths (mb_id m) = Some p" using ok(2) assms(3) by auto
  with ok(1) [unfolded paths_ok_def, rule_format, OF by_id_self [OF assms(1,3)]] show ?thesis by auto
qed

text \<open>
  The mailbox tree is turned into paths exactly when every mailbox hangs under a root;
  the path then lists the escaped names from the root down.
\<close>

theorem mailbox_paths_rooted:
  assumes "distinct (map mb_id ms)"
  shows "case mailbox_paths ms of
      Inr paths \<Rightarrow> \<forall>m. m \<in> set ms \<longrightarrow> (\<exists>ns. below ms m ns \<and> paths (mb_id m) = Some (mailbox_path ns))
    | Inl e \<Rightarrow> \<exists>m. m \<in> set ms \<and> \<not> (\<exists>ns. below ms m ns)"
proof (cases "mailbox_paths ms")
  case (Inl e)
  then show ?thesis using collect_paths_complete [of ms ms Map.empty] by_id_self [OF assms]
    by (auto simp: mailbox_paths_def)
next
  case (Inr paths)
  then show ?thesis using mailbox_paths_spec [OF assms Inr] by simp
qed

definition demo_mailbox :: "string \<Rightarrow> string \<Rightarrow> string option \<Rightarrow> mailbox" where
  "demo_mailbox i n p = \<lparr>mb_id = i, mb_name = n, mb_parent = p, mb_role = None, mb_total = 0, mb_unread = 0\<rparr>"

lemma mailbox_paths_rooted_witness:
  "case mailbox_paths [demo_mailbox ''1'' ''Work'' None, demo_mailbox ''2'' ''a/b'' (Some ''1'')] of
      Inr paths \<Rightarrow> paths ''2'' = Some (''Work/a'' @ [backslash] @ ''/b'') | Inl _ \<Rightarrow> False"
proof -
  let ?a = "demo_mailbox ''1'' ''Work'' None" and ?b = "demo_mailbox ''2'' ''a/b'' (Some ''1'')"
  let ?ms = "[?a, ?b]"
  have a: "below ?ms ?a [''Work'']" using below.root [of ?a ?ms] by (simp add: demo_mailbox_def)
  have b: "below ?ms ?b [''Work'', ''a/b'']"
    using below.child [of ?b "''1''" ?ms ?a "[''Work'']"] a by (simp add: demo_mailbox_def by_id_def)
  have d: "distinct (map mb_id ?ms)" by (simp add: demo_mailbox_def)
  have p: "mailbox_path [''Work'', ''a/b''] = ''Work/a'' @ [backslash] @ ''/b''" by code_simp
  have e: "\<exists>ns. below ?ms m ns" if "m \<in> set ?ms" for m using that a b by auto
  show ?thesis
  proof (cases "mailbox_paths ?ms")
    case (Inl x)
    show ?thesis using mailbox_paths_rooted [OF d, unfolded Inl sum.case] e by blast
  next
    case (Inr paths)
    have "?b \<in> set ?ms" by simp
    then obtain ns where "below ?ms ?b ns" "paths (mb_id ?b) = Some (mailbox_path ns)"
      using mailbox_paths_rooted [OF d, unfolded Inr sum.case] by blast
    then have "paths (mb_id ?b) = Some (mailbox_path [''Work'', ''a/b''])" using below_unique [OF b] by simp
    then show ?thesis unfolding Inr sum.case p by (simp add: demo_mailbox_def)
  qed
qed

section \<open>Names find their mailbox\<close>

lemma lower_escape: "to_ascii_lowercase (escape_mailbox_segment s) = escape_mailbox_segment (to_ascii_lowercase s)"
proof (induction s)
  case (Cons c s)
  have "lower_char c = backslash \<longleftrightarrow> c = backslash" "lower_char c = slash \<longleftrightarrow> c = slash"
    using lower_char_non_letter [of backslash c] lower_char_non_letter [of slash c]
    by (auto simp: backslash_def slash_def is_ascii_upper_def is_ascii_lower_def byte_def)
  moreover have "lower_char backslash = backslash" "lower_char slash = slash"
    using lower_char_non_letter [of backslash backslash] lower_char_non_letter [of slash slash]
    by (auto simp: backslash_def slash_def is_ascii_upper_def is_ascii_lower_def byte_def)
  ultimately show ?case using Cons by (simp add: to_ascii_lowercase_def)
qed simp

lemma lower_mailbox_path: "to_ascii_lowercase (mailbox_path ns) = mailbox_path (map to_ascii_lowercase ns)"
proof (induction ns)
  case (Cons n ns)
  have "to_ascii_lowercase [slash] = [slash]" by code_simp
  then show ?case using Cons
    by (cases ns) (auto simp: mailbox_path_def join_Cons lower_escape simp flip: append_Cons)
qed (simp add: mailbox_path_def)

lemma mailbox_path_inj:
  assumes "eq_ignore_ascii_case (mailbox_path ns) (mailbox_path ns')"
    "ns \<noteq> []" "[] \<notin> set ns" "ns' \<noteq> []" "[] \<notin> set ns'"
  shows "map to_ascii_lowercase ns' = map to_ascii_lowercase ns"
proof -
  have eq: "mailbox_path (map to_ascii_lowercase ns) = mailbox_path (map to_ascii_lowercase ns')"
    using assms(1) by (simp add: eq_ignore_ascii_case_def lower_mailbox_path)
  have ne: "[] \<notin> set (map to_ascii_lowercase ns)" "[] \<notin> set (map to_ascii_lowercase ns')"
    using assms(3,5) by (auto simp: eq_commute [of "[]"])
  have "split_mailbox_path (mailbox_path (map to_ascii_lowercase ns)) = Inr (map to_ascii_lowercase ns)"
    using split_mailbox_path_of [OF _ ne(1)] assms(2) by simp
  moreover have "split_mailbox_path (mailbox_path (map to_ascii_lowercase ns')) = Inr (map to_ascii_lowercase ns')"
    using split_mailbox_path_of [OF _ ne(2)] assms(4) by simp
  ultimately show ?thesis using eq by (metis sum.inject(2))
qed

lemma below_names: "below ms m ns \<Longrightarrow> by_id ms (mb_id m) = Some m \<Longrightarrow> (\<And>x. x \<in> set ms \<Longrightarrow> mb_name x \<noteq> []) \<Longrightarrow> [] \<notin> set ns"
proof (induction rule: below.induct)
  case (root m)
  then show ?case using by_id_in by fastforce
next
  case (child m i p ns)
  moreover have "by_id ms (mb_id p) = Some p" using child.hyps(2) by_id_in [OF child.hyps(2)] by simp
  ultimately show ?case using by_id_in [OF child.prems(1)] by force
qed

text \<open>Siblings with equal names, up to case, are the same mailbox.\<close>

definition distinct_siblings :: "mailbox list \<Rightarrow> bool" where
  "distinct_siblings ms \<longleftrightarrow>
     (\<forall>a \<in> set ms. \<forall>b \<in> set ms. mb_parent a = mb_parent b \<longrightarrow>
        eq_ignore_ascii_case (mb_name a) (mb_name b) \<longrightarrow> a = b)"

lemma below_inj:
  "below ms a ns \<Longrightarrow> below ms b ns' \<Longrightarrow> map to_ascii_lowercase ns' = map to_ascii_lowercase ns \<Longrightarrow>
    a \<in> set ms \<Longrightarrow> b \<in> set ms \<Longrightarrow> distinct_siblings ms \<Longrightarrow> b = a"
proof (induction arbitrary: b ns' rule: below.induct)
  case (root a)
  from root.prems(1) show ?case
  proof (cases rule: below.cases)
    case root
    then show ?thesis using \<open>mb_parent a = None\<close> root.prems unfolding distinct_siblings_def eq_ignore_ascii_case_def by force
  qed (use root.prems(2) below_not_Nil in fastforce)
next
  case (child a i p ns)
  note a = child.hyps(1,2) and IH = child.IH and prems = child.prems
  have p: "p \<in> set ms" "mb_id p = i" using by_id_in [OF a(2)] by simp_all
  from prems(1) show ?case
  proof (cases rule: below.cases)
    case root
    then show ?thesis using prems(2) below_not_Nil [OF child.hyps(3)] by auto
  next
    case (child j q ns1)
    have q: "q \<in> set ms" "mb_id q = j" using by_id_in [OF child(3)] by simp_all
    have l: "map to_ascii_lowercase ns1 = map to_ascii_lowercase ns"
      "to_ascii_lowercase (mb_name b) = to_ascii_lowercase (mb_name a)"
      using prems(2) child(1) by simp_all
    have "q = p" by (rule IH [OF child(4) l(1) p(1) q(1) prems(5)])
    then have "mb_parent b = mb_parent a" using a(1) child(2) p(2) q(2) by simp
    then show ?thesis using l(2) prems(3-5) unfolding distinct_siblings_def eq_ignore_ascii_case_def by metis
  qed
qed

text \<open>
  C35. With the names a server may give its mailboxes (not empty, siblings different up to
  case), the path under which a mailbox is listed finds this mailbox again, also when it is
  written in another case.
\<close>

theorem listed_path_resolves:
  assumes "distinct (map mb_id ms)" "distinct_siblings ms" "\<And>m. m \<in> set ms \<Longrightarrow> mb_name m \<noteq> []"
    "mailbox_paths ms = Inr paths" "m \<in> set ms" "paths (mb_id m) = Some p" "eq_ignore_ascii_case p name"
  shows "resolve_mailbox ms name = Inr m"
proof -
  have named: "\<exists>ns. below ms x ns \<and> paths (mb_id x) = Some (mailbox_path ns) \<and> ns \<noteq> [] \<and> [] \<notin> set ns"
    if "x \<in> set ms" for x
    using mailbox_paths_spec [OF assms(1,4) that] below_names [OF _ by_id_self [OF assms(1) that] assms(3)]
      below_not_Nil by blast
  have "(case paths (mb_id x) of Some q \<Rightarrow> eq_ignore_ascii_case q name | None \<Rightarrow> False) \<longleftrightarrow> x = m"
    if x: "x \<in> set ms" for x
  proof
    assume *: "case paths (mb_id x) of Some q \<Rightarrow> eq_ignore_ascii_case q name | None \<Rightarrow> False"
    from named [OF x] named [OF assms(5)] obtain ns ns' where ns:
      "below ms m ns" "p = mailbox_path ns" "ns \<noteq> []" "[] \<notin> set ns"
      "below ms x ns'" "paths (mb_id x) = Some (mailbox_path ns')" "ns' \<noteq> []" "[] \<notin> set ns'"
      using assms(6) by auto
    then have "eq_ignore_ascii_case (mailbox_path ns) (mailbox_path ns')"
      using * assms(7) by (simp add: eq_ignore_ascii_case_def)
    then show "x = m" using below_inj [OF ns(1,5) mailbox_path_inj assms(5) x assms(2)] ns by blast
  qed (use assms(6,7) in simp)
  then have "filter (\<lambda>x. case paths (mb_id x) of Some q \<Rightarrow> eq_ignore_ascii_case q name | None \<Rightarrow> False) ms = filter (\<lambda>x. x = m) ms"
    by (intro filter_cong) auto
  also have "\<dots> = [m]"
  proof -
    have "distinct ms" using assms(1) by (simp add: distinct_map)
    then show ?thesis using assms(5) by (induction ms) (auto simp: filter_empty_conv)
  qed
  finally show ?thesis using assms(4) by (simp add: resolve_mailbox_def)
qed


lemma listed_path_resolves_witness:
  "resolve_mailbox [demo_mailbox ''1'' ''Work'' None, demo_mailbox ''2'' ''New'' (Some ''1'')] ''work/NEW'' =
     Inr (demo_mailbox ''2'' ''New'' (Some ''1''))"
proof -
  let ?ms = "[demo_mailbox ''1'' ''Work'' None, demo_mailbox ''2'' ''New'' (Some ''1'')]"
  have p: "mailbox_paths ?ms = Inr (Map.empty(''1'' \<mapsto> ''Work'', ''2'' \<mapsto> ''Work/New''))"
    by (simp add: mailbox_paths_def path_for.simps demo_mailbox_def by_id_def Let_def replace_char_def
        escape_mailbox_segment_def slash_def backslash_def)
  have "eq_ignore_ascii_case ''Work/New'' ''work/NEW''" by code_simp
  moreover have "\<not> eq_ignore_ascii_case ''Work'' ''New''" "\<not> eq_ignore_ascii_case ''New'' ''Work''" by code_simp+
  moreover have n: "\<And>m. m \<in> set ?ms \<Longrightarrow> mb_name m \<noteq> []" by (auto simp: demo_mailbox_def)
  ultimately show ?thesis
    using listed_path_resolves [OF _ _ n p, of "demo_mailbox ''2'' ''New'' (Some ''1'')" "''Work/New''" "''work/NEW''"]
    by (auto simp: demo_mailbox_def distinct_siblings_def)
qed

end
