(* ===== verification/Jmap_Client.thy ===== *)
theory Jmap_Client
  imports Jmap_Mailboxes Iso_Dates Store_Schema "HOL-Library.AList" "HOL-Library.Word"
begin

text \<open>
  The JMAP client (crates/inbx-net/src/jmap.rs): its requests as JSON values and what it
  makes of the responses. The server is a state machine behind HTTP: a parameter that
  answers a request and changes its state; reading JSON text is a parameter as well.
\<close>

section \<open>Requests\<close>

type_synonym ('s, 'a) jmap = "'s \<Rightarrow> 's \<times> (jmap_error + 'a)"

definition give :: "'a \<Rightarrow> ('s, 'a) jmap" where
  "give x s = (s, Inr x)"

definition lift :: "jmap_error + 'a \<Rightarrow> ('s, 'a) jmap" where
  "lift r s = (s, r)"

definition chain :: "('s, 'a) jmap \<Rightarrow> ('a \<Rightarrow> ('s, 'b) jmap) \<Rightarrow> ('s, 'b) jmap" where
  "chain m f s = (case m s of (s', Inl e) \<Rightarrow> (s', Inl e) | (s', Inr x) \<Rightarrow> f x s')"

lemma chain_simps [simp]:
  "m s = (s', Inl e) \<Longrightarrow> chain m f s = (s', Inl e)"
  "m s = (s', Inr x) \<Longrightarrow> chain m f s = f x s'"
  by (simp_all add: chain_def)

lemma lift_simps [simp]: "chain (lift (Inl e)) f s = (s, Inl e)" "chain (lift (Inr x)) f s = f x s"
  by (simp_all add: chain_def lift_def)

text \<open>An answer is a failed connection, or a status with a body.\<close>

record 's http =
  post_json :: "string \<Rightarrow> json \<Rightarrow> 's \<Rightarrow> 's \<times> (string + nat \<times> string)"
  post_raw :: "string \<Rightarrow> string \<Rightarrow> 's \<Rightarrow> 's \<times> (string + nat \<times> string)"
  get_url :: "string \<Rightarrow> 's \<Rightarrow> 's \<times> (string + nat \<times> string)"
  read_json :: "string \<Rightarrow> json option"

record session =
  api_url :: string
  primary_accounts :: "(string \<times> json) list"
  upload_url :: "string option"
  download_url :: "string option"
  event_source_url :: "string option"
  capabilities :: "(string \<times> json) list"

record jmap_client =
  session_of :: session
  account_id :: string
  client_store :: "db option"

definition MAIL_CAPABILITY :: string where
  "MAIL_CAPABILITY = ''urn:ietf:params:jmap:mail''"

definition SUBMISSION_CAPABILITY :: string where
  "SUBMISSION_CAPABILITY = ''urn:ietf:params:jmap:submission''"

definition CORE_CAPABILITY :: string where
  "CORE_CAPABILITY = ''urn:ietf:params:jmap:core''"

definition account_id_for :: "string \<Rightarrow> session \<Rightarrow> string option" where
  "account_id_for cap s = Option.bind (map_of (primary_accounts s) cap) as_str"

definition core_capability_limit :: "string \<Rightarrow> nat \<Rightarrow> session \<Rightarrow> nat" where
  "core_capability_limit key fallback s =
     (case Option.bind (Option.bind (map_of (capabilities s) CORE_CAPABILITY) (get_key key)) as_u64 of
        Some n \<Rightarrow> if 0 < n then n else fallback
      | None \<Rightarrow> fallback)"

definition max_objects_in_get :: "session \<Rightarrow> nat" where
  "max_objects_in_get = core_capability_limit ''maxObjectsInGet'' 500"

definition max_objects_in_set :: "session \<Rightarrow> nat" where
  "max_objects_in_set = core_capability_limit ''maxObjectsInSet'' 500"

definition session_of_json :: "json \<Rightarrow> session option" where
  "session_of_json v =
     (case (required as_str ''apiUrl'' v, defaulted as_object [] ''primaryAccounts'' v,
            defaulted (nullable as_str) None ''uploadUrl'' v, defaulted (nullable as_str) None ''downloadUrl'' v,
            defaulted (nullable as_str) None ''eventSourceUrl'' v, defaulted as_object [] ''capabilities'' v) of
        (Some a, Some p, Some u, Some d, Some e, Some c) \<Rightarrow>
          Some \<lparr>api_url = a, primary_accounts = p, upload_url = u, download_url = d,
                event_source_url = e, capabilities = c\<rparr>
      | _ \<Rightarrow> None)"

section \<open>Responses\<close>

definition ensure_success :: "string + nat \<times> string \<Rightarrow> jmap_error + string" where
  "ensure_success r =
     (case r of
        Inl e \<Rightarrow> Inl (Transport e)
      | Inr (status, text) \<Rightarrow> if 200 \<le> status \<and> status < 300 then Inr text else Inl (Server status text))"

definition json_of :: "'s http \<Rightarrow> string \<Rightarrow> jmap_error + json" where
  "json_of h text = (case read_json h text of Some v \<Rightarrow> Inr v | None \<Rightarrow> Inl Bad_Json)"

definition text_at :: "string \<Rightarrow> string \<Rightarrow> json \<Rightarrow> string" where
  "text_at k fallback v = (case Option.bind (get_key k v) as_str of Some s \<Rightarrow> s | None \<Rightarrow> fallback)"

text \<open>The first method response that is an error.\<close>

fun first_method_error :: "json list \<Rightarrow> jmap_error + unit" where
  "first_method_error [] = Inr ()"
| "first_method_error (r # rs) =
     (case as_array r of
        Some (Str n # rest) \<Rightarrow>
          if n = ''error''
          then (let payload = (case rest of p # _ \<Rightarrow> p | [] \<Rightarrow> Null)
                in Inl (Method (text_at ''type'' ''unknown'' payload) (text_at ''description'' [] payload)))
          else first_method_error rs
      | _ \<Rightarrow> first_method_error rs)"

definition validate_method_responses :: "json \<Rightarrow> jmap_error + unit" where
  "validate_method_responses v =
     (case Option.bind (get_key ''methodResponses'' v) as_array of
        None \<Rightarrow> Inr ()
      | Some rs \<Rightarrow> first_method_error rs)"

text \<open>
  The payload of the first response to a call. A response with the call's id and nothing
  else cannot occur: the id is its third part.
\<close>

fun find_response :: "string \<Rightarrow> json list \<Rightarrow> json option" where
  "find_response i [] = None"
| "find_response i (r # rs) =
     (case as_array r of
        Some (_ # payload # Str j # _) \<Rightarrow> if j = i then Some payload else find_response i rs
      | _ \<Rightarrow> find_response i rs)"

definition reported :: "string \<Rightarrow> json option \<Rightarrow> bool" where
  "reported key v =
     (case v of
        Some (Arr ids) \<Rightarrow> list_ex (\<lambda>i. as_str i = Some key) ids
      | Some (Obj kvs) \<Rightarrow> map_of kvs key \<noteq> None
      | _ \<Rightarrow> False)"

fun validate_keys :: "json \<Rightarrow> string \<Rightarrow> string \<Rightarrow> string \<Rightarrow> string list \<Rightarrow> jmap_error + unit" where
  "validate_keys r call_id succeeded failed [] = Inr ()"
| "validate_keys r call_id succeeded failed (k # ks) =
     (case Option.bind (get_key failed r) (get_key k) of
        Some e \<Rightarrow> Inl (Method (text_at ''type'' failed e) (text_at ''description'' ''operation failed'' e))
      | None \<Rightarrow>
          if reported k (get_key succeeded r) then validate_keys r call_id succeeded failed ks
          else Inl (Method ''invalidResponse'' (call_id @ '' did not report '' @ k @ '' in '' @ succeeded)))"

definition validate_email_mutation ::
  "json \<Rightarrow> string \<Rightarrow> string \<Rightarrow> string \<Rightarrow> string list \<Rightarrow> jmap_error + unit" where
  "validate_email_mutation v call_id succeeded failed keys =
     (case Option.bind (Option.bind (get_key ''methodResponses'' v) as_array) (find_response call_id) of
        None \<Rightarrow> Inl (Method ''invalidResponse'' (''missing response for '' @ call_id))
      | Some r \<Rightarrow> validate_keys r call_id succeeded failed keys)"

section \<open>Calls\<close>

definition call :: "string \<Rightarrow> (string \<times> json) list \<Rightarrow> string \<Rightarrow> json" where
  "call name args i = Arr [Str name, Obj args, Str i]"

definition invoke :: "'s http \<Rightarrow> jmap_client \<Rightarrow> json list \<Rightarrow> string list \<Rightarrow> ('s, json) jmap" where
  "invoke h c methods using_caps s =
     (case post_json h (api_url (session_of c))
             (Obj [(''using'', Arr (map Str using_caps)), (''methodCalls'', Arr methods)]) s of
        (s', r) \<Rightarrow>
          (s', and_then (ensure_success r) (\<lambda>text. and_then (json_of h text) (\<lambda>v.
                 and_then (validate_method_responses v) (\<lambda>_. Inr v)))))"

abbreviation invoke_mail :: "'s http \<Rightarrow> jmap_client \<Rightarrow> json list \<Rightarrow> ('s, json) jmap" where
  "invoke_mail h c methods \<equiv> invoke h c methods [CORE_CAPABILITY, MAIL_CAPABILITY]"

text \<open>\<open>v["methodResponses"][n][1]\<close>.\<close>

definition payload_of :: "json \<Rightarrow> nat \<Rightarrow> json" where
  "payload_of v n = at_index (at_index (at_key v ''methodResponses'') n) 1"

definition decode :: "(json \<Rightarrow> 'a option) \<Rightarrow> json \<Rightarrow> jmap_error + 'a list" where
  "decode f v = (case list_of f v of Some xs \<Rightarrow> Inr xs | None \<Rightarrow> Inl Bad_Json)"

definition list_mailboxes :: "'s http \<Rightarrow> jmap_client \<Rightarrow> ('s, mailbox list) jmap" where
  "list_mailboxes h c =
     chain (invoke_mail h c [call ''Mailbox/get'' [(''accountId'', Str (account_id c))] ''0''])
       (\<lambda>v. lift (decode mailbox_of_json (at_key (payload_of v 0) ''list'')))"

definition connect :: "'s http \<Rightarrow> string \<Rightarrow> ('s, jmap_client) jmap" where
  "connect h url s =
     (case get_url h url s of
        (s', r) \<Rightarrow>
          (s', and_then (ensure_success r) (\<lambda>text. and_then (json_of h text) (\<lambda>v.
                 case session_of_json v of
                   None \<Rightarrow> Inl Bad_Json
                 | Some ses \<Rightarrow>
                     (case account_id_for MAIL_CAPABILITY ses of
                        None \<Rightarrow> Inl No_Account_Id
                      | Some a \<Rightarrow> Inr \<lparr>session_of = ses, account_id = a, client_store = None\<rparr>)))))"

definition as_id_vec :: "json \<Rightarrow> string list" where
  "as_id_vec v = (case as_array v of Some vs \<Rightarrow> List.map_filter as_str vs | None \<Rightarrow> [])"

record email_changes =
  new_state :: string
  created_ids :: "string list"
  updated_ids :: "string list"
  destroyed_ids :: "string list"
  has_more_changes :: bool

definition or_default :: "'a \<Rightarrow> 'a option \<Rightarrow> 'a" where
  "or_default x m = (case m of Some y \<Rightarrow> y | None \<Rightarrow> x)"

definition changes :: "'s http \<Rightarrow> jmap_client \<Rightarrow> string \<Rightarrow> ('s, email_changes) jmap" where
  "changes h c since =
     chain (invoke_mail h c [call ''Email/changes'' [(''accountId'', Str (account_id c)), (''sinceState'', Str since)] ''c''])
       (\<lambda>v. let r = payload_of v 0
            in give \<lparr>new_state = or_default [] (as_str (at_key r ''newState'')),
                     created_ids = as_id_vec (at_key r ''created''), updated_ids = as_id_vec (at_key r ''updated''),
                     destroyed_ids = as_id_vec (at_key r ''destroyed''),
                     has_more_changes = or_default False (as_bool (at_key r ''hasMoreChanges''))\<rparr>)"

definition current_state :: "'s http \<Rightarrow> jmap_client \<Rightarrow> ('s, string) jmap" where
  "current_state h c =
     chain (invoke_mail h c [call ''Email/get'' [(''accountId'', Str (account_id c)), (''ids'', Arr [])] ''s''])
       (\<lambda>v. give (or_default [] (as_str (at_key (payload_of v 0) ''state''))))"

end
