(* ===== verification/Jmap_Provider.thy ===== *)
theory Jmap_Provider
  imports Jmap_Client Sync_Engine
begin

text \<open>
  The mail operations of the JMAP client (crates/inbx-net/src/jmap.rs): emails and their headers,
  complete listings page by page, changes of flags and mailboxes, and the \<^verbatim>\<open>MailProvider\<close>
  interface that the sync engine calls.
\<close>

section \<open>Emails\<close>

record email_address =
  ea_name :: "string option"
  ea_email :: string

record email_header =
  eh_id :: string
  eh_subject :: "string option"
  eh_from :: "email_address list option"
  eh_to :: "email_address list option"
  eh_received_at :: "string option"
  eh_message_id :: "string list option"
  eh_keywords :: "(string \<times> json) list option"

definition address_of_json :: "json \<Rightarrow> email_address option" where
  "address_of_json v =
     (case (defaulted (nullable as_str) None ''name'' v, required as_str ''email'' v) of
        (Some n, Some e) \<Rightarrow> Some \<lparr>ea_name = n, ea_email = e\<rparr> | _ \<Rightarrow> None)"

definition email_of_json :: "json \<Rightarrow> email_header option" where
  "email_of_json v =
     (case (required as_str ''id'' v, defaulted (nullable as_str) None ''subject'' v,
            defaulted (nullable (list_of address_of_json)) None ''from'' v,
            defaulted (nullable (list_of address_of_json)) None ''to'' v,
            defaulted (nullable as_str) None ''receivedAt'' v,
            defaulted (nullable (list_of as_str)) None ''messageId'' v,
            defaulted (nullable as_object) None ''keywords'' v) of
        (Some i, Some s, Some f, Some t, Some r, Some m, Some k) \<Rightarrow>
          Some \<lparr>eh_id = i, eh_subject = s, eh_from = f, eh_to = t, eh_received_at = r,
                eh_message_id = m, eh_keywords = k\<rparr>
      | _ \<Rightarrow> None)"

definition formatted :: "email_address \<Rightarrow> string" where
  "formatted a =
     (case ea_name a of
        Some n \<Rightarrow> if n \<noteq> [] then n @ '' <'' @ ea_email a @ ''>'' else ea_email a
      | None \<Rightarrow> ea_email a)"

definition has_keyword :: "string \<Rightarrow> (string \<times> json) list \<Rightarrow> bool" where
  "has_keyword k kw = or_default False (Option.bind (map_of kw k) as_bool)"

definition is_seen :: "email_header \<Rightarrow> bool" where
  "is_seen e = (case eh_keywords e of Some kw \<Rightarrow> has_keyword ''$seen'' kw | None \<Rightarrow> False)"

definition FLAG_KEYWORDS :: "(string \<times> string) list" where
  "FLAG_KEYWORDS =
     [(''$seen'', backslash # ''Seen''), (''$flagged'', backslash # ''Flagged''),
      (''$answered'', backslash # ''Answered''), (''$draft'', backslash # ''Draft''),
      (''$deleted'', backslash # ''Deleted'')]"

definition build_flags_from_keywords :: "(string \<times> json) list option \<Rightarrow> string" where
  "build_flags_from_keywords kws =
     (case kws of
        None \<Rightarrow> []
      | Some kw \<Rightarrow> join '' '' (map snd (filter (\<lambda>(k, _). has_keyword k kw) FLAG_KEYWORDS)))"

definition imap_flag_to_jmap :: "string \<Rightarrow> string option" where
  "imap_flag_to_jmap flag =
     map_of (map (\<lambda>(k, f). (to_ascii_lowercase f, k)) FLAG_KEYWORDS) (to_ascii_lowercase flag)"

text \<open>FNV-1a on 64 bits, less the sign bit.\<close>

definition fnv_step :: "char \<Rightarrow> 64 word \<Rightarrow> 64 word" where
  "fnv_step b h = (Bit_Operations.xor h (of_nat (byte b))) * 0x100000001b3"

definition jmap_id_to_uid :: "string \<Rightarrow> int" where
  "jmap_id_to_uid i = uint (Bit_Operations.and (fold fnv_step i 0xcbf29ce484222325) 0x7fffffffffffffff)"

lemma jmap_id_to_uid_bounds: "0 \<le> jmap_id_to_uid i \<and> jmap_id_to_uid i < 2 ^ 63"
proof -
  have "jmap_id_to_uid i \<le> 0x7fffffffffffffff"
    unfolding jmap_id_to_uid_def by (simp add: uint_and AND_upper2)
  then show ?thesis by (simp add: jmap_id_to_uid_def)
qed

text \<open>A row of the listing; the date may panic.\<close>

definition header_row_of :: "int \<Rightarrow> email_header \<Rightarrow> header_row outcome" where
  "header_row_of now e =
     bind_outcome (case eh_received_at e of Some t \<Rightarrow> parse_jmap_date t | None \<Rightarrow> Return None) (\<lambda>date. Return
       \<lparr>n_uid = jmap_id_to_uid (eh_id e), n_uidvalidity = 0,
        n_message_id = (case eh_message_id e of Some (m # _) \<Rightarrow> Some m | _ \<Rightarrow> None),
        n_subject = eh_subject e,
        n_from_addr = (case eh_from e of Some (a # _) \<Rightarrow> Some (formatted a) | _ \<Rightarrow> None),
        n_to_addrs = map_option (\<lambda>as. join '', '' (map formatted as)) (eh_to e),
        n_date_unix = date, n_flags = build_flags_from_keywords (eh_keywords e),
        n_fetched_at_unix = now, n_provider_id = Some (eh_id e)\<rparr>)"

fun header_rows_of :: "int \<Rightarrow> email_header list \<Rightarrow> header_row list outcome" where
  "header_rows_of now [] = Return []"
| "header_rows_of now (e # es) =
     bind_outcome (header_row_of now e) (\<lambda>r. bind_outcome (header_rows_of now es) (\<lambda>rs. Return (r # rs)))"

section \<open>Listings\<close>

definition newest_first :: json where
  "newest_first = Arr [Obj [(''property'', Str ''receivedAt''), (''isAscending'', Bool False)]]"

definition header_properties :: json where
  "header_properties = Arr (map Str [''id'', ''subject'', ''from'', ''to'', ''receivedAt'', ''messageId'', ''keywords''])"

text \<open>The ids of a query's result, by reference.\<close>

definition ids_of_query :: json where
  "ids_of_query = Obj [(''resultOf'', Str ''q''), (''name'', Str ''Email/query''), (''path'', Str ''/ids'')]"

definition fetch_inbox_headers :: "'s http \<Rightarrow> jmap_client \<Rightarrow> nat \<Rightarrow> ('s, email_header list) jmap" where
  "fetch_inbox_headers h c limit =
     chain (list_mailboxes h c) (\<lambda>ms. chain (lift (resolve_mailbox ms ''Inbox'')) (\<lambda>inbox.
     chain (invoke_mail h c
       [call ''Email/query'' [(''accountId'', Str (account_id c)), (''filter'', Obj [(''inMailbox'', Str (mb_id inbox))]),
          (''sort'', newest_first), (''limit'', Num (int limit))] ''q'',
        call ''Email/get'' [(''accountId'', Str (account_id c)), (''#ids'', ids_of_query),
          (''properties'', header_properties)] ''g''])
       (\<lambda>v. lift (decode email_of_json (at_key (payload_of v 1) ''list'')))))"

definition fetch_by_ids :: "'s http \<Rightarrow> jmap_client \<Rightarrow> string list \<Rightarrow> ('s, email_header list) jmap" where
  "fetch_by_ids h c mids =
     (if mids = [] then give []
      else chain (invoke_mail h c
             [call ''Email/get'' [(''accountId'', Str (account_id c)), (''ids'', Arr (map Str mids)),
                (''properties'', header_properties)] ''g''])
             (\<lambda>v. lift (decode email_of_json (at_key (payload_of v 0) ''list''))))"

definition validate_query_page ::
  "nat \<Rightarrow> (string \<times> nat) option \<Rightarrow> string list \<Rightarrow> string list \<Rightarrow> nat option \<times> string option \<times> nat option \<Rightarrow>
   jmap_error + string \<times> nat" where
  "validate_query_page position previous collected page returned =
     (case returned of (returned_position, returned_state, tot) \<Rightarrow>
        (case (tot, returned_state) of
           (Some t, Some st) \<Rightarrow>
             if returned_position \<noteq> Some position
               \<or> (case previous of Some (st', t') \<Rightarrow> st' \<noteq> st \<or> t' \<noteq> t | None \<Rightarrow> False)
               \<or> t < length collected + length page
               \<or> list_ex (\<lambda>i. i \<in> set collected) page
               \<or> \<not> distinct page
             then Inl Incomplete_Query
             else Inr (st, t)
         | _ \<Rightarrow> Inl Incomplete_Query))"

definition next_query_position :: "nat \<Rightarrow> nat \<Rightarrow> nat \<Rightarrow> jmap_error + nat option" where
  "next_query_position collected tot page_len =
     (if tot \<le> collected then Inr None
      else if page_len = 0 then Inl Incomplete_Query
      else if collected < 2 ^ 32 then Inr (Some collected) else Inl Incomplete_Query)"

definition query_page :: "'s http \<Rightarrow> jmap_client \<Rightarrow> string \<Rightarrow> nat \<Rightarrow> ('s, json) jmap" where
  "query_page h c mailbox_id position =
     chain (invoke_mail h c
       [call ''Email/query'' [(''accountId'', Str (account_id c)), (''filter'', Obj [(''inMailbox'', Str mailbox_id)]),
          (''sort'', newest_first), (''position'', Num (int position)), (''limit'', Num 500)] ''q''])
       (\<lambda>v. give (payload_of v 0))"

lemma query_turn:
  assumes "validate_query_page position previous mids page x = Inr (st, tot)"
    "next_query_position (length (mids @ page)) tot (length page) = Inr (Some q)"
  shows "(previous = None \<or> (\<exists>st'. previous = Some (st', tot))) \<and> length mids + length page < tot \<and> page \<noteq> []"
  using assms by (auto simp: validate_query_page_def next_query_position_def split: option.splits if_splits prod.splits)

text \<open>The loop over the pages: previous state and total, ids so far.\<close>

function query_pages ::
  "'s http \<Rightarrow> jmap_client \<Rightarrow> string \<Rightarrow> nat \<Rightarrow> (string \<times> nat) option \<Rightarrow> string list \<Rightarrow> ('s, string list) jmap" where
  "query_pages h c mb position previous mids s =
     (case query_page h c mb position s of
        (s', Inl e) \<Rightarrow> (s', Inl e)
      | (s', Inr r) \<Rightarrow>
          (let page = as_id_vec (at_key r ''ids'')
           in case validate_query_page position previous mids page
                     (as_u64 (at_key r ''position''), as_str (at_key r ''queryState''), as_u64 (at_key r ''total'')) of
                Inl e \<Rightarrow> (s', Inl e)
              | Inr (st, tot) \<Rightarrow>
                  (case next_query_position (length (mids @ page)) tot (length page) of
                     Inl e \<Rightarrow> (s', Inl e)
                   | Inr None \<Rightarrow> (s', Inr (mids @ page))
                   | Inr (Some p) \<Rightarrow> query_pages h c mb p (Some (st, tot)) (mids @ page) s')))"
  by pat_completeness auto
termination
proof (relation "measures [\<lambda>(h, c, mb, position, previous, mids, s). if previous = None then 1 else 0,
    \<lambda>(h, c, mb, position, previous, mids, s). case previous of Some (_, t) \<Rightarrow> t - length mids | None \<Rightarrow> 0]", goal_cases)
  case (2 h c mb position previous mids s p s' r page st_tot st tot nx q)
  have "previous = None \<or> (\<exists>st'. previous = Some (st', tot))" "length mids + length page < tot" "page \<noteq> []"
    using 2 query_turn [of position previous mids page _ st tot q] by auto
  then show ?case by (cases page) auto
qed simp

declare query_pages.simps [simp del]

definition query_all_email_ids :: "'s http \<Rightarrow> jmap_client \<Rightarrow> string \<Rightarrow> ('s, string list) jmap" where
  "query_all_email_ids h c mb = query_pages h c mb 0 None []"

definition email_get_batches :: "string list \<Rightarrow> nat \<Rightarrow> string list list" where
  "email_get_batches mids limit = chunks limit mids"

fun get_batches :: "'s http \<Rightarrow> jmap_client \<Rightarrow> string list list \<Rightarrow> ('s, email_header list) jmap" where
  "get_batches h c [] s = (s, Inr [])"
| "get_batches h c (b # bs) s =
     chain (fetch_by_ids h c b) (\<lambda>page.
       if length page \<noteq> length b \<or> set (map eh_id page) \<noteq> set b then lift (Inl Incomplete_Query)
       else chain (get_batches h c bs) (\<lambda>rest. give (page @ rest))) s"

definition get_email_headers :: "'s http \<Rightarrow> jmap_client \<Rightarrow> string list \<Rightarrow> ('s, email_header list) jmap" where
  "get_email_headers h c mids = get_batches h c (email_get_batches mids (max_objects_in_get (session_of c)))"

definition fetch_headers :: "'s http \<Rightarrow> jmap_client \<Rightarrow> int \<Rightarrow> string \<Rightarrow> ('s, header_snapshot outcome) jmap" where
  "fetch_headers h c now f =
     chain (list_mailboxes h c) (\<lambda>ms. chain (lift (resolve_mailbox ms f)) (\<lambda>mb.
     chain (query_all_email_ids h c (mb_id mb)) (\<lambda>mids.
     chain (get_email_headers h c mids) (\<lambda>es.
       give (bind_outcome (header_rows_of now es) (\<lambda>rows. Return
               \<lparr>s_rows = rows, s_complete = True, s_transport = Opaque\<rparr>))))))"

end
