(* ===== verification/Graph_Client.thy ===== *)
theory Graph_Client
  imports Iso_Dates Json Jmap_Provider
begin

text \<open>
  The Microsoft Graph backend (crates/inbx-net/src/graph.rs): walking result pages under a limit, messages
  and folders, and the \<^verbatim>\<open>MailProvider\<close> interface. The server is a state machine behind HTTP, a
  parameter; so is the reader of JSON texts. A walk whose end is not known beforehand is a partial
  function, so an operation is \<open>None\<close> where the code would not return.
\<close>

section \<open>Requests\<close>

text \<open>A failed connection and an undecodable body are both a \<^verbatim>\<open>reqwest::Error\<close>.\<close>

datatype graph_error = Reqwest string | Api nat string | Missing string | Pagination string

type_synonym ('s, 'a) graph = "'s \<Rightarrow> ('s \<times> (graph_error + 'a)) option"

type_synonym 's answer = "'s \<times> (string + nat \<times> string)"

record 's graph_http =
  g_get :: "string \<Rightarrow> 's \<Rightarrow> 's answer"
  g_patch :: "string \<Rightarrow> json \<Rightarrow> 's \<Rightarrow> 's answer"
  g_post :: "string \<Rightarrow> json \<Rightarrow> 's \<Rightarrow> 's answer"
  g_post_mime :: "string \<Rightarrow> string \<Rightarrow> 's \<Rightarrow> 's answer"
  g_delete :: "string \<Rightarrow> 's \<Rightarrow> 's answer"
  g_json :: "string \<Rightarrow> json option"

definition g_give :: "'a \<Rightarrow> ('s, 'a) graph" where
  "g_give x s = Some (s, Inr x)"

definition g_fail :: "graph_error \<Rightarrow> ('s, 'a) graph" where
  "g_fail e s = Some (s, Inl e)"

definition g_chain :: "('s, 'a) graph \<Rightarrow> ('a \<Rightarrow> ('s, 'b) graph) \<Rightarrow> ('s, 'b) graph" where
  "g_chain m f s = (case m s of None \<Rightarrow> None | Some (s', Inl e) \<Rightarrow> Some (s', Inl e) | Some (s', Inr x) \<Rightarrow> f x s')"

lemma g_chain_simps [simp]:
  "m s = Some (s', Inl e) \<Longrightarrow> g_chain m f s = Some (s', Inl e)"
  "m s = Some (s', Inr x) \<Longrightarrow> g_chain m f s = f x s'"
  by (simp_all add: g_chain_def)

lemma g_chain_Some: "g_chain m f s = Some (s', Inr y) \<Longrightarrow> \<exists>s1 x. m s = Some (s1, Inr x) \<and> f x s1 = Some (s', Inr y)"
  by (auto simp: g_chain_def split: option.splits sum.splits)

definition ensure_api_success :: "'s answer \<Rightarrow> 's \<times> (graph_error + string)" where
  "ensure_api_success a =
     (case a of
        (s, Inl e) \<Rightarrow> (s, Inl (Reqwest e))
      | (s, Inr (status, text)) \<Rightarrow> (s, if 200 \<le> status \<and> status < 300 then Inr text else Inl (Api status text)))"

section \<open>Pages\<close>

definition MAX_GRAPH_PAGES :: nat where
  "MAX_GRAPH_PAGES = 10000"

record page_tracker =
  seen :: "string set"
  pages :: nat
  max_pages :: nat

definition new_tracker :: "nat \<Rightarrow> page_tracker" where
  "new_tracker n = \<lparr>seen = {}, pages = 0, max_pages = n\<rparr>"

definition visit :: "string \<Rightarrow> page_tracker \<Rightarrow> graph_error + page_tracker" where
  "visit url t =
     (if pages t = max_pages t then Inl (Pagination ''exceeds page limit'')
      else if url \<in> seen t then Inl (Pagination ''repeats nextLink'')
      else Inr (t\<lparr>seen := insert url (seen t), pages := pages t + 1\<rparr>))"

record 'a page =
  page_items :: "'a list"
  next_link :: "string option"

record 'a delta_page = "'a page" +
  delta_link :: "string option"

definition page_of_json :: "(json \<Rightarrow> 'a option) \<Rightarrow> json \<Rightarrow> 'a page option" where
  "page_of_json f v =
     (case (required (list_of f) ''value'' v, defaulted (nullable as_str) None ''@odata.nextLink'' v) of
        (Some xs, Some n) \<Rightarrow> Some \<lparr>page_items = xs, next_link = n\<rparr>
      | _ \<Rightarrow> None)"

definition delta_page_of_json :: "(json \<Rightarrow> 'a option) \<Rightarrow> json \<Rightarrow> 'a delta_page option" where
  "delta_page_of_json f v =
     (case (required (list_of f) ''value'' v, defaulted (nullable as_str) None ''@odata.nextLink'' v,
            defaulted (nullable as_str) None ''@odata.deltaLink'' v) of
        (Some xs, Some n, Some l) \<Rightarrow> Some \<lparr>page_items = xs, next_link = n, delta_link = l\<rparr>
      | _ \<Rightarrow> None)"

definition get_page :: "'s graph_http \<Rightarrow> (json \<Rightarrow> 'p option) \<Rightarrow> string \<Rightarrow> 's \<Rightarrow> 's \<times> (graph_error + 'p)" where
  "get_page h f url s =
     (case ensure_api_success (g_get h url s) of
        (s', Inl e) \<Rightarrow> (s', Inl e)
      | (s', Inr text) \<Rightarrow>
          (s', case Option.bind (g_json h text) f of Some p \<Rightarrow> Inr p | None \<Rightarrow> Inl (Reqwest ''decode'')))"

text \<open>What a turn of a walk makes of its page: what was gathered and the next address, or the result.\<close>

datatype ('a, 'r) turn = Go_On 'a string | Finished 'r

partial_function (option) follow_pages ::
  "'s graph_http \<Rightarrow> (json \<Rightarrow> 'p option) \<Rightarrow> ('a \<Rightarrow> 'p \<Rightarrow> graph_error + ('a, 'r) turn) \<Rightarrow>
   page_tracker \<Rightarrow> string \<Rightarrow> 'a \<Rightarrow> 's \<Rightarrow> ('s \<times> (graph_error + 'r)) option" where
  "follow_pages h f step t url acc s =
     (case visit url t of
        Inl e \<Rightarrow> Some (s, Inl e)
      | Inr t' \<Rightarrow>
          (case get_page h f url s of
             (s', Inl e) \<Rightarrow> Some (s', Inl e)
           | (s', Inr p) \<Rightarrow>
               (case step acc p of
                  Inl e \<Rightarrow> Some (s', Inl e)
                | Inr (Finished r) \<Rightarrow> Some (s', Inr r)
                | Inr (Go_On acc' next_url) \<Rightarrow> follow_pages h f step t' next_url acc' s')))"

section \<open>Folders and messages\<close>

record graph_folder =
  gf_id :: string
  display_name :: string
  gf_total :: int
  gf_unread :: int
  well_known :: "string option"

record graph_address =
  ga_name :: string
  ga_address :: string

record graph_message =
  gm_id :: string
  gm_removed :: "string option option"
  gm_subject :: "string option"
  gm_from :: "graph_address option"
  gm_to :: "graph_address list"
  gm_received :: "string option"
  gm_message_id :: "string option"
  is_read :: bool

definition folder_of_json :: "json \<Rightarrow> graph_folder option" where
  "folder_of_json v =
     (case (required as_str ''id'' v, required as_str ''displayName'' v, defaulted as_i64 0 ''totalItemCount'' v,
            defaulted as_i64 0 ''unreadItemCount'' v, defaulted (nullable as_str) None ''wellKnownName'' v) of
        (Some i, Some n, Some t, Some u, Some w) \<Rightarrow>
          Some \<lparr>gf_id = i, display_name = n, gf_total = t, gf_unread = u, well_known = w\<rparr>
      | _ \<Rightarrow> None)"

definition removed_of_json :: "json \<Rightarrow> string option option" where
  "removed_of_json v = Option.bind (as_object v) (\<lambda>_. defaulted (nullable as_str) None ''reason'' v)"

definition graph_address_of_json :: "json \<Rightarrow> graph_address option" where
  "graph_address_of_json v =
     (case (defaulted as_str [] ''name'' v, required as_str ''address'' v) of
        (Some n, Some a) \<Rightarrow> Some \<lparr>ga_name = n, ga_address = a\<rparr> | _ \<Rightarrow> None)"

definition recipient_of_json :: "json \<Rightarrow> graph_address option" where
  "recipient_of_json = required graph_address_of_json ''emailAddress''"

definition message_of_json :: "json \<Rightarrow> graph_message option" where
  "message_of_json v =
     (case (required as_str ''id'' v, defaulted (nullable removed_of_json) None ''@removed'' v,
            defaulted (nullable as_str) None ''subject'' v, defaulted (nullable recipient_of_json) None ''from'' v,
            defaulted (list_of recipient_of_json) [] ''toRecipients'' v,
            defaulted (nullable as_str) None ''receivedDateTime'' v,
            defaulted (nullable as_str) None ''internetMessageId'' v, defaulted as_bool False ''isRead'' v) of
        (Some i, Some x, Some s, Some f, Some t, Some r, Some m, Some b) \<Rightarrow>
          Some \<lparr>gm_id = i, gm_removed = x, gm_subject = s, gm_from = f, gm_to = t, gm_received = r,
                gm_message_id = m, is_read = b\<rparr>
      | _ \<Rightarrow> None)"

definition is_removed :: "graph_message \<Rightarrow> bool" where
  "is_removed m \<longleftrightarrow> gm_removed m \<noteq> None"

definition graph_formatted :: "graph_address \<Rightarrow> string" where
  "graph_formatted a = (if ga_name a = [] then ga_address a else ga_name a @ '' <'' @ ga_address a @ ''>'')"

definition graph_id_to_uid :: "string \<Rightarrow> int" where
  "graph_id_to_uid i = uint (Bit_Operations.and (fold fnv_step i 0xcbf29ce484222325) 0x7fffffffffffffff)"

definition GRAPH_ME :: string where
  "GRAPH_ME = ''https://graph.microsoft.com/v1.0/me/''"

definition folders_step :: "graph_folder list \<Rightarrow> graph_folder page \<Rightarrow> graph_error + (graph_folder list, graph_folder list) turn" where
  "folders_step out p =
     Inr (case next_link p of Some n \<Rightarrow> Go_On (out @ page_items p) n | None \<Rightarrow> Finished (out @ page_items p))"

definition graph_folders :: "'s graph_http \<Rightarrow> ('s, graph_folder list) graph" where
  "graph_folders h =
     follow_pages h (page_of_json folder_of_json) folders_step (new_tracker MAX_GRAPH_PAGES)
       (GRAPH_ME @ ''mailFolders?$top=200'') []"

definition graph_page_size :: "nat \<Rightarrow> nat" where
  "graph_page_size limit = max 1 (min limit 1000)"

definition message_list_url :: "string \<Rightarrow> nat \<Rightarrow> string" where
  "message_list_url f n =
     GRAPH_ME @ ''mailFolders/'' @ f @ ''/messages?$top='' @ show_nat n @ ''&$orderby=receivedDateTime desc'' @
     ''&$select=id,subject,from,toRecipients,receivedDateTime,internetMessageId,isRead,flag''"

definition accumulate_message_page :: "'a list \<Rightarrow> 'a page \<Rightarrow> nat option \<Rightarrow> 'a list \<times> string option" where
  "accumulate_message_page ms p cap =
     (let ms' = ms @ page_items p
      in case cap of
           Some n \<Rightarrow> if n \<le> length ms' then (take n ms', None) else (ms', next_link p)
         | None \<Rightarrow> (ms', next_link p))"

definition messages_step :: "nat option \<Rightarrow> 'a list \<Rightarrow> 'a page \<Rightarrow> graph_error + ('a list, 'a list) turn" where
  "messages_step cap ms p =
     Inr (case accumulate_message_page ms p cap of (ms', Some n) \<Rightarrow> Go_On ms' n | (ms', None) \<Rightarrow> Finished ms')"

definition list_messages_from :: "'s graph_http \<Rightarrow> nat option \<Rightarrow> string \<Rightarrow> ('s, graph_message list) graph" where
  "list_messages_from h cap url =
     follow_pages h (page_of_json message_of_json) (messages_step cap) (new_tracker MAX_GRAPH_PAGES) url []"

definition graph_list_messages :: "'s graph_http \<Rightarrow> string \<Rightarrow> nat \<Rightarrow> ('s, graph_message list) graph" where
  "graph_list_messages h f limit =
     (if limit = 0 then g_give []
      else list_messages_from h (Some limit) (message_list_url f (graph_page_size limit)))"

definition graph_list_all :: "'s graph_http \<Rightarrow> string \<Rightarrow> ('s, graph_message list) graph" where
  "graph_list_all h f = list_messages_from h None (message_list_url f 1000)"

definition delta_page_continuation :: "'a delta_page \<Rightarrow> graph_error + string + string" where
  "delta_page_continuation p =
     (case (next_link p, delta_link p) of
        (_, Some l) \<Rightarrow> Inr (Inr l)
      | (Some n, None) \<Rightarrow> Inr (Inl n)
      | (None, None) \<Rightarrow> Inl (Pagination ''terminal page is missing deltaLink''))"

definition delta_step :: "'a list \<Rightarrow> 'a delta_page \<Rightarrow> graph_error + ('a list, 'a list \<times> string) turn" where
  "delta_step ms p =
     (case delta_page_continuation p of
        Inl e \<Rightarrow> Inl e
      | Inr (Inl n) \<Rightarrow> Inr (Go_On (ms @ page_items p) n)
      | Inr (Inr l) \<Rightarrow> Inr (Finished (ms @ page_items p, l)))"

definition delta_messages :: "'s graph_http \<Rightarrow> string \<Rightarrow> string option \<Rightarrow> ('s, graph_message list \<times> string) graph" where
  "delta_messages h f since =
     follow_pages h (delta_page_of_json message_of_json) delta_step (new_tracker MAX_GRAPH_PAGES)
       (case since of
          Some l \<Rightarrow> l
        | None \<Rightarrow> GRAPH_ME @ ''mailFolders/'' @ f @
            ''/messages/delta?$select=id,subject,from,toRecipients,receivedDateTime,internetMessageId,isRead'') []"

section \<open>The provider\<close>

definition well_known_to_special_use :: "string \<Rightarrow> string option" where
  "well_known_to_special_use wk =
     map_option (\<lambda>u. backslash # u) (map_of
       [(''inbox'', ''Inbox''), (''sentitems'', ''Sent''), (''drafts'', ''Drafts''), (''deleteditems'', ''Trash''),
        (''junkemail'', ''Junk''), (''archive'', ''Archive'')] (to_ascii_lowercase wk))"

definition graph_list_folders :: "'s graph_http \<Rightarrow> ('s, folder_info list) graph" where
  "graph_list_folders h =
     g_chain (graph_folders h) (\<lambda>fs. g_give (map (\<lambda>f.
       \<lparr>i_name = display_name f, i_delim = Some ''/'',
        i_special_use = Option.bind (well_known f) well_known_to_special_use, i_attrs = [], i_selectable = True\<rparr>) fs))"

definition resolve_folder_id :: "'s graph_http \<Rightarrow> string \<Rightarrow> ('s, string) graph" where
  "resolve_folder_id h n =
     g_chain (graph_folders h) (\<lambda>fs.
       case List.find (\<lambda>f. eq_ignore_ascii_case (display_name f) n) fs of
         Some f \<Rightarrow> g_give (gf_id f)
       | None \<Rightarrow> g_fail (Missing ''folder not found by display_name''))"

definition graph_row :: "int \<Rightarrow> graph_message \<Rightarrow> header_row outcome" where
  "graph_row now m =
     bind_outcome (case gm_received m of Some t \<Rightarrow> parse_graph_date t | None \<Rightarrow> Return None) (\<lambda>date. Return
       \<lparr>n_uid = graph_id_to_uid (gm_id m), n_uidvalidity = 0, n_message_id = gm_message_id m,
        n_subject = gm_subject m, n_from_addr = map_option graph_formatted (gm_from m),
        n_to_addrs = (if gm_to m = [] then None else Some (join '', '' (map graph_formatted (gm_to m)))),
        n_date_unix = date, n_flags = (if is_read m then backslash # ''Seen'' else []),
        n_fetched_at_unix = now, n_provider_id = Some (gm_id m)\<rparr>)"

fun graph_rows :: "int \<Rightarrow> graph_message list \<Rightarrow> header_row list outcome" where
  "graph_rows now [] = Return []"
| "graph_rows now (m # ms) =
     bind_outcome (graph_row now m) (\<lambda>r. bind_outcome (graph_rows now ms) (\<lambda>rs. Return (r # rs)))"

definition graph_fetch_headers :: "'s graph_http \<Rightarrow> int \<Rightarrow> string \<Rightarrow> ('s, header_snapshot outcome) graph" where
  "graph_fetch_headers h now f =
     g_chain (resolve_folder_id h f) (\<lambda>i. g_chain (graph_list_all h i) (\<lambda>ms.
       g_give (bind_outcome (graph_rows now ms) (\<lambda>rows. Return
         \<lparr>s_rows = rows, s_complete = True, s_transport = Opaque\<rparr>))))"

definition resolve_graph_id :: "'s graph_http \<Rightarrow> db option \<Rightarrow> string \<Rightarrow> int \<Rightarrow> ('s, string) graph" where
  "resolve_graph_id h d f u =
     (case Option.bind d (provider_id_for f u) of
        Some p \<Rightarrow> g_give p
      | None \<Rightarrow>
          g_chain (resolve_folder_id h f) (\<lambda>i. g_chain (graph_list_messages h i 500) (\<lambda>ms.
            case List.find (\<lambda>m. graph_id_to_uid (gm_id m) = u) ms of
              Some m \<Rightarrow> g_give (gm_id m)
            | None \<Rightarrow> g_fail (Missing ''uid not found in recent 500 messages''))))"

definition answered :: "('s \<Rightarrow> 's answer) \<Rightarrow> ('s, string) graph" where
  "answered request s = Some (ensure_api_success (request s))"

definition acknowledged :: "('s \<Rightarrow> 's answer) \<Rightarrow> ('s, unit) graph" where
  "acknowledged request = g_chain (answered request) (\<lambda>_. g_give ())"

definition fetch_mime :: "'s graph_http \<Rightarrow> string \<Rightarrow> ('s, string) graph" where
  "fetch_mime h i = answered (g_get h (GRAPH_ME @ ''messages/'' @ i @ ''/$value''))"

definition graph_fetch_body :: "'s graph_http \<Rightarrow> db option \<Rightarrow> string \<Rightarrow> int \<Rightarrow> ('s, string) graph" where
  "graph_fetch_body h d f u = g_chain (resolve_graph_id h d f u) (fetch_mime h)"

definition graph_send_mime :: "'s graph_http \<Rightarrow> bool \<Rightarrow> string \<Rightarrow> ('s, unit) graph" where
  "graph_send_mime h save_to_sent msg =
     acknowledged (g_post_mime h (GRAPH_ME @ (if save_to_sent then ''sendMail'' else ''sendMail?saveToSentItems=false'')) msg)"

definition mentions :: "string \<Rightarrow> string list \<Rightarrow> bool" where
  "mentions flag fs \<longleftrightarrow> list_ex (\<lambda>f. eq_ignore_ascii_case f flag) fs"

definition graph_flags_patch :: "string list \<Rightarrow> string list \<Rightarrow> (string \<times> json) list" where
  "graph_flags_patch add remove =
     (if mentions (backslash # ''seen'') add then [(''isRead'', Bool True)]
      else if mentions (backslash # ''seen'') remove then [(''isRead'', Bool False)] else []) @
     (if mentions (backslash # ''flagged'') add then [(''flag'', Obj [(''flagStatus'', Str ''flagged'')])]
      else if mentions (backslash # ''flagged'') remove then [(''flag'', Obj [(''flagStatus'', Str ''notFlagged'')])]
      else [])"

definition graph_set_flags ::
  "'s graph_http \<Rightarrow> db option \<Rightarrow> string \<Rightarrow> int \<Rightarrow> string list \<Rightarrow> string list \<Rightarrow> ('s, unit) graph" where
  "graph_set_flags h d f u add remove =
     (if add = [] \<and> remove = [] then g_give ()
      else g_chain (resolve_graph_id h d f u) (\<lambda>i.
        if graph_flags_patch add remove = [] then g_give ()
        else acknowledged (g_patch h (GRAPH_ME @ ''messages/'' @ i) (Obj (graph_flags_patch add remove)))))"

definition graph_move_message :: "'s graph_http \<Rightarrow> db option \<Rightarrow> string \<Rightarrow> int \<Rightarrow> string \<Rightarrow> ('s, unit) graph" where
  "graph_move_message h d f u dest =
     g_chain (resolve_graph_id h d f u) (\<lambda>i. g_chain (resolve_folder_id h dest) (\<lambda>dest_id.
       acknowledged (g_post h (GRAPH_ME @ ''messages/'' @ i @ ''/move'') (Obj [(''destinationId'', Str dest_id)]))))"

definition graph_send :: "'s graph_http \<Rightarrow> string \<Rightarrow> ('s, unit) graph" where
  "graph_send h = graph_send_mime h True"

definition graph_expunge_folder :: "string \<Rightarrow> ('s, nat) graph" where
  "graph_expunge_folder f = g_give 0"

definition graph_create_folder :: "'s graph_http \<Rightarrow> string \<Rightarrow> ('s, unit) graph" where
  "graph_create_folder h n = acknowledged (g_post h (GRAPH_ME @ ''mailFolders'') (Obj [(''displayName'', Str n)]))"

definition graph_delete_folder :: "'s graph_http \<Rightarrow> string \<Rightarrow> ('s, unit) graph" where
  "graph_delete_folder h n =
     g_chain (resolve_folder_id h n) (\<lambda>i. acknowledged (g_delete h (GRAPH_ME @ ''mailFolders/'' @ i)))"

definition graph_rename_folder :: "'s graph_http \<Rightarrow> string \<Rightarrow> string \<Rightarrow> ('s, unit) graph" where
  "graph_rename_folder h n to =
     g_chain (resolve_folder_id h n) (\<lambda>i.
       acknowledged (g_patch h (GRAPH_ME @ ''mailFolders/'' @ i) (Obj [(''displayName'', Str to)])))"

definition graph_subscribe_folder :: "string \<Rightarrow> bool \<Rightarrow> ('s, unit) graph" where
  "graph_subscribe_folder n on = g_give ()"

definition graph_append_draft :: "'s graph_http \<Rightarrow> string \<Rightarrow> string \<Rightarrow> ('s, unit) graph" where
  "graph_append_draft h f msg =
     g_chain (resolve_folder_id h f) (\<lambda>i.
       acknowledged (g_post_mime h (GRAPH_ME @ ''mailFolders/'' @ i @ ''/messages'') msg))"

end
