(* ===== verification/Jmap_Changes.thy ===== *)
theory Jmap_Changes
  imports Jmap_Provider Wkd
begin

text \<open>
  What the JMAP client changes on the server (crates/inbx-net/src/jmap.rs): flags and mailboxes of
  messages, drafts and sent mail, expunging, and the folder tree.
\<close>

section \<open>Flags and mailboxes of a message\<close>

type_synonym patch = "(string \<times> json) list"

definition patch_flag :: "json \<Rightarrow> string \<Rightarrow> patch \<Rightarrow> patch" where
  "patch_flag v flag p =
     (case imap_flag_to_jmap flag of Some kw \<Rightarrow> AList.update (''keywords/'' @ kw) v p | None \<Rightarrow> p)"

definition flags_patch :: "string list \<Rightarrow> string list \<Rightarrow> patch" where
  "flags_patch add remove = fold (patch_flag Null) remove (fold (patch_flag (Bool True)) add [])"

text \<open>One \<^verbatim>\<open>Email/set\<close> or \<^verbatim>\<open>Mailbox/set\<close> call whose effect on one object is checked.\<close>

definition checked_set ::
  "'s http \<Rightarrow> jmap_client \<Rightarrow> string \<Rightarrow> string \<Rightarrow> json \<Rightarrow> string \<Rightarrow> string \<Rightarrow> string \<Rightarrow> string list \<Rightarrow> ('s, json) jmap" where
  "checked_set h c method verb arg i succeeded failed keys =
     chain (invoke_mail h c [call method [(''accountId'', Str (account_id c)), (verb, arg)] i])
       (\<lambda>v. lift (and_then (validate_email_mutation v i succeeded failed keys) (\<lambda>_. Inr v)))"

definition set_email_flags :: "'s http \<Rightarrow> jmap_client \<Rightarrow> string \<Rightarrow> string list \<Rightarrow> string list \<Rightarrow> ('s, unit) jmap" where
  "set_email_flags h c jmap_id add remove =
     (if flags_patch add remove = [] then give ()
      else chain (checked_set h c ''Email/set'' ''update'' (Obj [(jmap_id, Obj (flags_patch add remove))])
                    ''u'' ''updated'' ''notUpdated'' [jmap_id]) (\<lambda>_. give ()))"

definition move_patch :: "string \<Rightarrow> string \<Rightarrow> patch" where
  "move_patch from_id to_id =
     AList.update (''mailboxIds/'' @ from_id) Null (AList.update (''mailboxIds/'' @ to_id) (Bool True) [])"

definition move_email :: "'s http \<Rightarrow> jmap_client \<Rightarrow> string \<Rightarrow> string \<Rightarrow> string \<Rightarrow> ('s, unit) jmap" where
  "move_email h c jmap_id from_id to_id =
     chain (checked_set h c ''Email/set'' ''update'' (Obj [(jmap_id, Obj (move_patch from_id to_id))])
              ''m'' ''updated'' ''notUpdated'' [jmap_id]) (\<lambda>_. give ())"

section \<open>Uploads and downloads\<close>

definition needed :: "string option \<Rightarrow> string \<Rightarrow> jmap_error + string" where
  "needed v what = (case v of Some x \<Rightarrow> Inr x | None \<Rightarrow> Inl (Server 0 what))"

text \<open>The status of the answer to an upload is not looked at, only its JSON.\<close>

definition upload_blob :: "'s http \<Rightarrow> jmap_client \<Rightarrow> string \<Rightarrow> ('s, string) jmap" where
  "upload_blob h c msg =
     chain (lift (needed (upload_url (session_of c)) ''session has no uploadUrl'')) (\<lambda>url s.
       case post_raw h (replace_sub ''{accountId}'' (account_id c) url) msg s of
         (s', Inl e) \<Rightarrow> (s', Inl (Transport e))
       | (s', Inr (_, text)) \<Rightarrow>
           (s', and_then (json_of h text) (\<lambda>v. needed (as_str (at_key v ''blobId'')) ''upload missing blobId'')))"

definition import_call :: "jmap_client \<Rightarrow> string \<Rightarrow> string \<Rightarrow> string \<Rightarrow> patch \<Rightarrow> json" where
  "import_call c key blob mailbox_id keywords =
     call ''Email/import''
       [(''accountId'', Str (account_id c)),
        (''emails'', Obj [(key, Obj [(''blobId'', Str blob), (''mailboxIds'', Obj [(mailbox_id, Bool True)]),
           (''keywords'', Obj keywords)])])] ''i''"

definition import_draft :: "'s http \<Rightarrow> jmap_client \<Rightarrow> string \<Rightarrow> string \<Rightarrow> ('s, unit) jmap" where
  "import_draft h c mailbox_id msg =
     chain (upload_blob h c msg) (\<lambda>blob.
     chain (invoke_mail h c [import_call c ''d'' blob mailbox_id [(''$draft'', Bool True), (''$seen'', Bool True)]])
       (\<lambda>v. lift (validate_email_mutation v ''i'' ''created'' ''notCreated'' [''d''])))"

definition send_mime :: "'s http \<Rightarrow> jmap_client \<Rightarrow> string \<Rightarrow> ('s, unit) jmap" where
  "send_mime h c msg =
     chain (upload_blob h c msg) (\<lambda>blob.
     chain (list_mailboxes h c) (\<lambda>ms. chain (lift (resolve_mailbox ms ''Drafts'')) (\<lambda>drafts.
     chain (invoke h c
       [import_call c ''ev'' blob (mb_id drafts) [(''$draft'', Bool True)],
        call ''EmailSubmission/set''
          [(''accountId'', Str (account_id c)),
           (''create'', Obj [(''s'', Obj [(''emailId'', Str ''#ev''), (''envelope'', Null)])]),
           (''onSuccessDestroyEmail'', Arr [Str ''#s''])] ''s'']
       [CORE_CAPABILITY, MAIL_CAPABILITY, SUBMISSION_CAPABILITY])
       (\<lambda>v. lift (and_then (validate_email_mutation v ''i'' ''created'' ''notCreated'' [''ev''])
                    (\<lambda>_. validate_email_mutation v ''s'' ''created'' ''notCreated'' [''s'']))))))"

text \<open>\<^verbatim>\<open>form_urlencoded::byte_serialize\<close>, its plus signs as \<open>%20\<close>.\<close>

definition form_unreserved :: "char \<Rightarrow> bool" where
  "form_unreserved x \<longleftrightarrow> is_ascii_alphanumeric x \<or> x \<in> set ''*-._''"

definition encode_component :: "string \<Rightarrow> string" where
  "encode_component s =
     concat (map (\<lambda>x. if form_unreserved x then [x]
       else [CHR ''%'', hex_digit (byte x div 16), hex_digit (byte x mod 16)]) s)"

definition expand_download_url_template :: "string \<Rightarrow> string \<Rightarrow> string \<Rightarrow> string \<Rightarrow> string \<Rightarrow> string" where
  "expand_download_url_template template account blob content_type file_name =
     replace_sub ''{name}'' (encode_component file_name)
       (replace_sub ''{type}'' (encode_component content_type)
         (replace_sub ''{blobId}'' (encode_component blob)
           (replace_sub ''{accountId}'' (encode_component account) template)))"

definition fetch_raw_blob_via_template :: "'s http \<Rightarrow> jmap_client \<Rightarrow> string \<Rightarrow> string \<Rightarrow> ('s, string) jmap" where
  "fetch_raw_blob_via_template h c blob template s =
     (case get_url h (expand_download_url_template template (account_id c) blob ''message/rfc822'' ''message.eml'') s of
        (s', r) \<Rightarrow> (s', ensure_success r))"

definition fetch_raw_blob :: "'s http \<Rightarrow> jmap_client \<Rightarrow> string \<Rightarrow> ('s, string) jmap" where
  "fetch_raw_blob h c jmap_id =
     chain (invoke_mail h c [call ''Email/get'' [(''accountId'', Str (account_id c)), (''ids'', Arr [Str jmap_id]),
         (''properties'', Arr [Str ''blobId''])] ''b''])
       (\<lambda>v. chain (lift (needed (as_str (at_key (at_index (at_key (payload_of v 0) ''list'') 0) ''blobId''))
                          (''no blobId for JMAP id '' @ jmap_id))) (\<lambda>blob.
            chain (lift (needed (download_url (session_of c)) ''session has no downloadUrl''))
              (fetch_raw_blob_via_template h c blob)))"

section \<open>The provider's operations on messages\<close>

definition scan_recent :: "'s http \<Rightarrow> jmap_client \<Rightarrow> int \<Rightarrow> ('s, string) jmap" where
  "scan_recent h c u =
     chain (invoke_mail h c
       [call ''Email/query'' [(''accountId'', Str (account_id c)), (''sort'', newest_first), (''limit'', Num 500)] ''q'',
        call ''Email/get'' [(''accountId'', Str (account_id c)), (''#ids'', ids_of_query),
          (''properties'', Arr [Str ''id''])] ''g''])
       (\<lambda>v. let es = or_default [] (as_array (at_key (payload_of v 1) ''list'')) in
            lift (needed (List.find (\<lambda>i. jmap_id_to_uid i = u) (List.map_filter (\<lambda>e. as_str (at_key e ''id'')) es))
                    (''JMAP: uid '' @ show_int u @ '' not found in recent 500 messages'')))"

definition resolve_jmap_id :: "'s http \<Rightarrow> jmap_client \<Rightarrow> string \<Rightarrow> int \<Rightarrow> ('s, string) jmap" where
  "resolve_jmap_id h c f u =
     (case Option.bind (client_store c) (provider_id_for f u) of
        Some p \<Rightarrow> give p
      | None \<Rightarrow> scan_recent h c u)"

definition fetch_body :: "'s http \<Rightarrow> jmap_client \<Rightarrow> string \<Rightarrow> int \<Rightarrow> ('s, string) jmap" where
  "fetch_body h c f u = chain (resolve_jmap_id h c f u) (fetch_raw_blob h c)"

definition set_flags :: "'s http \<Rightarrow> jmap_client \<Rightarrow> string \<Rightarrow> int \<Rightarrow> string list \<Rightarrow> string list \<Rightarrow> ('s, unit) jmap" where
  "set_flags h c f u add remove = chain (resolve_jmap_id h c f u) (\<lambda>i. set_email_flags h c i add remove)"

definition mailbox_named :: "'s http \<Rightarrow> jmap_client \<Rightarrow> string \<Rightarrow> ('s, Jmap_Mailboxes.mailbox) jmap" where
  "mailbox_named h c f = chain (list_mailboxes h c) (\<lambda>ms. lift (resolve_mailbox ms f))"

definition move_message :: "'s http \<Rightarrow> jmap_client \<Rightarrow> string \<Rightarrow> int \<Rightarrow> string \<Rightarrow> ('s, unit) jmap" where
  "move_message h c f u dest =
     chain (resolve_jmap_id h c f u) (\<lambda>i. chain (list_mailboxes h c) (\<lambda>ms.
     chain (lift (resolve_mailbox ms f)) (\<lambda>a. chain (lift (resolve_mailbox ms dest)) (\<lambda>b.
       move_email h c i (mb_id a) (mb_id b)))))"

definition append_draft :: "'s http \<Rightarrow> jmap_client \<Rightarrow> string \<Rightarrow> ('s, unit) jmap" where
  "append_draft h c msg = chain (mailbox_named h c ''Drafts'') (\<lambda>m. import_draft h c (mb_id m) msg)"

section \<open>Expunging\<close>

definition email_set_batches :: "string list \<Rightarrow> nat \<Rightarrow> string list list" where
  "email_set_batches mids limit = chunks limit mids"

definition expunge_page_progresses :: "string list option \<Rightarrow> string list \<Rightarrow> jmap_error + unit" where
  "expunge_page_progresses previous mids =
     (if mids \<noteq> [] \<and> previous = Some mids then Inl Incomplete_Query else Inr ())"

definition destroy_batch :: "'s http \<Rightarrow> jmap_client \<Rightarrow> string list \<Rightarrow> ('s, unit) jmap" where
  "destroy_batch h c batch =
     chain (checked_set h c ''Email/set'' ''destroy'' (Arr (map Str batch)) ''d'' ''destroyed'' ''notDestroyed'' batch)
       (\<lambda>_. give ())"

fun destroy_batches :: "'s http \<Rightarrow> jmap_client \<Rightarrow> string list list \<Rightarrow> nat \<Rightarrow> ('s, nat) jmap" where
  "destroy_batches h c [] removed s = (s, Inr removed)"
| "destroy_batches h c (b # bs) removed s =
     chain (destroy_batch h c b) (\<lambda>_. destroy_batches h c bs (removed + length b)) s"

definition query_deleted :: "'s http \<Rightarrow> jmap_client \<Rightarrow> string \<Rightarrow> ('s, string list) jmap" where
  "query_deleted h c mb =
     chain (invoke_mail h c
       [call ''Email/query'' [(''accountId'', Str (account_id c)),
          (''filter'', Obj [(''inMailbox'', Str mb), (''hasKeyword'', Str ''$deleted'')]),
          (''limit'', Num (int (max_objects_in_set (session_of c))))] ''q''])
       (\<lambda>v. give (as_id_vec (at_key (payload_of v 0) ''ids'')))"

text \<open>\<open>None\<close> is a loop that does not end: a server may answer with new ids for ever.\<close>

partial_function (option) expunge_loop ::
  "'s http \<Rightarrow> jmap_client \<Rightarrow> string \<Rightarrow> nat \<Rightarrow> string list option \<Rightarrow> 's \<Rightarrow> ('s \<times> (jmap_error + nat)) option" where
  "expunge_loop h c mb removed previous s =
     (case query_deleted h c mb s of
        (s1, Inl e) \<Rightarrow> Some (s1, Inl e)
      | (s1, Inr mids) \<Rightarrow>
          if mids = [] then Some (s1, Inr removed)
          else (case expunge_page_progresses previous mids of
            Inl e \<Rightarrow> Some (s1, Inl e)
          | Inr _ \<Rightarrow>
              (case destroy_batches h c (email_set_batches mids (max_objects_in_set (session_of c))) removed s1 of
                 (s2, Inl e) \<Rightarrow> Some (s2, Inl e)
               | (s2, Inr n) \<Rightarrow> expunge_loop h c mb n (Some mids) s2)))"

definition expunge_folder :: "'s http \<Rightarrow> jmap_client \<Rightarrow> string \<Rightarrow> 's \<Rightarrow> ('s \<times> (jmap_error + nat)) option" where
  "expunge_folder h c f s =
     (case mailbox_named h c f s of
        (s', Inl e) \<Rightarrow> Some (s', Inl e)
      | (s', Inr m) \<Rightarrow> expunge_loop h c (mb_id m) 0 None s')"

section \<open>Folders\<close>

definition special_use_of_role :: "string \<Rightarrow> string" where
  "special_use_of_role r =
     backslash # (case map_of [(''inbox'', ''Inbox''), (''archive'', ''Archive''), (''drafts'', ''Drafts''), (''sent'', ''Sent''),
        (''junk'', ''Junk''), (''spam'', ''Junk''), (''trash'', ''Trash''), (''all'', ''All'')] r of
        Some u \<Rightarrow> u | None \<Rightarrow> r)"

text \<open>Every mailbox has a path when there are paths.\<close>

definition folder_of_mailbox :: "(string \<rightharpoonup> string) \<Rightarrow> Jmap_Mailboxes.mailbox \<Rightarrow> folder_info" where
  "folder_of_mailbox paths m =
     \<lparr>i_name = or_default [] (paths (mb_id m)), i_delim = Some ''/'',
      i_special_use = map_option special_use_of_role (mb_role m), i_attrs = [], i_selectable = True\<rparr>"

definition list_folders_jmap :: "'s http \<Rightarrow> jmap_client \<Rightarrow> ('s, folder_info list) jmap" where
  "list_folders_jmap h c =
     chain (list_mailboxes h c) (\<lambda>ms. chain (lift (mailbox_paths ms)) (\<lambda>paths.
       give (map (folder_of_mailbox paths) ms)))"

definition create_mailbox :: "'s http \<Rightarrow> jmap_client \<Rightarrow> string \<Rightarrow> string option \<Rightarrow> ('s, json) jmap" where
  "create_mailbox h c n parent =
     checked_set h c ''Mailbox/set'' ''create''
       (Obj [(''new'', Obj [(''name'', Str n), (''parentId'', case parent of Some p \<Rightarrow> Str p | None \<Rightarrow> Null)])])
       ''c'' ''created'' ''notCreated'' [''new'']"

text \<open>The walk over the segments: the mailboxes known so far and the parent.\<close>

fun create_segments ::
  "'s http \<Rightarrow> jmap_client \<Rightarrow> string list \<Rightarrow> Jmap_Mailboxes.mailbox list \<Rightarrow> string option \<Rightarrow> ('s, Jmap_Mailboxes.mailbox list) jmap" where
  "create_segments h c [] ms parent s = (s, Inr ms)"
| "create_segments h c (seg # segs) ms parent s =
     (case List.find (\<lambda>m. mb_parent m = parent \<and> eq_ignore_ascii_case (mb_name m) seg) ms of
        Some m \<Rightarrow> create_segments h c segs ms (Some (mb_id m)) s
      | None \<Rightarrow>
          chain (create_mailbox h c seg parent) (\<lambda>v.
          chain (lift (needed (as_str (at_key (at_key (at_key (payload_of v 0) ''created'') ''new'') ''id''))
                        (''JMAP: no id returned for created mailbox '' @ [CHR 0x27] @ seg @ [CHR 0x27]))) (\<lambda>new_id.
            create_segments h c segs
              (ms @ [\<lparr>mb_id = new_id, mb_name = seg, mb_parent = parent, mb_role = None, mb_total = 0, mb_unread = 0\<rparr>])
              (Some new_id))) s)"

definition create_folder :: "'s http \<Rightarrow> jmap_client \<Rightarrow> string \<Rightarrow> ('s, unit) jmap" where
  "create_folder h c f =
     chain (lift (split_mailbox_path f)) (\<lambda>segs.
       if length segs = 1 then chain (create_mailbox h c (segs ! 0) None) (\<lambda>_. give ())
       else chain (list_mailboxes h c) (\<lambda>ms. chain (create_segments h c segs ms None) (\<lambda>_. give ())))"

definition delete_folder :: "'s http \<Rightarrow> jmap_client \<Rightarrow> string \<Rightarrow> ('s, unit) jmap" where
  "delete_folder h c f =
     chain (mailbox_named h c f) (\<lambda>m.
     chain (checked_set h c ''Mailbox/set'' ''destroy'' (Arr [Str (mb_id m)]) ''d'' ''destroyed'' ''notDestroyed'' [mb_id m])
       (\<lambda>_. give ()))"

definition update_mailbox :: "'s http \<Rightarrow> jmap_client \<Rightarrow> string \<Rightarrow> patch \<Rightarrow> string \<Rightarrow> ('s, unit) jmap" where
  "update_mailbox h c f p i =
     chain (mailbox_named h c f) (\<lambda>m.
     chain (checked_set h c ''Mailbox/set'' ''update'' (Obj [(mb_id m, Obj p)]) i ''updated'' ''notUpdated'' [mb_id m])
       (\<lambda>_. give ()))"

definition rename_folder :: "'s http \<Rightarrow> jmap_client \<Rightarrow> string \<Rightarrow> string \<Rightarrow> ('s, unit) jmap" where
  "rename_folder h c f to = update_mailbox h c f [(''name'', Str to)] ''u''"

definition subscribe_folder :: "'s http \<Rightarrow> jmap_client \<Rightarrow> string \<Rightarrow> bool \<Rightarrow> ('s, unit) jmap" where
  "subscribe_folder h c f on = update_mailbox h c f [(''isSubscribed'', Bool on)] ''s''"

end
