(* ===== verification/Jmap_Props.thy ===== *)
theory Jmap_Props
  imports Jmap_Changes Snapshot_Mirror
begin

text \<open>
  What the JMAP client achieves against a server that keeps its word: complete listings
  arrive in the index, expunging ends, folders and flags are what was asked for.
\<close>

section \<open>Flags\<close>

lemma map_of_patch_flags:
  "map_of (fold (patch_flag v) fs p) (''keywords/'' @ k) =
     (if Some k \<in> imap_flag_to_jmap ` set fs then Some v else map_of p (''keywords/'' @ k))"
  by (induction fs arbitrary: p) (auto simp: patch_flag_def update_conv split: option.splits)

text \<open>
  The patch for one message removes every keyword whose flag is to be removed, sets every
  other one whose flag is to be added, and mentions no other keyword.
\<close>

theorem flags_patch_effect:
  "map_of (flags_patch add remove) (''keywords/'' @ k) =
     (if Some k \<in> imap_flag_to_jmap ` set remove then Some Null
      else if Some k \<in> imap_flag_to_jmap ` set add then Some (Bool True) else None)"
  by (simp only: flags_patch_def map_of_patch_flags map_of.simps)

section \<open>Complete listings\<close>

text \<open>
  What RFC 8620 says of \<^verbatim>\<open>Email/query\<close> when a total is reported: a page starts where it was asked to, holds some of the ids
  from there on, and the total and the query state stay the same while the listing does.
\<close>

definition pages_listing :: "'s http \<Rightarrow> jmap_client \<Rightarrow> string \<Rightarrow> string \<Rightarrow> ('s \<Rightarrow> string list) \<Rightarrow> bool" where
  "pages_listing h c mb st listing \<longleftrightarrow>
     (\<forall>s q. q \<le> length (listing s) \<and> length (listing s) < 2 ^ 32 \<longrightarrow>
        (\<exists>s' r n. query_page h c mb q s = (s', Inr r) \<and> listing s' = listing s \<and> 0 < n \<and>
           as_id_vec (at_key r ''ids'') = take n (drop q (listing s)) \<and>
           as_u64 (at_key r ''position'') = Some q \<and> as_str (at_key r ''queryState'') = Some st \<and>
           as_u64 (at_key r ''total'') = Some (length (listing s))))"

lemma next_page_valid:
  assumes "distinct all" "mids = take (length mids) all" "0 < n"
    "previous = None \<or> previous = Some (st, length all)"
  shows "validate_query_page (length mids) previous mids (take n (drop (length mids) all))
      (Some (length mids), Some st, Some (length all)) = Inr (st, length all)"
proof -
  have "set mids \<inter> set (drop (length mids) all) = {}"
    using set_take_disj_set_drop_if_distinct [OF assms(1), of "length mids" "length mids"] assms(2) by simp
  then have "\<not> list_ex (\<lambda>i. i \<in> set mids) (take n (drop (length mids) all))"
    by (auto simp: list_ex_iff dest: in_set_takeD)
  moreover have "length mids \<le> length all" using assms(2) by (metis length_take min.cobounded1)
  ultimately show ?thesis using assms by (auto simp: validate_query_page_def)
qed

lemma query_pages_complete:
  assumes "pages_listing h c mb st listing" "distinct all" "length all < 2 ^ 32"
  shows "listing s = all \<Longrightarrow> mids = take (length mids) all \<Longrightarrow>
    previous = None \<or> previous = Some (st, length all) \<Longrightarrow>
    \<exists>s'. query_pages h c mb (length mids) previous mids s = (s', Inr all) \<and> listing s' = all"
proof (induction "length all - length mids" arbitrary: mids previous s rule: less_induct)
  case less
  let ?q = "length mids"
  have q: "?q \<le> length all" using less.prems(2) by (metis length_take min.cobounded1)
  obtain s' r n where r: "query_page h c mb ?q s = (s', Inr r)" "listing s' = all" "0 < n"
      "as_id_vec (at_key r ''ids'') = take n (drop ?q all)"
      "as_u64 (at_key r ''position'') = Some ?q" "as_str (at_key r ''queryState'') = Some st"
      "as_u64 (at_key r ''total'') = Some (length all)"
    using assms(1) [unfolded pages_listing_def, rule_format, of ?q s] q less.prems(1) assms(3) by auto
  let ?page = "take n (drop ?q all)"
  have mids': "mids @ ?page = take (?q + n) all" using less.prems(2) by (metis take_add)
  note step = query_pages.simps [of h c mb ?q previous mids s]
  note valid = next_page_valid [OF assms(2) less.prems(2) r(3) less.prems(3)]
  show ?case
  proof (cases "length all \<le> length (mids @ ?page)")
    case True
    then have "mids @ ?page = all" unfolding mids' by simp
    then show ?thesis using True r valid
      by (simp add: step next_query_position_def del: append_take_drop_id)
  next
    case False
    then have p: "?page \<noteq> []" "length (mids @ ?page) < 2 ^ 32" using r(3) assms(3) q by auto
    have "length all - length (mids @ ?page) < length all - length mids"
      "mids @ ?page = take (length (mids @ ?page)) all" using False mids' r(3) by auto
    from less.hyps [OF this(1) r(2) this(2)]
    obtain s'' where "query_pages h c mb (length (mids @ ?page)) (Some (st, length all)) (mids @ ?page) s' = (s'', Inr all)"
        "listing s'' = all" by blast
    moreover have "\<not> length all \<le> length mids + n" using False by auto
    ultimately show ?thesis using r valid p by (simp add: step next_query_position_def)
  qed
qed

lemma query_all_complete:
  assumes "pages_listing h c mb st listing" "distinct (listing s)" "length (listing s) < 2 ^ 32"
  shows "\<exists>s'. query_all_email_ids h c mb s = (s', Inr (listing s)) \<and> listing s' = listing s"
  using query_pages_complete [OF assms refl, of "[]" None] by (simp add: query_all_email_ids_def)

text \<open>What the batches of \<^verbatim>\<open>Email/get\<close> return has the ids that were asked for.\<close>

lemma fst_chain: "chain m f s = (s', Inr y) \<Longrightarrow> \<exists>s1 x. m s = (s1, Inr x) \<and> f x s1 = (s', Inr y)"
  by (auto simp: chain_def split: prod.splits sum.splits)

lemma get_batches_ids:
  "get_batches h c bs s = (s', Inr es) \<Longrightarrow> length es = length (concat bs) \<and> set (map eh_id es) = set (concat bs)"
proof (induction bs arbitrary: s es)
  case (Cons b bs)
  from Cons.prems obtain s1 page where p: "fetch_by_ids h c b s = (s1, Inr page)"
      and rest: "(if length page \<noteq> length b \<or> set (map eh_id page) \<noteq> set b then lift (Inl Incomplete_Query)
         else chain (get_batches h c bs) (\<lambda>rest. give (page @ rest))) s1 = (s', Inr es)"
    by (auto dest: fst_chain)
  then have b: "length page = length b" "set (map eh_id page) = set b"
    by (auto simp: lift_def split: if_splits)
  then obtain rest where "es = page @ rest" "get_batches h c bs s1 = (s', Inr rest)"
    using rest by (auto simp: give_def dest!: fst_chain)
  with Cons.IH [of s1 rest] b show ?case by simp
qed simp

lemma get_email_headers_ids:
  "get_email_headers h c mids s = (s', Inr es) \<Longrightarrow> length es = length mids \<and> set (map eh_id es) = set mids"
  using get_batches_ids [of h c "email_get_batches mids (max_objects_in_get (session_of c))" s s' es]
  by (simp add: get_email_headers_def email_get_batches_def concat_chunks)

lemma header_rows_of_ids:
  "header_rows_of now es = Return rows \<Longrightarrow> map n_provider_id rows = map (\<lambda>e. Some (eh_id e)) es"
  by (induction es arbitrary: rows)
    (auto simp: header_row_of_def bind_outcome_def split: outcome.splits option.splits)

lemma fetch_headers_cases:
  assumes "fetch_headers h c now f s = (s', Inr (Return snap))"
  obtains s0 m s1 mids s2 es rows where
    "mailbox_named h c f s = (s0, Inr m)" "query_all_email_ids h c (mb_id m) s0 = (s1, Inr mids)"
    "get_email_headers h c mids s1 = (s2, Inr es)" "header_rows_of now es = Return rows"
    "snap = \<lparr>s_rows = rows, s_complete = True, s_transport = Opaque\<rparr>"
proof -
  obtain s0 ms where ms: "list_mailboxes h c s = (s0, Inr ms)"
      and 1: "chain (lift (resolve_mailbox ms f)) (\<lambda>mb.
        chain (query_all_email_ids h c (mb_id mb)) (\<lambda>mids.
        chain (get_email_headers h c mids) (\<lambda>es.
          give (bind_outcome (header_rows_of now es) (\<lambda>rows. Return
               \<lparr>s_rows = rows, s_complete = True, s_transport = Opaque\<rparr>))))) s0 = (s', Inr (Return snap))"
    using fst_chain [OF assms [unfolded fetch_headers_def]] by blast
  obtain s0' m where m: "lift (resolve_mailbox ms f) s0 = (s0', Inr m)"
      and 2: "chain (query_all_email_ids h c (mb_id m)) (\<lambda>mids.
        chain (get_email_headers h c mids) (\<lambda>es.
          give (bind_outcome (header_rows_of now es) (\<lambda>rows. Return
               \<lparr>s_rows = rows, s_complete = True, s_transport = Opaque\<rparr>)))) s0' = (s', Inr (Return snap))"
    using fst_chain [OF 1] by blast
  from m have s0': "s0' = s0" and r: "resolve_mailbox ms f = Inr m" by (auto simp: lift_def)
  obtain s1 mids where "query_all_email_ids h c (mb_id m) s0 = (s1, Inr mids)"
      "chain (get_email_headers h c mids) (\<lambda>es.
          give (bind_outcome (header_rows_of now es) (\<lambda>rows. Return
               \<lparr>s_rows = rows, s_complete = True, s_transport = Opaque\<rparr>))) s1 = (s', Inr (Return snap))"
    using fst_chain [OF 2] s0' by blast
  moreover from this obtain s2 es where "get_email_headers h c mids s1 = (s2, Inr es)"
      "give (bind_outcome (header_rows_of now es) (\<lambda>rows. Return
               \<lparr>s_rows = rows, s_complete = True, s_transport = Opaque\<rparr>)) s2 = (s', Inr (Return snap))"
    using fst_chain by meson
  moreover have "mailbox_named h c f s = (s0, Inr m)"
    using ms r by (simp add: mailbox_named_def lift_def)
  ultimately show ?thesis
    using that by (auto simp: give_def bind_outcome_def split: outcome.splits)
qed



text \<open>
  C37. A server that leaves out the total, as RFC 8620 lets it when \<^verbatim>\<open>calculateTotal\<close> is not
  requested, is taken for one whose listing is incomplete: no folder can be listed.
\<close>

theorem query_without_total_fails:
  assumes "query_page h c mb 0 s = (s', Inr r)" and "get_key ''total'' r = None"
  shows "query_all_email_ids h c mb s = (s', Inl Incomplete_Query)"
  using assms by (simp add: query_all_email_ids_def query_pages.simps [of h c mb 0] validate_query_page_def at_key_def)

section \<open>Expunging\<close>

text \<open>
  What RFC 8620 says of \<^verbatim>\<open>Email/query\<close> and \<^verbatim>\<open>Email/set\<close> for the messages marked as deleted: a query
  returns some of them if there are any, and destroying removes the ones it names.
\<close>

definition expunges :: "'s http \<Rightarrow> jmap_client \<Rightarrow> string \<Rightarrow> ('s \<Rightarrow> string set) \<Rightarrow> bool" where
  "expunges h c mb flagged \<longleftrightarrow>
     (\<forall>s. \<exists>s' page. query_deleted h c mb s = (s', Inr page) \<and> flagged s' = flagged s \<and>
        distinct page \<and> set page \<subseteq> flagged s \<and> (page = [] \<longrightarrow> flagged s = {})) \<and>
     (\<forall>s batch. set batch \<subseteq> flagged s \<longrightarrow>
        (\<exists>s'. destroy_batch h c batch s = (s', Inr ()) \<and> flagged s' = flagged s - set batch))"

lemma expungesE:
  assumes "expunges h c mb flagged"
  obtains s' page where "query_deleted h c mb s = (s', Inr page)" "flagged s' = flagged s" "distinct page"
    "set page \<subseteq> flagged s" "page = [] \<longrightarrow> flagged s = {}"
  using conjunct1 [OF assms [unfolded expunges_def]] by blast

lemma expunges_batch:
  assumes "expunges h c mb flagged" "set batch \<subseteq> flagged s"
  obtains s' where "destroy_batch h c batch s = (s', Inr ())" "flagged s' = flagged s - set batch"
  using conjunct2 [OF assms(1) [unfolded expunges_def]] assms(2) by blast

lemma destroy_batches_all:
  assumes "expunges h c mb flagged"
  shows "distinct (concat bs) \<Longrightarrow> set (concat bs) \<subseteq> flagged s \<Longrightarrow>
    \<exists>s'. destroy_batches h c bs removed s = (s', Inr (removed + length (concat bs))) \<and> flagged s' = flagged s - set (concat bs)"
proof (induction bs arbitrary: removed s)
  case (Cons b bs)
  have "set b \<subseteq> flagged s" using Cons.prems(2) by simp
  then obtain s1 where s1: "destroy_batch h c b s = (s1, Inr ())" "flagged s1 = flagged s - set b"
    by (rule expunges_batch [OF assms])
  from Cons.prems have "distinct (concat bs)" "set (concat bs) \<subseteq> flagged s1"
    by (auto simp: s1(2))
  from Cons.IH [OF this, of "removed + length b"] s1 show ?case by (auto simp: add.assoc)
qed simp

lemma expunge_loop_ends:
  assumes "expunges h c mb flagged"
  shows "finite (flagged s) \<Longrightarrow> (\<And>p. previous = Some p \<Longrightarrow> set p \<inter> flagged s = {}) \<Longrightarrow>
    \<exists>s'. expunge_loop h c mb removed previous s = Some (s', Inr (removed + card (flagged s))) \<and> flagged s' = {}"
proof (induction "card (flagged s)" arbitrary: removed previous s rule: less_induct)
  case less
  obtain s1 page where page: "query_deleted h c mb s = (s1, Inr page)" "flagged s1 = flagged s"
      "distinct page" "set page \<subseteq> flagged s" "page = [] \<longrightarrow> flagged s = {}"
    by (rule expungesE [OF assms, of s])
  note step = expunge_loop.simps [of h c mb removed previous s]
  show ?case
  proof (cases "page = []")
    case True
    then show ?thesis using page by (simp add: step)
  next
    case False
    have new: "previous \<noteq> Some page" using less.prems(2) [of page] page(4) False by (cases page) auto
    let ?bs = "email_set_batches page (max_objects_in_set (session_of c))"
    have bs: "concat ?bs = page" by (simp add: email_set_batches_def concat_chunks)
    obtain s2 where s2: "destroy_batches h c ?bs removed s1 = (s2, Inr (removed + length page))"
        "flagged s2 = flagged s - set page"
      using destroy_batches_all [OF assms, of ?bs s1 removed] page by (auto simp: bs)
    have c: "card (flagged s) = card (flagged s2) + length page"
      using page(3,4) less.prems(1) card_mono [OF less.prems(1) page(4)]
      by (simp add: s2(2) card_Diff_subset distinct_card)
    have "card (flagged s2) < card (flagged s)" "finite (flagged s2)" "set page \<inter> flagged s2 = {}"
      using c False less.prems(1) s2(2) by auto
    from less.hyps [OF this(1,2), of "Some page" "removed + length page"] this(3)
    obtain s3 where "expunge_loop h c mb (removed + length page) (Some page) s2 =
        Some (s3, Inr (removed + length page + card (flagged s2)))" "flagged s3 = {}" by auto
    then show ?thesis using False new page(1) s2(1) c
      by (simp add: step expunge_page_progresses_def add.assoc add.commute)
  qed
qed



section \<open>Creating folders\<close>

lemma escape_append: "escape_mailbox_segment (s @ t) = escape_mailbox_segment s @ escape_mailbox_segment t"
  by (induction s) simp_all

lemma mailbox_path_last:
  "mailbox_path (segs @ [seg]) = concat (map (\<lambda>n. escape_mailbox_segment n @ [slash]) segs) @ escape_mailbox_segment seg"
  by (induction segs) (auto simp: mailbox_path_def join_Cons)

lemma split_segments_canonical:
  "split_segments escaped seg segs cs = Inr out \<Longrightarrow> [] \<notin> set segs \<Longrightarrow>
     mailbox_path out = concat (map (\<lambda>n. escape_mailbox_segment n @ [slash]) segs) @ escape_mailbox_segment seg @
       (if escaped then [backslash] else []) @ cs \<and> out \<noteq> [] \<and> [] \<notin> set out"
proof (induction escaped seg segs cs rule: split_segments.induct)
  case (1 escaped seg segs)
  then show ?case by (auto simp: mailbox_path_last split: if_splits)
next
  case (2 escaped seg segs c cs)
  have ne: "slash \<noteq> backslash" by (simp add: slash_def backslash_def)
  show ?case
  proof (cases escaped)
    case True
    then show ?thesis using 2 ne by (auto simp: escape_append split: if_splits)
  next
    case False
    then show ?thesis using 2 ne by (auto simp: escape_append split: if_splits)
  qed
qed

lemma split_mailbox_path_canonical:
  "split_mailbox_path f = Inr segs \<Longrightarrow> mailbox_path segs = f \<and> segs \<noteq> [] \<and> [] \<notin> set segs"
  by (auto simp: split_mailbox_path_def split: if_splits sum.splits dest!: split_segments_canonical)

lemma by_id_append:
  "distinct (map mb_id (ms @ new)) \<Longrightarrow> by_id ms i = Some p \<Longrightarrow> by_id (ms @ new) i = Some p"
  using by_id_in [of ms i p] by_id_self [of "ms @ new" p] by auto

lemma below_append:
  "below ms m ns \<Longrightarrow> distinct (map mb_id (ms @ new)) \<Longrightarrow> below (ms @ new) m ns"
  by (induction rule: below.induct) (auto intro: below.intros by_id_append simp del: map_append)

text \<open>Where the walk stands: at the top, or at a mailbox below the names walked so far.\<close>

definition stands :: "Jmap_Mailboxes.mailbox list \<Rightarrow> string option \<Rightarrow> string list \<Rightarrow> bool" where
  "stands ms parent ns \<longleftrightarrow>
     (case parent of None \<Rightarrow> ns = [] | Some i \<Rightarrow> \<exists>p. by_id ms i = Some p \<and> below ms p ns)"

lemma stands_append: "stands ms parent ns \<Longrightarrow> distinct (map mb_id (ms @ new)) \<Longrightarrow> stands (ms @ new) parent ns"
  by (auto simp: stands_def below_append by_id_append simp del: map_append split: option.splits)

lemma stands_step:
  assumes "stands ms parent ns" "distinct (map mb_id ms)" "m \<in> set ms" "mb_parent m = parent"
  shows "stands ms (Some (mb_id m)) (ns @ [mb_name m])"
  using assms below.root [of m ms] below.child [of m _ ms]
  by (auto simp: stands_def by_id_self split: option.splits)

lemma create_segments_extends: "create_segments h c segs ms parent s = (s', Inr ms') \<Longrightarrow> \<exists>new. ms' = ms @ new"
proof (induction segs arbitrary: ms parent s)
  case (Cons seg segs)
  then show ?case
    by (fastforce simp: lift_def needed_def chain_def split: option.splits prod.splits sum.splits)
qed simp

lemma create_segments_stands:
  "create_segments h c segs ms parent s = (s', Inr ms') \<Longrightarrow> distinct (map mb_id ms') \<Longrightarrow> stands ms parent ns \<Longrightarrow>
     \<exists>parent' ns'. stands ms' parent' (ns @ ns') \<and> map to_ascii_lowercase ns' = map to_ascii_lowercase segs"
proof (induction segs arbitrary: ms parent s ns)
  case Nil
  then show ?case by auto
next
  case (Cons seg segs)
  obtain new where new: "ms' = ms @ new" using create_segments_extends [OF Cons.prems(1)] by blast
  have d: "distinct (map mb_id ms)" using Cons.prems(2) new by simp
  have "\<exists>ms1 m s1. create_segments h c segs ms1 (Some (mb_id m)) s1 = (s', Inr ms') \<and> m \<in> set ms1 \<and>
      mb_parent m = parent \<and> eq_ignore_ascii_case (mb_name m) seg \<and> (\<exists>x. ms1 = ms @ x)"
  proof (cases "List.find (\<lambda>m. mb_parent m = parent \<and> eq_ignore_ascii_case (mb_name m) seg) ms")
    case None
    then obtain i s1 where "create_segments h c segs (ms @ [\<lparr>mb_id = i, mb_name = seg, mb_parent = parent, mb_role = None,
        mb_total = 0, mb_unread = 0\<rparr>]) (Some i) s1 = (s', Inr ms')"
      using Cons.prems(1) by (auto dest!: fst_chain simp: lift_def)
    then show ?thesis
      by (intro exI [of _ "ms @ [_]"] exI [of _ "\<lparr>mb_id = i, mb_name = seg, mb_parent = parent, mb_role = None,
        mb_total = 0, mb_unread = 0\<rparr>"] exI [of _ s1]) (auto simp: eq_ignore_ascii_case_def)
  next
    case (Some m)
    then have "m \<in> set ms" "mb_parent m = parent" "eq_ignore_ascii_case (mb_name m) seg"
      by (auto simp: find_Some_iff)
    moreover have "create_segments h c segs ms (Some (mb_id m)) s = (s', Inr ms')" using Cons.prems(1) Some by simp
    ultimately show ?thesis by (metis append_Nil2)
  qed
  then obtain ms1 m s1 x where m: "create_segments h c segs ms1 (Some (mb_id m)) s1 = (s', Inr ms')" "m \<in> set ms1"
      "mb_parent m = parent" "eq_ignore_ascii_case (mb_name m) seg" "ms1 = ms @ x" by blast
  obtain y where y: "ms' = ms1 @ y" using create_segments_extends [OF m(1)] by blast
  have d1: "distinct (map mb_id ms1)" using Cons.prems(2) y by simp
  have "stands ms1 parent ns" using stands_append [OF Cons.prems(3)] d1 m(5) by simp
  from stands_step [OF this d1 m(2,3)]
  obtain parent' ns' where "stands ms' parent' ((ns @ [mb_name m]) @ ns')" "map to_ascii_lowercase ns' = map to_ascii_lowercase segs"
    using Cons.IH [OF m(1) Cons.prems(2)] by blast
  then show ?case using m(4)
    by (intro exI [of _ parent'] exI [of _ "mb_name m # ns'"]) (auto simp: eq_ignore_ascii_case_def)
qed

text \<open>
  When creating a nested folder has succeeded, the tree holds a mailbox whose path is the
  wanted one up to ASCII case, whichever of its ancestors were there before.
\<close>

theorem created_folder_exists:
  assumes "split_mailbox_path f = Inr segs" and "create_segments h c segs ms None s = (s', Inr ms')"
    and "distinct (map mb_id ms')"
  shows "\<exists>m ns. m \<in> set ms' \<and> below ms' m ns \<and> eq_ignore_ascii_case (mailbox_path ns) f"
proof -
  obtain parent' ns where ns: "stands ms' parent' ns" "map to_ascii_lowercase ns = map to_ascii_lowercase segs"
    using create_segments_stands [OF assms(2,3), of "[]"] by (auto simp: stands_def)
  have f: "mailbox_path segs = f" "segs \<noteq> []" using split_mailbox_path_canonical [OF assms(1)] by auto
  then obtain m where "m \<in> set ms'" "below ms' m ns"
    using ns by (auto simp: stands_def dest: by_id_in split: option.splits)
  moreover have "eq_ignore_ascii_case (mailbox_path ns) f"
    using ns(2) f(1) by (metis eq_ignore_ascii_case_def lower_mailbox_path)
  ultimately show ?thesis by blast
qed


section \<open>A server\<close>

text \<open>
  A small server for the witnesses: an inbox whose listing holds two messages, and a list of messages
  marked as deleted, which is its state. Its answers are texts that its JSON reader understands.
\<close>

definition demo_envelope :: "string \<Rightarrow> (string \<times> json) list \<Rightarrow> string \<Rightarrow> json" where
  "demo_envelope method args i = Obj [(''methodResponses'', Arr [Arr [Str method, Obj args, Str i]])]"

definition demo_read :: "string \<Rightarrow> json option" where
  "demo_read t =
     (if t = [] then None
      else if hd t = CHR ''M'' then Some (demo_envelope ''Mailbox/get'' [(''list'', Arr [Obj [(''id'', Str ''m''), (''name'', Str ''Inbox'')]])] ''0'')
      else if hd t = CHR ''L'' then Some (demo_envelope ''Email/query''
        [(''ids'', Arr (take 1 (drop (length (tl t)) [Str ''p'', Str ''q'']))), (''position'', Num (int (length (tl t)))),
         (''queryState'', Str ''z''), (''total'', Num 2)] ''q'')
      else if hd t = CHR ''F'' then Some (demo_envelope ''Email/query'' [(''ids'', Arr (map (\<lambda>x. Str [x]) (tl t)))] ''q'')
      else if hd t = CHR ''G'' then Some (demo_envelope ''Email/get'' [(''list'', Arr (map (\<lambda>x. Obj [(''id'', Str [x])]) (tl t)))] ''g'')
      else Some (demo_envelope ''Email/set'' [(''destroyed'', Arr (map (\<lambda>x. Str [x]) (tl t)))] ''d''))"

definition demo_post :: "json \<Rightarrow> string \<Rightarrow> string \<times> (string + nat \<times> string)" where
  "demo_post req s =
     (let m = at_index (at_key req ''methodCalls'') 0; arg = at_index m 1;
          listed = (\<lambda>k. map hd (as_id_vec (at_key arg k)))
      in if at_index m 0 = Str ''Mailbox/get'' then (s, Inr (200, ''M''))
         else if at_index m 0 = Str ''Email/query'' then
           (s, Inr (200, case as_u64 (at_key arg ''position'') of
                           Some q \<Rightarrow> CHR ''L'' # replicate q (CHR ''x'') | None \<Rightarrow> CHR ''F'' # take 1 s))
         else if at_index m 0 = Str ''Email/get'' then (s, Inr (200, CHR ''G'' # listed ''ids''))
         else (filter (\<lambda>x. x \<notin> set (listed ''destroy'')) s, Inr (200, CHR ''D'' # listed ''destroy'')))"

definition demo_http :: "string http" where
  "demo_http = \<lparr>post_json = (\<lambda>_ req s. demo_post req s), post_raw = (\<lambda>_ _ s. (s, Inl ''refused'')),
     get_url = (\<lambda>_ s. (s, Inl ''refused'')), read_json = demo_read\<rparr>"

definition demo_client :: jmap_client where
  "demo_client = \<lparr>session_of = \<lparr>api_url = ''https://h/api'', primary_accounts = [], upload_url = None,
       download_url = None, event_source_url = None, capabilities = []\<rparr>, account_id = ''a'', client_store = None\<rparr>"

lemmas demo_simps = demo_http_def demo_client_def demo_post_def demo_read_def demo_envelope_def Let_def
  invoke_def call_def ensure_success_def json_of_def payload_of_def at_key_def as_id_vec_def and_then_def
  validate_method_responses_def give_def lift_def chain_def List.map_filter_def text_at_def

lemma demo_inbox: "mailbox_named demo_http demo_client ''Inbox'' s = (s, Inr (demo_mailbox ''m'' ''Inbox'' None))"
proof -
  have "resolve_mailbox [demo_mailbox ''m'' ''Inbox'' None] ''Inbox'' = Inr (demo_mailbox ''m'' ''Inbox'' None)"
    by (simp add: resolve_mailbox_def mailbox_paths_def path_for.simps demo_mailbox_def eq_ignore_ascii_case_def
        escape_mailbox_segment_def replace_char_def slash_def backslash_def Let_def)
  then show ?thesis
    by (simp add: mailbox_named_def list_mailboxes_def demo_simps decode_def list_of_def mailbox_of_json_def
        required_def defaulted_def demo_mailbox_def)
qed

lemma demo_query_page:
  assumes "q < 3"
  shows "query_page demo_http demo_client mb q s = (s, Inr (Obj
    [(''ids'', Arr (take 1 (drop q [Str ''p'', Str ''q'']))), (''position'', Num (int q)),
     (''queryState'', Str ''z''), (''total'', Num 2)]))"
  using assms by (simp add: query_page_def demo_simps)

lemma demo_ids: "as_id_vec (Arr (take 1 (drop q [Str ''p'', Str ''q'']))) = take 1 (drop q [''p'', ''q''])"
  by (simp add: as_id_vec_def take_Cons' drop_Cons' List.map_filter_def)

lemma demo_lists: "pages_listing demo_http demo_client ''m'' ''z'' (\<lambda>_. [''p'', ''q''])"
  unfolding pages_listing_def
proof (intro allI impI)
  fix s :: string and q :: nat
  assume "q \<le> length [''p'', ''q''] \<and> length [''p'', ''q''] < 2 ^ 32"
  then have q: "q < 3" by simp
  have u: "as_u64 (Num (int q)) = Some q" using q by simp
  show "\<exists>s' r n. query_page demo_http demo_client ''m'' q s = (s', Inr r) \<and> [''p'', ''q''] = [''p'', ''q''] \<and> 0 < n \<and>
      as_id_vec (at_key r ''ids'') = take n (drop q [''p'', ''q'']) \<and> as_u64 (at_key r ''position'') = Some q \<and>
      as_str (at_key r ''queryState'') = Some ''z'' \<and> as_u64 (at_key r ''total'') = Some (length [''p'', ''q''])"
    by (intro exI [of _ 1] exI conjI, rule demo_query_page [OF q])
      (simp_all add: at_key_def demo_ids [simplified] u [simplified])
qed

lemma demo_query_deleted: "query_deleted demo_http demo_client mb s = (s, Inr (map (\<lambda>x. [x]) (take 1 s)))"
  by (simp add: query_deleted_def demo_simps o_def)

lemma demo_reported:
  "set ks \<subseteq> set batch \<Longrightarrow> set batch \<subseteq> (\<lambda>x. [x]) ` set t \<Longrightarrow>
     validate_keys (Obj [(''destroyed'', Arr (map (\<lambda>x. Str [hd x]) batch))]) i ''destroyed'' ''notDestroyed'' ks = Inr ()"
  by (induction ks) (force simp: reported_def list_ex_iff)+

lemma demo_destroy:
  assumes "set batch \<subseteq> (\<lambda>x. [x]) ` set s"
  shows "destroy_batch demo_http demo_client batch s = (filter (\<lambda>x. [x] \<notin> set batch) s, Inr ())"
proof -
  have "x \<in> hd ` set batch \<longleftrightarrow> [x] \<in> set batch" for x
    using assms by force
  then show ?thesis using demo_reported [OF subset_refl assms]
    by (simp add: destroy_batch_def checked_set_def validate_email_mutation_def demo_simps o_def)
qed

lemma demo_expunges: "expunges demo_http demo_client ''m'' (\<lambda>s. (\<lambda>x. [x]) ` set s)"
  unfolding expunges_def demo_query_deleted
proof (intro conjI allI impI)
  fix s :: string
  show "\<exists>s' page. (s, Inr (map (\<lambda>x. [x]) (take 1 s))) = (s', Inr page) \<and> (\<lambda>x. [x]) ` set s' = (\<lambda>x. [x]) ` set s \<and>
      distinct page \<and> set page \<subseteq> (\<lambda>x. [x]) ` set s \<and> (page = [] \<longrightarrow> (\<lambda>x. [x]) ` set s = {})"
    by (cases s) auto
next
  fix s :: string and batch
  assume "set batch \<subseteq> (\<lambda>x. [x]) ` set s"
  then show "\<exists>s'. destroy_batch demo_http demo_client batch s = (s', Inr ()) \<and>
      (\<lambda>x. [x]) ` set s' = (\<lambda>x. [x]) ` set s - set batch"
    by (auto simp: demo_destroy)
qed



lemma query_without_total_fails_witness:
  "query_all_email_ids (demo_http\<lparr>read_json := (\<lambda>_. Some (demo_envelope ''Email/query'' [] ''q''))\<rparr>) demo_client ''m'' ''s'' =
     (''s'', Inl Incomplete_Query)"
proof (rule query_without_total_fails [where r = "Obj []"])
  show "query_page (demo_http\<lparr>read_json := (\<lambda>_. Some (demo_envelope ''Email/query'' [] ''q''))\<rparr>) demo_client ''m'' 0 ''s'' =
      (''s'', Inr (Obj []))"
    by (simp add: query_page_def demo_simps)
qed simp

definition demo_header :: "string \<Rightarrow> email_header" where
  "demo_header i = \<lparr>eh_id = i, eh_subject = None, eh_from = None, eh_to = None, eh_received_at = None,
     eh_message_id = None, eh_keywords = None\<rparr>"

definition demo_rows :: "header_row list" where
  "demo_rows = (case header_rows_of 7 [demo_header ''p'', demo_header ''q''] of Return rows \<Rightarrow> rows | Panic \<Rightarrow> [])"

lemma demo_rows: "header_rows_of 7 [demo_header ''p'', demo_header ''q''] = Return demo_rows"
  by (simp add: demo_rows_def demo_header_def header_row_of_def)

lemma demo_headers:
  "get_email_headers demo_http demo_client [''p'', ''q''] s = (s, Inr [demo_header ''p'', demo_header ''q''])"
proof -
  have "chunks 500 [''p'', ''q''] = [[''p'', ''q'']]" by (simp add: chunks.simps)
  moreover have "fetch_by_ids demo_http demo_client [''p'', ''q''] s = (s, Inr [demo_header ''p'', demo_header ''q''])"
    by (simp add: fetch_by_ids_def demo_simps decode_def list_of_def email_of_json_def required_def defaulted_def demo_header_def)
  ultimately show ?thesis
    by (simp add: get_email_headers_def email_get_batches_def max_objects_in_get_def core_capability_limit_def
        demo_client_def demo_header_def give_def)
qed

definition demo_snapshot :: header_snapshot where
  "demo_snapshot = \<lparr>s_rows = demo_rows, s_complete = True, s_transport = Opaque\<rparr>"

definition demo_db :: db where
  "demo_db = fst (reserve_snapshot_generation ''Inbox'' empty_db)"

lemma demo_fetch: "\<exists>s'. fetch_headers demo_http demo_client 7 ''Inbox'' s = (s', Inr (Return demo_snapshot))"
proof -
  obtain ms where ms: "list_mailboxes demo_http demo_client s = (s, Inr ms)"
      "resolve_mailbox ms ''Inbox'' = Inr (demo_mailbox ''m'' ''Inbox'' None)"
    using fst_chain [OF demo_inbox [of s, unfolded mailbox_named_def]] by (auto simp: lift_def)
  obtain s1 where "query_all_email_ids demo_http demo_client ''m'' s = (s1, Inr [''p'', ''q''])"
    using query_all_complete [OF demo_lists, of s] by auto
  with ms show ?thesis
    by (auto simp: fetch_headers_def demo_headers demo_rows demo_snapshot_def demo_mailbox_def give_def
        simp del: header_rows_of.simps)
qed


definition created_n :: json where
  "created_n = demo_envelope ''Mailbox/set'' [(''created'', Obj [(''new'', Obj [(''id'', Str ''n'')])])] ''c''"

lemma created_folder_exists_witness:
  "\<exists>m ns. m \<in> set [demo_mailbox ''1'' ''Work'' None, demo_mailbox ''n'' ''new'' (Some ''1'')] \<and>
     below [demo_mailbox ''1'' ''Work'' None, demo_mailbox ''n'' ''new'' (Some ''1'')] m ns \<and>
     eq_ignore_ascii_case (mailbox_path ns) ''work/new''"
proof -
  let ?h = "demo_http\<lparr>read_json := (\<lambda>_. Some created_n)\<rparr>"
  let ?ms = "[demo_mailbox ''1'' ''Work'' None, demo_mailbox ''n'' ''new'' (Some ''1'')]"
  have "create_mailbox ?h demo_client ''new'' (Some ''1'') ''s'' = (''s'', Inr created_n)"
    by (simp add: create_mailbox_def checked_set_def validate_email_mutation_def created_n_def reported_def demo_simps)
  moreover have "as_str (at_key (at_key (at_key (payload_of created_n 0) ''created'') ''new'') ''id'') = Some ''n''"
    by (simp add: created_n_def demo_envelope_def payload_of_def at_key_def)
  moreover have "eq_ignore_ascii_case ''Work'' ''work''" by code_simp
  ultimately have c: "create_segments ?h demo_client [''work'', ''new''] [demo_mailbox ''1'' ''Work'' None] None ''s'' = (''s'', Inr ?ms)"
    by (simp add: demo_mailbox_def needed_def)
  have p: "split_mailbox_path ''work/new'' = Inr [''work'', ''new'']" by code_simp
  show ?thesis by (rule created_folder_exists [OF p c]) (simp add: demo_mailbox_def)
qed

end
