(* ===== verification/Graph_Props.thy ===== *)
theory Graph_Props
  imports Graph_Client Jmap_Props
begin

text \<open>
  Walks over the pages of a Graph server: they end whatever the server answers, a limit cuts the listing,
  and a complete listing arrives in the index.
\<close>

section \<open>Walks\<close>

lemma visit_cases:
  assumes "visit url t = Inr t'"
  shows "url \<notin> seen t" "pages t \<noteq> max_pages t" "t' = t\<lparr>seen := insert url (seen t), pages := pages t + 1\<rparr>"
  using assms by (auto simp: visit_def split: if_splits)

lemma get_page_state: "fst (get_page h f url s) = fst (g_get h url s)"
  by (auto simp: get_page_def ensure_api_success_def split: prod.splits sum.splits)

lemma follow_pages_bounded:
  assumes "\<And>url s. requests (fst (g_get h url s)) = requests s + (1::nat)"
  shows "pages t \<le> max_pages t \<Longrightarrow>
    \<exists>s' r. follow_pages h f step t url acc s = Some (s', r) \<and> requests s' \<le> requests s + (max_pages t - pages t)"
proof (induction "max_pages t - pages t" arbitrary: t url acc s)
  case 0
  then show ?case by (simp add: follow_pages.simps [of h f step t] visit_def)
next
  case (Suc n)
  note step = follow_pages.simps [of h f step t url acc s]
  obtain s1 r1 where p: "get_page h f url s = (s1, r1)" by fastforce
  then have s1: "requests s1 = requests s + 1" using assms get_page_state [of h f url s] by simp
  show ?case
  proof (cases "visit url t")
    case (Inr t')
    note t' = visit_cases [OF Inr]
    have m: "n = max_pages t' - pages t'" "pages t' \<le> max_pages t'" using Suc.hyps(2) Suc.prems t'(2,3) by auto
    then have "max_pages t - pages t = Suc (max_pages t' - pages t')" using Suc.hyps(2) by simp
    then show ?thesis using Suc.hyps(1) [OF m] Inr p s1
      by (fastforce simp: step split: sum.splits turn.splits)
  qed (simp add: step)
qed

text \<open>
  C15. Whatever a Graph server answers, walking its pages returns, after at most \<open>MAX_GRAPH_PAGES\<close>
  requests: listings of folders and messages and delta queries.
\<close>

theorem graph_walks_bounded:
  assumes "\<And>url s. requests (fst (g_get h url s)) = requests s + (1::nat)"
  shows "(\<exists>s' r. graph_folders h s = Some (s', r) \<and> requests s' \<le> requests s + MAX_GRAPH_PAGES) \<and>
    (\<exists>s' r. graph_list_messages h f n s = Some (s', r) \<and> requests s' \<le> requests s + MAX_GRAPH_PAGES) \<and>
    (\<exists>s' r. graph_list_all h f s = Some (s', r) \<and> requests s' \<le> requests s + MAX_GRAPH_PAGES) \<and>
    (\<exists>s' r. delta_messages h f since s = Some (s', r) \<and> requests s' \<le> requests s + MAX_GRAPH_PAGES)"
proof -
  have walk: "\<exists>s' r. follow_pages h f step (new_tracker MAX_GRAPH_PAGES) url acc s = Some (s', r) \<and>
      requests s' \<le> requests s + MAX_GRAPH_PAGES" for f step url acc
    using follow_pages_bounded [of requests h "new_tracker MAX_GRAPH_PAGES", OF assms] by (simp add: new_tracker_def)
  have "\<exists>s' r. graph_list_messages h f n s = Some (s', r) \<and> requests s' \<le> requests s + MAX_GRAPH_PAGES"
    using walk by (cases "n = 0") (simp_all add: graph_list_messages_def list_messages_from_def g_give_def)
  then show ?thesis
    unfolding graph_folders_def graph_list_all_def list_messages_from_def delta_messages_def
    by (intro conjI walk)
qed

section \<open>Limits\<close>

lemma uncapped_extends:
  "follow_pages h f (messages_step None) t url acc s = Some (s', Inr vs) \<Longrightarrow> pages t \<le> max_pages t \<Longrightarrow> prefix acc vs"
proof (induction "max_pages t - pages t" arbitrary: t url acc s)
  case 0
  then show ?case by (simp add: follow_pages.simps [of h f _ t] visit_def)
next
  case (Suc n)
  from Suc.prems(1) obtain t' s1 p where t': "visit url t = Inr t'" "get_page h f url s = (s1, Inr p)"
      and rest: "(case next_link p of Some u \<Rightarrow> follow_pages h f (messages_step None) t' u (acc @ page_items p) s1
         | None \<Rightarrow> Some (s1, Inr (acc @ page_items p))) = Some (s', Inr vs)"
    by (auto simp: follow_pages.simps [of h f _ t] messages_step_def accumulate_message_page_def Let_def
        split: sum.splits prod.splits option.splits)
  have m: "n = max_pages t' - pages t'" "pages t' \<le> max_pages t'"
    using Suc.hyps(2) Suc.prems(2) visit_cases [OF t'(1)] by auto
  show ?case
  proof (cases "next_link p")
    case (Some u)
    then have "prefix (acc @ page_items p) vs" using Suc.hyps(1) [OF m(1) _ m(2)] rest by simp
    then show ?thesis by (metis append_prefixD)
  qed (use rest in auto)
qed

lemma capped_prefix:
  "follow_pages h f (messages_step None) t url acc s = Some (s', Inr vs) \<Longrightarrow> pages t \<le> max_pages t \<Longrightarrow> length acc < n \<Longrightarrow>
     \<exists>s2. follow_pages h f (messages_step (Some n)) t url acc s = Some (s2, Inr (take n vs))"
proof (induction "max_pages t - pages t" arbitrary: t url acc s)
  case 0
  then show ?case by (simp add: follow_pages.simps [of h f _ t] visit_def)
next
  case (Suc k)
  from Suc.prems(1) obtain t' s1 p where t': "visit url t = Inr t'" "get_page h f url s = (s1, Inr p)"
      and rest: "(case next_link p of Some u \<Rightarrow> follow_pages h f (messages_step None) t' u (acc @ page_items p) s1
         | None \<Rightarrow> Some (s1, Inr (acc @ page_items p))) = Some (s', Inr vs)"
    by (auto simp: follow_pages.simps [of h f _ t] messages_step_def accumulate_message_page_def Let_def
        split: sum.splits prod.splits option.splits)
  let ?acc = "acc @ page_items p"
  have m: "k = max_pages t' - pages t'" "pages t' \<le> max_pages t'"
    using Suc.hyps(2) Suc.prems(2) visit_cases [OF t'(1)] by auto
  have capped: "follow_pages h f (messages_step (Some n)) t url acc s =
      (if n \<le> length ?acc then Some (s1, Inr (take n ?acc))
       else case next_link p of Some u \<Rightarrow> follow_pages h f (messages_step (Some n)) t' u ?acc s1
            | None \<Rightarrow> Some (s1, Inr ?acc))"
    by (auto simp: follow_pages.simps [of h f _ t] messages_step_def accumulate_message_page_def t' Let_def split: option.splits)
  show ?case
  proof (cases "next_link p")
    case None
    then show ?thesis using capped rest by auto
  next
    case (Some u)
    then have u: "follow_pages h f (messages_step None) t' u ?acc s1 = Some (s', Inr vs)" using rest by simp
    obtain ws where "vs = ?acc @ ws" using uncapped_extends [OF u m(2)] by (auto elim: prefixE)
    then show ?thesis using capped Some Suc.hyps(1) [OF m(1) u m(2)] by (auto simp: not_le)
  qed
qed

text \<open>
  C36. A limit only cuts: listing with a limit gives the first messages of what listing
  everything from the same address gives, whatever the server's answers and page sizes.
\<close>

theorem limited_listing_is_prefix:
  assumes "list_messages_from h None url s = Some (s', Inr ms)" and "0 < n"
  shows "\<exists>s2. list_messages_from h (Some n) url s = Some (s2, Inr (take n ms))"
  using capped_prefix [of h _ "new_tracker MAX_GRAPH_PAGES" url "[]" s s' ms n] assms
  by (simp add: list_messages_from_def new_tracker_def)

section \<open>Complete listings\<close>

text \<open>The pages that a server links from an address on, their addresses and their items.\<close>

inductive page_chain :: "(string \<Rightarrow> 'a page option) \<Rightarrow> string \<Rightarrow> string list \<Rightarrow> 'a list \<Rightarrow> bool" for pg where
  last: "pg u = Some p \<Longrightarrow> next_link p = None \<Longrightarrow> page_chain pg u [u] (page_items p)"
| more: "pg u = Some p \<Longrightarrow> next_link p = Some v \<Longrightarrow> page_chain pg v us xs \<Longrightarrow> page_chain pg u (u # us) (page_items p @ xs)"

definition serves :: "'s graph_http \<Rightarrow> (json \<Rightarrow> 'a page option) \<Rightarrow> (string \<Rightarrow> 'a page option) \<Rightarrow> bool" where
  "serves h f pg \<longleftrightarrow> (\<forall>url p s. pg url = Some p \<longrightarrow> (\<exists>s'. get_page h f url s = (s', Inr p)))"

lemma servesE:
  assumes "serves h f pg" "pg url = Some p"
  obtains s' where "get_page h f url s = (s', Inr p)"
  using assms unfolding serves_def by blast

lemma follow_chain:
  assumes "serves h f pg"
  shows "page_chain pg url us xs \<Longrightarrow> distinct us \<Longrightarrow> seen t \<inter> set us = {} \<Longrightarrow> pages t + length us \<le> max_pages t \<Longrightarrow>
    \<exists>s'. follow_pages h f (messages_step None) t url acc s = Some (s', Inr (acc @ xs))"
proof (induction arbitrary: t acc s rule: page_chain.induct)
  case (last u p)
  obtain s' where "get_page h f u s = (s', Inr p)" by (rule servesE [OF assms last.hyps(1)])
  then show ?case using last
    by (auto simp: follow_pages.simps [of h f _ t] visit_def messages_step_def accumulate_message_page_def)
next
  case (more u p v us xs)
  obtain s' where s': "get_page h f u s = (s', Inr p)" by (rule servesE [OF assms more.hyps(1)])
  let ?t = "t\<lparr>seen := insert u (seen t), pages := pages t + 1\<rparr>"
  have "\<exists>s''. follow_pages h f (messages_step None) ?t v (acc @ page_items p) s' = Some (s'', Inr ((acc @ page_items p) @ xs))"
    by (rule more.IH) (use more.prems in auto)
  moreover have "follow_pages h f (messages_step None) t u acc s = follow_pages h f (messages_step None) ?t v (acc @ page_items p) s'"
    using more s' by (simp add: follow_pages.simps [of h f _ t] visit_def messages_step_def accumulate_message_page_def)
  ultimately show ?case by simp
qed

lemma folders_step: "folders_step = messages_step None"
  by (intro ext) (simp add: folders_step_def messages_step_def accumulate_message_page_def split: option.splits)

lemma graph_rows_ids:
  "graph_rows now ms = Return rows \<Longrightarrow> map n_provider_id rows = map (\<lambda>m. Some (gm_id m)) ms"
  by (induction ms arbitrary: rows) (auto simp: graph_row_def bind_outcome_def split: outcome.splits option.splits)

lemma graph_fetch_complete:
  assumes "serves h (page_of_json folder_of_json) fpages" "page_chain fpages (GRAPH_ME @ ''mailFolders?$top=200'') us fs"
    and "distinct us" "length us \<le> MAX_GRAPH_PAGES"
    and "List.find (\<lambda>x. eq_ignore_ascii_case (display_name x) f) fs = Some g"
    and "serves h (page_of_json message_of_json) mpages" "page_chain mpages (message_list_url (gf_id g) 1000) vs ms"
    and "distinct vs" "length vs \<le> MAX_GRAPH_PAGES"
  shows "\<exists>s'. graph_fetch_headers h now f s = Some (s', Inr (bind_outcome (graph_rows now ms) (\<lambda>rows. Return
           \<lparr>s_rows = rows, s_complete = True, s_transport = Opaque\<rparr>)))"
proof -
  obtain s1 where "graph_folders h s = Some (s1, Inr fs)"
    using follow_chain [OF assms(1,2,3), of "new_tracker MAX_GRAPH_PAGES" "[]" s] assms(4)
    by (auto simp: graph_folders_def folders_step new_tracker_def)
  then have "resolve_folder_id h f s = Some (s1, Inr (gf_id g))"
    using assms(5) by (simp add: resolve_folder_id_def g_give_def)
  moreover obtain s2 where "graph_list_all h (gf_id g) s1 = Some (s2, Inr ms)"
    using follow_chain [OF assms(6-8), of "new_tracker MAX_GRAPH_PAGES" "[]" s1] assms(9)
    by (auto simp: graph_list_all_def list_messages_from_def new_tracker_def)
  ultimately show ?thesis by (simp add: graph_fetch_headers_def g_give_def)
qed

text \<open>
  C14. When a Graph server links its pages of folders and messages faithfully and the listing is applied,
  the provider ids stored for the folder are exactly the ids of the messages on all the pages.
\<close>

theorem graph_mailbox_mirrored:
  assumes "serves h (page_of_json folder_of_json) fpages" "page_chain fpages (GRAPH_ME @ ''mailFolders?$top=200'') us fs"
    and "distinct us" "length us \<le> MAX_GRAPH_PAGES"
    and "List.find (\<lambda>x. eq_ignore_ascii_case (display_name x) f) fs = Some g"
    and "serves h (page_of_json message_of_json) mpages" "page_chain mpages (message_list_url (gf_id g) 1000) vs ms"
    and "distinct vs" "length vs \<le> MAX_GRAPH_PAGES"
    and "graph_fetch_headers h now f s = Some (s', Inr (Return snap))"
    and "apply_snapshot now' (snapshot_input_of f n snap) d = (d', Inr out)" "applied out"
  shows "set (folder_provider_ids f d') = gm_id ` set ms"
proof -
  obtain rows where rows: "graph_rows now ms = Return rows" and
      snap: "snap = \<lparr>s_rows = rows, s_complete = True, s_transport = Opaque\<rparr>"
    using graph_fetch_complete [OF assms(1-9), of now s] assms(10)
    by (auto simp: bind_outcome_def split: outcome.splits)
  have "Some ` set (folder_provider_ids f d') = n_provider_id ` set rows"
    using opaque_snapshot_ids [OF assms(11,12)] snap
    by (simp add: snapshot_input_of_def image_image to_store_header_def)
  also have "\<dots> = Some ` gm_id ` set ms"
    using arg_cong [OF graph_rows_ids [OF rows], of set] by (simp add: image_image)
  finally show ?thesis by (simp add: inj_image_eq_iff)
qed

section \<open>Flags\<close>


section \<open>A server\<close>

text \<open>A server for the witnesses, which counts its requests: one folder, two pages of messages.\<close>

definition demo_graph_json :: "string \<Rightarrow> json option" where
  "demo_graph_json t =
     (if t = ''folders'' then Some (Obj [(''value'', Arr [Obj [(''id'', Str ''f''), (''displayName'', Str ''Inbox'')]])])
      else if t = ''first'' then Some (Obj [(''value'', Arr [Obj [(''id'', Str ''p'')]]), (''@odata.nextLink'', Str ''u2'')])
      else if t = ''second'' then Some (Obj [(''value'', Arr [Obj [(''id'', Str ''q'')]])])
      else None)"

definition demo_get :: "string \<Rightarrow> string" where
  "demo_get url =
     (if url = GRAPH_ME @ ''mailFolders?$top=200'' then ''folders''
      else if url = message_list_url ''f'' 1000 then ''first'' else if url = ''u2'' then ''second'' else [])"

definition demo_graph :: "nat graph_http" where
  "demo_graph = \<lparr>g_get = (\<lambda>url s. (s + 1, Inr (200, demo_get url))), g_patch = (\<lambda>_ _ s. (s, Inl ''refused'')),
     g_post = (\<lambda>_ _ s. (s, Inl ''refused'')), g_post_mime = (\<lambda>_ _ s. (s, Inl ''refused'')),
     g_delete = (\<lambda>_ s. (s, Inl ''refused'')), g_json = demo_graph_json\<rparr>"

lemma graph_walks_bounded_witness:
  "\<exists>s' r. graph_list_all demo_graph ''f'' 3 = Some (s', r) \<and> s' \<le> 3 + MAX_GRAPH_PAGES"
  using graph_walks_bounded [of "\<lambda>s. s" demo_graph 3] by (simp add: demo_graph_def)

definition demo_message :: "string \<Rightarrow> graph_message" where
  "demo_message i = \<lparr>gm_id = i, gm_removed = None, gm_subject = None, gm_from = None, gm_to = [], gm_received = None,
     gm_message_id = None, is_read = False\<rparr>"

definition demo_fpages :: "string \<Rightarrow> graph_folder page option" where
  "demo_fpages u = (if u = GRAPH_ME @ ''mailFolders?$top=200'' then Some \<lparr>page_items =
     [\<lparr>gf_id = ''f'', display_name = ''Inbox'', gf_total = 0, gf_unread = 0, well_known = None\<rparr>], next_link = None\<rparr> else None)"

definition demo_mpages :: "string \<Rightarrow> graph_message page option" where
  "demo_mpages u =
     (if u = message_list_url ''f'' 1000 then Some \<lparr>page_items = [demo_message ''p''], next_link = Some ''u2''\<rparr>
      else if u = ''u2'' then Some \<lparr>page_items = [demo_message ''q''], next_link = None\<rparr> else None)"

lemma demo_urls:
  "message_list_url ''f'' 1000 \<noteq> ''u2''" "message_list_url ''f'' 1000 \<noteq> GRAPH_ME @ ''mailFolders?$top=200''"
  "GRAPH_ME @ ''mailFolders?$top=200'' \<noteq> ''u2''"
  by code_simp+

lemmas graph_demo_simps = get_page_def ensure_api_success_def demo_graph_def demo_get_def demo_graph_json_def
  page_of_json_def required_def defaulted_def nullable_def list_of_def

lemma demo_serves:
  "serves demo_graph (page_of_json folder_of_json) demo_fpages"
  "serves demo_graph (page_of_json message_of_json) demo_mpages"
  using demo_urls
  by (auto simp: serves_def demo_fpages_def demo_mpages_def graph_demo_simps folder_of_json_def message_of_json_def
      demo_message_def split: if_splits)

lemma demo_fchain: "page_chain demo_fpages (GRAPH_ME @ ''mailFolders?$top=200'') [GRAPH_ME @ ''mailFolders?$top=200'']
    [\<lparr>gf_id = ''f'', display_name = ''Inbox'', gf_total = 0, gf_unread = 0, well_known = None\<rparr>]"
  using page_chain.last [of demo_fpages "GRAPH_ME @ ''mailFolders?$top=200''"] by (simp add: demo_fpages_def)

lemma demo_mchain: "page_chain demo_mpages (message_list_url ''f'' 1000) [message_list_url ''f'' 1000, ''u2'']
    [demo_message ''p'', demo_message ''q'']"
proof -
  have "page_chain demo_mpages ''u2'' [''u2''] [demo_message ''q'']"
    using page_chain.last [of demo_mpages "''u2''"] demo_urls by (simp add: demo_mpages_def)
  then show ?thesis
    using page_chain.more [of demo_mpages "message_list_url ''f'' 1000"
        "\<lparr>page_items = [demo_message ''p''], next_link = Some ''u2''\<rparr>" "''u2''"]
    by (fastforce simp: demo_mpages_def)
qed

lemma limited_listing_is_prefix_witness:
  "\<exists>s2. list_messages_from demo_graph (Some 1) (message_list_url ''f'' 1000) 0 = Some (s2, Inr [demo_message ''p''])"
proof -
  obtain s' where "list_messages_from demo_graph None (message_list_url ''f'' 1000) 0 =
      Some (s', Inr [demo_message ''p'', demo_message ''q''])"
    using follow_chain [OF demo_serves(2) demo_mchain, of "new_tracker MAX_GRAPH_PAGES" "[]" 0] demo_urls
    by (auto simp: list_messages_from_def new_tracker_def MAX_GRAPH_PAGES_def)
  from limited_listing_is_prefix [OF this, of 1] show ?thesis by simp
qed


definition demo_graph_rows :: "header_row list" where
  "demo_graph_rows = (case graph_rows 7 [demo_message ''p'', demo_message ''q''] of Return rows \<Rightarrow> rows | Panic \<Rightarrow> [])"

lemma graph_mailbox_mirrored_witness:
  "set (folder_provider_ids ''Inbox'' (fst (apply_snapshot 9 (snapshot_input_of ''Inbox'' 1
     \<lparr>s_rows = demo_graph_rows, s_complete = True, s_transport = Opaque\<rparr>) demo_db))) = {''p'', ''q''}"
proof -
  let ?snap = "\<lparr>s_rows = demo_graph_rows, s_complete = True, s_transport = Opaque\<rparr>"
  let ?r = "apply_snapshot 9 (snapshot_input_of ''Inbox'' 1 ?snap) demo_db"
  let ?g = "\<lparr>gf_id = ''f'', display_name = ''Inbox'', gf_total = 0, gf_unread = 0, well_known = None\<rparr>"
  have rows: "graph_rows 7 [demo_message ''p'', demo_message ''q''] = Return demo_graph_rows"
    by (simp add: demo_graph_rows_def demo_message_def graph_row_def)
  have "(case snd ?r of Inr out \<Rightarrow> applied out | Inl _ \<Rightarrow> False)" by code_simp
  then obtain out where r: "?r = (fst ?r, Inr out)" "applied out"
    by (cases ?r) (auto split: sum.splits)
  have f: "List.find (\<lambda>x. eq_ignore_ascii_case (display_name x) ''Inbox'') [?g] = Some ?g"
    by (simp add: eq_ignore_ascii_case_def)
  have c: "page_chain demo_mpages (message_list_url (gf_id ?g) 1000) [message_list_url ''f'' 1000, ''u2'']
      [demo_message ''p'', demo_message ''q'']" using demo_mchain by simp
  have d: "distinct [GRAPH_ME @ ''mailFolders?$top=200'']" "length [GRAPH_ME @ ''mailFolders?$top=200''] \<le> MAX_GRAPH_PAGES"
    "distinct [message_list_url ''f'' 1000, ''u2'']" "length [message_list_url ''f'' 1000, ''u2''] \<le> MAX_GRAPH_PAGES"
    using demo_urls by (simp_all add: MAX_GRAPH_PAGES_def)
  obtain s' where "graph_fetch_headers demo_graph 7 ''Inbox'' 0 = Some (s', Inr (Return ?snap))"
    using graph_fetch_complete [OF demo_serves(1) demo_fchain d(1,2) f demo_serves(2) c d(3,4), of 7 0]
    by (auto simp: rows simp del: graph_rows.simps)
  from graph_mailbox_mirrored [OF demo_serves(1) demo_fchain d(1,2) f demo_serves(2) c d(3,4) this r]
  show ?thesis by (simp add: demo_message_def)
qed

end
