(* ===== verification/Tui_App.thy ===== *)
theory Tui_App
  imports Composer Contacts Store_Messages Store_Outbox Utf8_Lossy
begin

text \<open>
  The state of the terminal client and the operations on it (apps/inbx/src/tui/app.rs): lists and their
  selections, panes, searching, pickers, the single background operation. A list widget's state is the
  selected index. The tasks that run in the background are not modelled, only that one was started.
\<close>

section \<open>State\<close>

datatype leader_state = Pending

datatype pane = Folders_Pane | Messages_Pane | Preview_Pane

datatype mode = Normal | Insert | Visual | Search

datatype move_picker_mode = Move_Mode | Copy_Mode

datatype folder_crud_prompt = Create_Prompt string | Rename_Prompt string string | Delete_Prompt string bool

record contacts_state =
  cs_all :: "contact list"
  cs_filter :: string
  cs_sel :: "nat option"

record move_picker_state =
  mp_filter :: string
  mp_sel :: "nat option"
  mp_mode :: move_picker_mode

record outbox_state =
  ob_entries :: "(int \<times> outbox_row) list"
  ob_sel :: "nat option"

record search_state =
  ss_query :: string
  ss_results :: "message_row list"
  ss_sel :: "nat option"

record last_search =
  ls_query :: string
  ls_results :: "message_row list"
  ls_cursor :: nat

record thread_state =
  th_messages :: "message_row list"
  th_sel :: "nat option"

text \<open>
  Overlays whose content is not modelled (pickers, accounts, invitations, wizards) are present or not.
\<close>

record app =
  a_store :: db
  a_folders :: "folder_row list"
  folder_unread :: "(string \<times> nat) list"
  folder_sel :: "nat option"
  a_messages :: "message_row list"
  msg_sel :: "nat option"
  a_pane :: pane
  pending_g :: bool
  pending_leader :: "leader_state option"
  pending_pgp_chord :: bool
  a_body :: string
  body_scroll :: nat
  preview_raw_headers :: bool
  a_status :: string
  a_composer :: "composer option"
  show_help :: bool
  a_move_picker :: "move_picker_state option"
  a_outbox :: "outbox_state option"
  a_search :: "search_state option"
  a_thread :: "thread_state option"
  a_contacts :: "contacts_state option"
  a_last_search :: "last_search option"
  folder_crud :: "nat option option"
  folder_crud_prompt :: "folder_crud_prompt option"
  active_picker_open :: bool
  account_picker_open :: bool
  ical_open :: bool
  wizard_open :: bool
  sieve_wizard_open :: bool
  busy :: bool
  pending_op_count :: nat
  receipt_responded :: "int list"
  current_receipt :: "string option"

text \<open>What an operation reads: files, the renderer, the server.\<close>

record surroundings =
  read_path :: "string \<Rightarrow> string + string"
  rendered_text :: "string \<Rightarrow> string"
  receipt_request :: "string \<Rightarrow> string option"
  remote_set_flags :: "string \<Rightarrow> int \<Rightarrow> string list \<Rightarrow> string list \<Rightarrow> string + unit"
  remote_move :: "string \<Rightarrow> int \<Rightarrow> string \<Rightarrow> string + unit"
  send_queued :: "string \<Rightarrow> string + unit"
  full_text :: "string \<Rightarrow> fts_row list \<Rightarrow> fts_row list"
  clock :: int

text \<open>An operation that may fail keeps the state it has reached.\<close>

type_synonym step = "app \<Rightarrow> app \<times> (string + unit)"

definition ok :: "app \<Rightarrow> app \<times> (string + unit)" where
  "ok a = (a, Inr ())"

definition say :: "string \<Rightarrow> app \<Rightarrow> app" where
  "say t a = a\<lparr>a_status := t\<rparr>"

definition ellipsis :: string where
  "ellipsis = [CHR 0xE2, CHR 0x80, CHR 0xA6]"

definition right_arrow :: string where
  "right_arrow = [CHR 0xE2, CHR 0x86, CHR 0x92]"

section \<open>Pure helpers\<close>

definition seen_flag :: "message_row \<Rightarrow> bool" where
  "seen_flag m \<longleftrightarrow> contains (to_ascii_lowercase (flags m)) ''seen''"

definition unread_count :: "message_row list \<Rightarrow> nat" where
  "unread_count rows = length (filter (\<lambda>m. \<not> seen_flag m) rows)"

definition nth_opt :: "'a list \<Rightarrow> nat option \<Rightarrow> 'a option" where
  "nth_opt xs i = (case i of Some n \<Rightarrow> if n < length xs then Some (xs ! n) else None | None \<Rightarrow> None)"

definition selected_folder_last_sync :: "folder_row list \<Rightarrow> nat option \<Rightarrow> int option" where
  "selected_folder_last_sync fs sel = Option.bind (nth_opt fs sel) last_sync_unix"

definition resolve_folder_selection :: "folder_row list \<Rightarrow> string option \<Rightarrow> nat option" where
  "resolve_folder_selection fs sel =
     (case Option.bind sel (\<lambda>n. find_idx (\<lambda>f. fname f = n) fs) of
        Some i \<Rightarrow> Some i
      | None \<Rightarrow> if fs \<noteq> [] then Some 0 else None)"

text \<open>Lists are shorter than \<open>2 ^ 31\<close>, so the signed 32-bit arithmetic is exact.\<close>

definition search_step :: "nat \<Rightarrow> nat \<Rightarrow> int \<Rightarrow> nat option" where
  "search_step len cursor delta = (if len = 0 then None else Some (nat ((int cursor + delta) mod int len)))"

definition new_search_state :: search_state where
  "new_search_state = \<lparr>ss_query = [], ss_results = [], ss_sel = None\<rparr>"

definition build_search_state :: "last_search option \<Rightarrow> search_state" where
  "build_search_state prior =
     (case prior of
        None \<Rightarrow> new_search_state
      | Some ls \<Rightarrow> \<lparr>ss_query = ls_query ls, ss_results = ls_results ls,
          ss_sel = (if ls_results ls \<noteq> [] then Some (min (ls_cursor ls) (length (ls_results ls) - 1)) else None)\<rparr>)"

text \<open>\<^verbatim>\<open>Path::file_name\<close> on Unix: the last component, unless it is \<open>..\<close>.\<close>

definition path_file_name :: "string \<Rightarrow> string option" where
  "path_file_name p =
     (case filter (\<lambda>x. x \<noteq> [] \<and> x \<noteq> ''.'') (split_on (CHR ''/'') p) of
        [] \<Rightarrow> None
      | x # xs \<Rightarrow> if last (x # xs) = ''..'' then None else Some (last (x # xs)))"

definition attachment_file_name :: "string \<Rightarrow> string" where
  "attachment_file_name n =
     (case path_file_name n of
        Some x \<Rightarrow> if x \<noteq> [] \<and> x \<noteq> ''..'' \<and> x \<noteq> ''.'' then x else ''attachment''
      | None \<Rightarrow> ''attachment'')"

definition validate_imap_copy_uid :: "bool \<Rightarrow> int \<Rightarrow> nat option" where
  "validate_imap_copy_uid is_imap u = (if is_imap \<and> 0 \<le> u \<and> u < 2 ^ 32 then Some (nat u) else None)"

type_synonym message_identity = "string \<times> int \<times> int"

definition identity_of :: "message_row \<Rightarrow> message_identity" where
  "identity_of m = (folder m, uid m, uidvalidity m)"

definition resolve_message_selection ::
  "string option \<Rightarrow> message_identity option \<Rightarrow> string option \<Rightarrow> message_row list \<Rightarrow> nat option" where
  "resolve_message_selection selected_folder selected f ms =
     (if ms = [] then None
      else case (selected_folder = f, selected) of
        (True, Some i) \<Rightarrow> (case find_idx (\<lambda>m. identity_of m = i) ms of Some k \<Rightarrow> Some k | None \<Rightarrow> Some 0)
      | _ \<Rightarrow> Some 0)"

section \<open>The background operation\<close>

definition spawn_pending :: "app \<Rightarrow> app \<times> bool" where
  "spawn_pending a =
     (if 0 < pending_op_count a then (say (''busy '' @ [CHR 0xE2, CHR 0x80, CHR 0x94] @ '' wait for current op'') a, False)
      else (a\<lparr>pending_op_count := pending_op_count a + 1, busy := True\<rparr>, True))"

definition complete_pending :: "app \<Rightarrow> app" where
  "complete_pending a =
     (let n = pending_op_count a - 1
      in a\<lparr>pending_op_count := n, busy := (if n = 0 then False else busy a)\<rparr>)"

section \<open>Folders and messages\<close>

definition current_folder :: "app \<Rightarrow> folder_row option" where
  "current_folder a = nth_opt (a_folders a) (folder_sel a)"

definition current_message :: "app \<Rightarrow> message_row option" where
  "current_message a = nth_opt (a_messages a) (msg_sel a)"

definition mode_of :: "app \<Rightarrow> mode" where
  "mode_of a = (if a_composer a \<noteq> None then Insert else if a_search a \<noteq> None then Search else Normal)"

definition unread_in_current_folder :: "app \<Rightarrow> nat" where
  "unread_in_current_folder a = unread_count (a_messages a)"

definition needs_sync_age_tick :: "app \<Rightarrow> bool" where
  "needs_sync_age_tick a \<longleftrightarrow> selected_folder_last_sync (a_folders a) (folder_sel a) \<noteq> None"

definition list_selectable_folders :: "db \<Rightarrow> folder_row list" where
  "list_selectable_folders d =
     filter (\<lambda>r. case attrs r of Some x \<Rightarrow> \<not> contains x (backslash # ''Noselect'') | None \<Rightarrow> True) (list_folders d)"

definition reload_folders :: "app \<Rightarrow> app" where
  "reload_folders a =
     (let fs = list_selectable_folders (a_store a)
      in a\<lparr>a_folders := fs, folder_sel := resolve_folder_selection fs (map_option fname (current_folder a))\<rparr>)"

definition fetch_current_body :: "app \<Rightarrow> app" where
  "fetch_current_body a =
     (case (current_message a, current_folder a) of
        (Some m, Some f) \<Rightarrow>
          if maildir_path m \<noteq> None then a
          else (case spawn_pending a of
            (a', False) \<Rightarrow> a'
          | (a', True) \<Rightarrow> say (''fetching body for uid '' @ show_int (uid m) @ ellipsis) a')
      | _ \<Rightarrow> a)"

definition raw_header_end :: "string \<Rightarrow> nat" where
  "raw_header_end t =
     (case (find_sub (crlf @ crlf) t, find_sub [CHR 0x0A, CHR 0x0A] t) of
        (Some i, Some j) \<Rightarrow> min i j | (Some i, None) \<Rightarrow> i | (None, Some j) \<Rightarrow> j | (None, None) \<Rightarrow> length t)"

definition refresh_body :: "surroundings \<Rightarrow> app \<Rightarrow> app" where
  "refresh_body w a0 =
     (let a = a0\<lparr>body_scroll := 0, current_receipt := None\<rparr>
      in case current_message a of
        None \<Rightarrow> a\<lparr>a_body := []\<rparr>
      | Some m \<Rightarrow>
          (case maildir_path m of
             Some p \<Rightarrow>
               if preview_raw_headers a then
                 a\<lparr>a_body := (case read_path w p of
                     Inr bytes \<Rightarrow> (let t = from_utf8_lossy bytes in take (raw_header_end t) t)
                   | Inl e \<Rightarrow> ''[error reading file: '' @ e @ '']'')\<rparr>
               else
                 a\<lparr>a_body := rendered_text w p,
                   current_receipt := (case read_path w p of
                       Inr bytes \<Rightarrow> if uid m \<in> set (receipt_responded a) then None else receipt_request w bytes
                     | Inl _ \<Rightarrow> None)\<rparr>
           | None \<Rightarrow>
               fetch_current_body (a\<lparr>a_body :=
                 ''[fetching body'' @ ellipsis @ '']'' @ [CHR 0x0A, CHR 0x0A] @ ''folder: '' @ folder m @ [CHR 0x0A] @
                 ''from: '' @ (case from_addr m of Some x \<Rightarrow> x | None \<Rightarrow> []) @ [CHR 0x0A] @
                 ''subject: '' @ (case Store_Schema.subject m of Some x \<Rightarrow> x | None \<Rightarrow> []) @ [CHR 0x0A] @
                 ''flags: '' @ flags m\<rparr>)))"

definition reload_messages :: "surroundings \<Rightarrow> app \<Rightarrow> app" where
  "reload_messages w a =
     (let f = map_option fname (current_folder a);
          selected = map_option identity_of (current_message a);
          ms = (case f of
                  Some n \<Rightarrow> filter (\<lambda>m. \<not> contains (to_ascii_lowercase (flags m)) ''deleted'') (list_messages n 200 (a_store a))
                | None \<Rightarrow> []);
          a' = refresh_body w (a\<lparr>a_messages := ms, msg_sel := resolve_message_selection f selected f ms\<rparr>)
      in a'\<lparr>folder_unread := folder_unread_counts (a_store a')\<rparr>)"

definition step_list :: "int \<Rightarrow> app \<Rightarrow> app" where
  "step_list delta a =
     (case a_pane a of
        Folders_Pane \<Rightarrow>
          (case search_step (length (a_folders a)) (case folder_sel a of Some i \<Rightarrow> i | None \<Rightarrow> 0) delta of
             Some i \<Rightarrow> a\<lparr>folder_sel := Some i\<rparr> | None \<Rightarrow> a)
      | Messages_Pane \<Rightarrow>
          (case search_step (length (a_messages a)) (case msg_sel a of Some i \<Rightarrow> i | None \<Rightarrow> 0) delta of
             Some i \<Rightarrow> a\<lparr>msg_sel := Some i\<rparr> | None \<Rightarrow> a)
      | Preview_Pane \<Rightarrow> a)"

definition jump_top :: "app \<Rightarrow> app" where
  "jump_top a =
     (case a_pane a of
        Folders_Pane \<Rightarrow> if a_folders a \<noteq> [] then a\<lparr>folder_sel := Some 0\<rparr> else a
      | Messages_Pane \<Rightarrow> if a_messages a \<noteq> [] then a\<lparr>msg_sel := Some 0\<rparr> else a
      | Preview_Pane \<Rightarrow> a)"

definition jump_bottom :: "app \<Rightarrow> app" where
  "jump_bottom a =
     (case a_pane a of
        Folders_Pane \<Rightarrow> if a_folders a \<noteq> [] then a\<lparr>folder_sel := Some (length (a_folders a) - 1)\<rparr> else a
      | Messages_Pane \<Rightarrow> if a_messages a \<noteq> [] then a\<lparr>msg_sel := Some (length (a_messages a) - 1)\<rparr> else a
      | Preview_Pane \<Rightarrow> a)"

fun next_pane :: "pane \<Rightarrow> bool \<Rightarrow> pane" where
  "next_pane Folders_Pane True = Messages_Pane"
| "next_pane Messages_Pane True = Preview_Pane"
| "next_pane Preview_Pane True = Folders_Pane"
| "next_pane Folders_Pane False = Preview_Pane"
| "next_pane Messages_Pane False = Folders_Pane"
| "next_pane Preview_Pane False = Messages_Pane"

definition cycle_pane :: "bool \<Rightarrow> app \<Rightarrow> app" where
  "cycle_pane forward a = a\<lparr>a_pane := next_pane (a_pane a) forward\<rparr>"

definition switch_folder :: "surroundings \<Rightarrow> string \<Rightarrow> app \<Rightarrow> app" where
  "switch_folder w f a =
     (case find_idx (\<lambda>r. fname r = f) (a_folders a) of
        None \<Rightarrow> say (''folder '' @ f @ '' not found'') a
      | Some i \<Rightarrow>
          (let a' = (reload_messages w (a\<lparr>folder_sel := Some i\<rparr>))\<lparr>a_pane := Messages_Pane\<rparr>
           in say (''switched to '' @ f @ '' ('' @ show_nat (length (a_messages a')) @ '' msgs)'') a'))"

definition jump_to_uid :: "surroundings \<Rightarrow> int \<Rightarrow> app \<Rightarrow> app" where
  "jump_to_uid w u a =
     (case find_idx (\<lambda>m. uid m = u) (a_messages a) of
        Some i \<Rightarrow> say (''jumped to uid '' @ show_int u) ((refresh_body w (a\<lparr>msg_sel := Some i\<rparr>))\<lparr>a_pane := Messages_Pane\<rparr>)
      | None \<Rightarrow> say (''uid '' @ show_int u @ '' not in current message list'') a)"

definition jump_to_message :: "surroundings \<Rightarrow> string \<Rightarrow> int \<Rightarrow> app \<Rightarrow> app" where
  "jump_to_message w f u a =
     (case find_idx (\<lambda>r. fname r = f) (a_folders a) of
        None \<Rightarrow> say (''folder '' @ f @ '' not found'') a
      | Some i \<Rightarrow>
          (let a1 = reload_messages w (a\<lparr>folder_sel := Some i\<rparr>);
               a2 = (case find_idx (\<lambda>m. uid m = u) (a_messages a1) of Some k \<Rightarrow> a1\<lparr>msg_sel := Some k\<rparr> | None \<Rightarrow> a1)
           in say (''jumped to '' @ f @ ''/uid '' @ show_int u) ((refresh_body w a2)\<lparr>a_pane := Messages_Pane\<rparr>)))"

section \<open>Searching\<close>

definition open_search :: "app \<Rightarrow> app" where
  "open_search a = a\<lparr>a_search := Some (build_search_state (a_last_search a))\<rparr>"

definition run_search :: "surroundings \<Rightarrow> app \<Rightarrow> app" where
  "run_search w a =
     (case a_search a of
        None \<Rightarrow> a
      | Some s \<Rightarrow>
          (let q = trim (ss_query s)
           in if q = [] then say ''search: empty query'' (a\<lparr>a_search := Some (s\<lparr>ss_results := [], ss_sel := None\<rparr>)\<rparr>)
              else let rows = search (full_text w) q 200 (a_store a)
                in say (''search: '' @ show_nat (length rows) @ '' results'')
                     (a\<lparr>a_search := Some (s\<lparr>ss_results := rows, ss_sel := (if rows = [] then None else Some 0)\<rparr>),
                       a_last_search := (if rows = [] then None
                         else Some \<lparr>ls_query = q, ls_results = rows, ls_cursor = 0\<rparr>)\<rparr>)))"

definition step_last_search :: "surroundings \<Rightarrow> int \<Rightarrow> app \<Rightarrow> app" where
  "step_last_search w delta a =
     (case a_last_search a of
        None \<Rightarrow> say (''no prior search '' @ [CHR 0xE2, CHR 0x80, CHR 0x94] @ '' press / to search'') a
      | Some ls \<Rightarrow>
          (case search_step (length (ls_results ls)) (ls_cursor ls) delta of
             None \<Rightarrow> say ''no search results'' a
           | Some n \<Rightarrow>
               (let m = ls_results ls ! n;
                    a' = jump_to_message w (folder m) (uid m) (a\<lparr>a_last_search := Some (ls\<lparr>ls_cursor := n\<rparr>)\<rparr>);
                    q = (case a_last_search a' of Some l \<Rightarrow> ls_query l | None \<Rightarrow> [])
                in say (''/'' @ q @ ''  match '' @ show_nat (n + 1) @ ''/'' @ show_nat (length (ls_results ls))) a')))"

definition open_thread :: "app \<Rightarrow> app" where
  "open_thread a =
     (case current_message a of
        None \<Rightarrow> a
      | Some m \<Rightarrow>
          (let ms = (case thread_id m of Some t \<Rightarrow> list_thread t (a_store a) | None \<Rightarrow> [m]);
               pick = (case find_idx (\<lambda>x. folder x = folder m \<and> uid x = uid m) ms of Some i \<Rightarrow> i | None \<Rightarrow> 0)
           in say (''thread: '' @ show_nat (length ms) @ '' message(s)'')
                (a\<lparr>a_thread := Some \<lparr>th_messages = ms, th_sel = (if ms = [] then None else Some pick)\<rparr>\<rparr>)))"

section \<open>Flags and moving\<close>

definition toggle_flag :: "surroundings \<Rightarrow> string \<Rightarrow> step" where
  "toggle_flag w flag a =
     (case (current_folder a, current_message a) of
        (Some f, Some m) \<Rightarrow>
          (let has = contains (flags m) flag;
               add = (if has then [] else [flag]);
               rm = (if has then [flag] else [])
           in case remote_set_flags w (fname f) (uid m) add rm of
                Inl e \<Rightarrow> (a, Inl e)
              | Inr _ \<Rightarrow> ok (say ((if has then ''removed '' else ''added '') @ flag)
                   (reload_messages w (a\<lparr>a_store := mutate_flags (fname f) [uid m] add rm (a_store a)\<rparr>))))
      | _ \<Rightarrow> ok a)"

definition toggle_seen :: "surroundings \<Rightarrow> step" where
  "toggle_seen w = toggle_flag w (backslash # ''Seen'')"

definition toggle_starred :: "surroundings \<Rightarrow> step" where
  "toggle_starred w = toggle_flag w (backslash # ''Flagged'')"

definition toggle_deleted :: "surroundings \<Rightarrow> step" where
  "toggle_deleted w = toggle_flag w (backslash # ''Deleted'')"

definition move_current_to :: "surroundings \<Rightarrow> string \<Rightarrow> step" where
  "move_current_to w dest a =
     (case current_folder a of
        None \<Rightarrow> ok a
      | Some f \<Rightarrow>
          if fname f = dest then ok (say (''already in '' @ dest) a)
          else (case current_message a of
            None \<Rightarrow> ok a
          | Some m \<Rightarrow>
              (case remote_move w (fname f) (uid m) dest of
                 Inl e \<Rightarrow> (a, Inl e)
               | Inr _ \<Rightarrow> ok (say (''moved uid '' @ show_int (uid m) @ '' '' @ right_arrow @ '' '' @ dest)
                   (reload_messages w (a\<lparr>a_store := delete_messages (fname f) [uid m] (a_store a)\<rparr>))))))"

definition manual_sync :: "app \<Rightarrow> app" where
  "manual_sync a =
     (case current_folder a of
        None \<Rightarrow> a
      | Some f \<Rightarrow> (case spawn_pending a of (a', False) \<Rightarrow> a' | (a', True) \<Rightarrow> say (''syncing '' @ fname f @ ellipsis) a'))"

definition expunge :: "app \<Rightarrow> app" where
  "expunge a =
     (case current_folder a of
        None \<Rightarrow> a
      | Some f \<Rightarrow> (case spawn_pending a of (a', False) \<Rightarrow> a' | (a', True) \<Rightarrow> say (''expunging '' @ fname f @ ellipsis) a'))"

definition mark_folder_read :: "app \<Rightarrow> app" where
  "mark_folder_read a =
     (case current_folder a of
        None \<Rightarrow> a
      | Some f \<Rightarrow>
          (let uids = map uid (filter (\<lambda>m. \<not> seen_flag m) (a_messages a))
           in if uids = [] then say (fname f @ '': already all read'') a
              else case spawn_pending a of
                (a', False) \<Rightarrow> a'
              | (a', True) \<Rightarrow> say (''marking '' @ show_nat (length uids) @ '' read in '' @ fname f @ ellipsis) a'))"

definition decline_read_receipt :: "app \<Rightarrow> app" where
  "decline_read_receipt a =
     (case current_message a of
        None \<Rightarrow> a
      | Some m \<Rightarrow> say ''declined read receipt''
          (a\<lparr>receipt_responded := uid m # receipt_responded a, current_receipt := None\<rparr>))"

section \<open>Outbox\<close>

definition open_outbox :: "app \<Rightarrow> app" where
  "open_outbox a =
     (let es = outbox_list (a_store a)
      in say (''outbox: '' @ show_nat (length es) @ '' queued'')
           (a\<lparr>a_outbox := Some \<lparr>ob_entries = es, ob_sel = (if es = [] then None else Some 0)\<rparr>\<rparr>))"

definition selected_outbox_entry :: "app \<Rightarrow> (int \<times> outbox_row) option" where
  "selected_outbox_entry a = Option.bind (a_outbox a) (\<lambda>ob. nth_opt (ob_entries ob) (ob_sel ob))"

definition reload_outbox :: "app \<Rightarrow> app" where
  "reload_outbox a =
     (let es = outbox_list (a_store a)
      in case a_outbox a of
           None \<Rightarrow> a
         | Some ob \<Rightarrow> a\<lparr>a_outbox := Some (ob\<lparr>ob_entries := es,
             ob_sel := (if es = [] then None
               else Some (case ob_sel ob of Some i \<Rightarrow> min i (length es - 1) | None \<Rightarrow> 0))\<rparr>)\<rparr>)"

definition drain_outbox_app :: "app \<Rightarrow> app" where
  "drain_outbox_app a =
     (case spawn_pending a of (a', False) \<Rightarrow> a' | (a', True) \<Rightarrow> say (''draining outbox'' @ ellipsis) a')"

definition drain_outbox_one :: "surroundings \<Rightarrow> app \<Rightarrow> app" where
  "drain_outbox_one w a =
     (case selected_outbox_entry a of
        None \<Rightarrow> a
      | Some (i, r) \<Rightarrow>
          reload_outbox (case send_queued w (raw r) of
            Inr _ \<Rightarrow> say (''outbox: sent id='' @ show_int i) (a\<lparr>a_store := outbox_delete i (a_store a)\<rparr>)
          | Inl e \<Rightarrow> say (''outbox: id='' @ show_int i @ '' failed: '' @ e)
              (a\<lparr>a_store := outbox_record_failure (clock w) i e (a_store a)\<rparr>)))"

definition delete_outbox_one :: "app \<Rightarrow> app" where
  "delete_outbox_one a =
     (case selected_outbox_entry a of
        None \<Rightarrow> a
      | Some (i, r) \<Rightarrow>
          say (''outbox: deleted id='' @ show_int i) (reload_outbox (a\<lparr>a_store := outbox_delete i (a_store a)\<rparr>)))"

section \<open>Pickers and prompts\<close>

definition new_contacts_state :: "contact list \<Rightarrow> contacts_state" where
  "new_contacts_state cs = \<lparr>cs_all = cs, cs_filter = [], cs_sel = (if cs \<noteq> [] then Some 0 else None)\<rparr>"

definition contacts_filtered :: "app \<Rightarrow> contact list" where
  "contacts_filtered a =
     (case a_contacts a of
        None \<Rightarrow> []
      | Some c \<Rightarrow>
          (let needle = to_ascii_lowercase (cs_filter c)
           in if needle = [] then cs_all c
              else filter (\<lambda>x. contains (to_ascii_lowercase (Contacts.email x)) needle \<or>
                (case Contacts.name x of Some n \<Rightarrow> contains (to_ascii_lowercase n) needle | None \<Rightarrow> False)) (cs_all c)))"

definition new_move_picker :: "move_picker_mode \<Rightarrow> move_picker_state" where
  "new_move_picker m = \<lparr>mp_filter = [], mp_sel = Some 0, mp_mode = m\<rparr>"

definition picker_targets :: "app \<Rightarrow> string list" where
  "picker_targets a =
     (let f = (case a_move_picker a of Some p \<Rightarrow> to_ascii_lowercase (mp_filter p) | None \<Rightarrow> [])
      in map fname (filter (\<lambda>r. contains (to_ascii_lowercase (fname r)) f) (a_folders a)))"

definition open_folder_crud :: "app \<Rightarrow> app" where
  "open_folder_crud a =
     say (''folder: c create '' @ [CHR 0xC2, CHR 0xB7] @ '' r rename '' @ [CHR 0xC2, CHR 0xB7] @ '' d delete '' @
          [CHR 0xC2, CHR 0xB7] @ '' Esc cancel'') (a\<lparr>folder_crud := Some (Some 0)\<rparr>)"

definition quoted :: "string \<Rightarrow> string" where
  "quoted s = [CHR 0x27] @ s @ [CHR 0x27]"

definition confirm_folder_crud :: "app \<Rightarrow> app" where
  "confirm_folder_crud a =
     (case folder_crud a of
        None \<Rightarrow> a
      | Some sel \<Rightarrow>
          (let choice = (case sel of Some i \<Rightarrow> i | None \<Rightarrow> 0); closed = a\<lparr>folder_crud := None\<rparr>
           in if choice = 0 then
                (say ''folder create: type new name (Esc cancel)'' closed)\<lparr>folder_crud_prompt := Some (Create_Prompt [])\<rparr>
              else if choice = 1 then
                (case current_folder a of
                   None \<Rightarrow> say ''no folder selected'' closed
                 | Some f \<Rightarrow> (say (''folder rename '' @ quoted (fname f) @ '': type new name (Esc cancel)'') closed)
                     \<lparr>folder_crud_prompt := Some (Rename_Prompt (fname f) [])\<rparr>)
              else if choice = 2 then
                (case current_folder a of
                   None \<Rightarrow> say ''no folder selected'' closed
                 | Some f \<Rightarrow> (say (''folder delete '' @ quoted (fname f) @ '': y to confirm '' @ [CHR 0xC2, CHR 0xB7] @ '' Esc cancel'')
                     closed)\<lparr>folder_crud_prompt := Some (Delete_Prompt (fname f) False)\<rparr>)
              else closed))"

text \<open>The prompt is taken out before anything else happens.\<close>

definition apply_folder_crud_prompt :: "app \<Rightarrow> app" where
  "apply_folder_crud_prompt a0 =
     (case folder_crud_prompt a0 of
        None \<Rightarrow> a0
      | Some p \<Rightarrow>
          (let a = a0\<lparr>folder_crud_prompt := None\<rparr>
           in case p of
                Create_Prompt n \<Rightarrow>
                  if n = [] then say ''folder create: name cannot be empty'' a
                  else (case spawn_pending a of (a', False) \<Rightarrow> a' | (a', True) \<Rightarrow> say (''creating folder '' @ quoted n @ ellipsis) a')
              | Rename_Prompt n to \<Rightarrow>
                  if to = [] then say ''folder rename: new name cannot be empty'' a
                  else (case spawn_pending a of (a', False) \<Rightarrow> a'
                    | (a', True) \<Rightarrow> say (''renaming '' @ quoted n @ '' '' @ right_arrow @ '' '' @ quoted to @ ellipsis) a')
              | Delete_Prompt n _ \<Rightarrow>
                  (case spawn_pending a of (a', False) \<Rightarrow> a' | (a', True) \<Rightarrow> say (''deleting '' @ quoted n @ ellipsis) a')))"

section \<open>Mailing list links\<close>

definition strip_prefix_or :: "string \<Rightarrow> string \<Rightarrow> string" where
  "strip_prefix_or p s = (if prefix p s then drop (length p) s else s)"

definition strip_suffix_or :: "string \<Rightarrow> string \<Rightarrow> string" where
  "strip_suffix_or p s = (if suffix p s then take (length s - length p) s else s)"

definition parse_unsubscribe_uris :: "string \<Rightarrow> string list" where
  "parse_unsubscribe_uris h =
     filter (\<lambda>s. s \<noteq> [])
       (map (\<lambda>part. trim (strip_suffix_or ''>'' (strip_prefix_or ''<'' (trim part)))) (split_on (CHR '','') h))"

definition hex_digit_value :: "char \<Rightarrow> nat option" where
  "hex_digit_value c =
     (if is_ascii_digit c then Some (byte c - 48)
      else if 97 \<le> byte c \<and> byte c \<le> 102 then Some (byte c - 87)
      else if 65 \<le> byte c \<and> byte c \<le> 70 then Some (byte c - 55) else None)"

fun url_decode_bytes :: "string \<Rightarrow> string" where
  "url_decode_bytes [] = []"
| "url_decode_bytes (c # s) =
     (if c = CHR ''+'' then CHR '' '' # url_decode_bytes s
      else if c = CHR ''%'' then
        (case s of
           x # y # r \<Rightarrow>
             (case (hex_digit_value x, hex_digit_value y) of
                (Some i, Some j) \<Rightarrow> char_of (i * 16 + j) # url_decode_bytes r
              | _ \<Rightarrow> c # url_decode_bytes s)
         | _ \<Rightarrow> c # url_decode_bytes s)
      else c # url_decode_bytes s)"

definition url_decode :: "string \<Rightarrow> string" where
  "url_decode s = from_utf8_lossy (url_decode_bytes s)"

definition mailto_pair :: "string \<Rightarrow> string \<times> string \<Rightarrow> string \<times> string" where
  "mailto_pair p sb =
     (case split_once (CHR ''='') p of
        None \<Rightarrow> sb
      | Some (k, v) \<Rightarrow>
          if to_ascii_lowercase k = ''subject'' then (url_decode v, snd sb)
          else if to_ascii_lowercase k = ''body'' then (fst sb, url_decode v) else sb)"

definition parse_mailto :: "string \<Rightarrow> string \<times> string \<times> string" where
  "parse_mailto uri =
     (case (case split_once (CHR ''?'') (strip_prefix_or ''mailto:'' uri) of
              Some aq \<Rightarrow> aq | None \<Rightarrow> (strip_prefix_or ''mailto:'' uri, [])) of
        (addr, query) \<Rightarrow>
          (case fold mailto_pair (filter (\<lambda>s. s \<noteq> []) (split_on (CHR ''&'') query)) ([], []) of
             (s, b) \<Rightarrow> (addr, if s = [] then ''unsubscribe'' else s, b)))"

definition strip_mailto :: "string \<Rightarrow> string" where
  "strip_mailto s = (if prefix ''mailto:'' (to_ascii_lowercase s) then drop 7 s else s)"

end
