(* ===== verification/Tui_Binds.thy ===== *)
theory Tui_Binds
  imports Tui_App
begin

text \<open>
  The key binding table of the terminal client and its lookup (apps/inbx/src/tui/binds.rs). A key event
  is a key code with its modifiers, a character its UTF-8 text; a gate, in the code a function on the application, is named here
  and has its meaning in \<open>gate_holds\<close>.
\<close>

section \<open>Keys\<close>

datatype key_code =
    Char string | Enter_Key | Esc_Key | Tab_Key | BackTab_Key | Backspace_Key | Up_Key | Down_Key | Left_Key | Right_Key
  | Home_Key | End_Key | PageUp_Key | PageDown_Key | Delete_Key | Insert_Key | F_Key nat

datatype modifier = Shift | Control | Alt

record key_event =
  k_code :: key_code
  k_mods :: "modifier set"

datatype key_context =
    List_Context | ActivePicker_Context | Composer_Context | Outbox_Context | Search_Context | Thread_Context
  | MovePicker_Context | AccountPicker_Context | Contacts_Context | Ical_Context | Wizard_Context | SieveWizard_Context

datatype category =
    Navigation_Category | MessageOps_Category | Compose_Category | ComposerControls_Category | Overlays_Category
  | Global_Category

fun category_label :: "category \<Rightarrow> string" where
  "category_label Navigation_Category = ''navigation''"
| "category_label MessageOps_Category = ''message ops (messages pane)''"
| "category_label Compose_Category = ''compose''"
| "category_label ComposerControls_Category = ''composer''"
| "category_label Overlays_Category = ''overlays''"
| "category_label Global_Category = ''global''"

fun category_order :: "category \<Rightarrow> nat" where
  "category_order Navigation_Category = 0"
| "category_order MessageOps_Category = 1"
| "category_order Compose_Category = 2"
| "category_order ComposerControls_Category = 3"
| "category_order Overlays_Category = 4"
| "category_order Global_Category = 5"

text \<open>\<open>leader\<close>, \<open>pgp_chord\<close>, \<open>g_chord\<close>: the prefix that must have been pressed.\<close>

record key_spec =
  leader :: bool
  pgp_chord :: bool
  g_chord :: bool
  chord :: key_event
  key_label :: string

definition plain_spec :: "key_code \<Rightarrow> string \<Rightarrow> key_spec" where
  "plain_spec c l =
     \<lparr>leader = False, pgp_chord = False, g_chord = False, chord = \<lparr>k_code = c, k_mods = {}\<rparr>, key_label = l\<rparr>"

definition plain_char_spec :: "string \<Rightarrow> string \<Rightarrow> key_spec" where
  "plain_char_spec c = plain_spec (Char c)"

definition ctrl_char_spec :: "string \<Rightarrow> string \<Rightarrow> key_spec" where
  "ctrl_char_spec c l =
     \<lparr>leader = False, pgp_chord = False, g_chord = False, chord = \<lparr>k_code = Char c, k_mods = {Control}\<rparr>, key_label = l\<rparr>"

definition leader_char_spec :: "string \<Rightarrow> string \<Rightarrow> key_spec" where
  "leader_char_spec c l =
     \<lparr>leader = True, pgp_chord = False, g_chord = False, chord = \<lparr>k_code = Char c, k_mods = {}\<rparr>, key_label = l\<rparr>"

definition g_chord_spec :: "string \<Rightarrow> key_spec" where
  "g_chord_spec l =
     \<lparr>leader = False, pgp_chord = False, g_chord = True, chord = \<lparr>k_code = Char ''g'', k_mods = {}\<rparr>, key_label = l\<rparr>"

section \<open>Actions\<close>

datatype action =
    Quit | ToggleHelp | MoveDown | MoveUp | JumpTop | JumpBottom | PaneCycleForward | PaneCycleBackward |
    Confirm | ScrollDown | ScrollUp | ScrollPageDown | ScrollPageUp | ScrollHalfPageDown |
    ScrollHalfPageUp | ScrollBodyTop | ScrollBodyBottom | ToggleSeen | ToggleFlagged | ToggleDeleted |
    Expunge | MarkFolderRead | MoveMessage | OpenThread | ListUnsubscribe | OpenIcal | ReadReceiptSend |
    ReadReceiptDecline | OpenBlankCompose | OpenReply | OpenReplyAll | OpenForward | ComposerSend |
    ComposerSaveDraft | ComposerDiscard | ComposerFocusNext | ComposerFocusPrev | ComposerPgpArm |
    ComposerPgpSign | ComposerPgpEncrypt | ComposerYank | ComposerPaste | OpenSearch | SearchStepForward
    | SearchStepBackward | OpenAccountPicker | OpenContacts | OpenOutbox | OAuthLogin |
    LeaderOpenFolderPicker | LeaderOpenAccountPicker | LeaderOpenMessagePicker |
    LeaderOpenAttachmentPicker | LeaderNewAccountWizard | LeaderOpenSievePicker | OutboxDrainAll |
    OutboxDrainOne | OutboxDeleteOne | OutboxClose | MovePickerClose | MovePickerConfirm |
    AccountPickerClose | AccountPickerConfirm | ContactsClose | ContactsConfirm | IcalClose | IcalAccept
    | IcalTentative | IcalDecline | ThreadClose | ThreadConfirm | SearchClose | SearchConfirm |
    WizardClose | WizardSave | ActivePickerClose | ActivePickerConfirm | ManualSync | ToggleRawHeaders |
    CopyMessage | OpenTemplatePicker | LeaderOpenFolderCrud

section \<open>The table\<close>

datatype gate = Outside_Preview | In_Preview | In_Messages | Receipt_Pending | Messages_Or_Preview

fun gate_holds :: "gate \<Rightarrow> app \<Rightarrow> bool" where
  "gate_holds Outside_Preview a = (a_pane a \<noteq> Preview_Pane)"
| "gate_holds In_Preview a = (a_pane a = Preview_Pane)"
| "gate_holds In_Messages a = (a_pane a = Messages_Pane)"
| "gate_holds Receipt_Pending a = (a_pane a = Preview_Pane \<and> current_receipt a \<noteq> None)"
| "gate_holds Messages_Or_Preview a = (a_pane a = Messages_Pane \<or> a_pane a = Preview_Pane)"

datatype bind_row =
  Bind (b_action: action) (b_key: key_spec) (b_desc: string) (b_category: category) (b_contexts: "key_context list")
    (b_gate: "gate option")

definition LIST_LIKE :: "key_context list" where
  "LIST_LIKE = [List_Context, Outbox_Context, Search_Context, Thread_Context, MovePicker_Context,
     AccountPicker_Context, Contacts_Context]"

definition GLOBAL_BINDS :: "bind_row list" where
  "GLOBAL_BINDS = [
   Bind Quit (plain_char_spec ''q'' ''q'')
     ''quit'' Global_Category [List_Context] None,
   Bind Quit (ctrl_char_spec ''c'' ''Ctrl-C'')
     ''quit'' Global_Category [List_Context] None,
   Bind ToggleHelp (plain_char_spec ''?'' ''?'')
     ''toggle this help'' Global_Category [List_Context] None]"

definition NAVIGATION_BINDS :: "bind_row list" where
  "NAVIGATION_BINDS = [
   Bind MoveDown (plain_char_spec ''j'' ''j / Down'')
     ''down / scroll body (preview pane)'' Navigation_Category LIST_LIKE None,
   Bind MoveUp (plain_char_spec ''k'' ''k / Up'')
     ''up / scroll body (preview pane)'' Navigation_Category LIST_LIKE None,
   Bind JumpTop (g_chord_spec ''g g'')
     ''jump to top'' Navigation_Category [List_Context] (Some Outside_Preview),
   Bind JumpBottom (plain_char_spec ''G'' ''G'')
     ''jump to bottom'' Navigation_Category [List_Context] (Some Outside_Preview),
   Bind PaneCycleForward (plain_spec Tab_Key ''Tab / l'')
     ''next pane'' Navigation_Category [List_Context] None,
   Bind PaneCycleBackward (plain_spec BackTab_Key ''S-Tab / h'')
     ''prev pane'' Navigation_Category [List_Context] None,
   Bind Confirm (plain_spec Enter_Key ''Enter'')
     ''open folder / preview'' Navigation_Category [List_Context] (Some Outside_Preview)]"

definition SCROLL_BINDS :: "bind_row list" where
  "SCROLL_BINDS = [
   Bind ScrollDown (plain_char_spec ''j'' ''j / Down'')
     ''scroll body down (preview pane)'' Navigation_Category [] (Some In_Preview),
   Bind ScrollUp (plain_char_spec ''k'' ''k / Up'')
     ''scroll body up (preview pane)'' Navigation_Category [] (Some In_Preview),
   Bind ScrollPageDown (plain_spec PageDown_Key ''PageDown'')
     ''scroll body page down (preview pane)'' Navigation_Category [] (Some In_Preview),
   Bind ScrollPageUp (plain_spec PageUp_Key ''PageUp'')
     ''scroll body page up (preview pane)'' Navigation_Category [] (Some In_Preview),
   Bind ScrollHalfPageDown (ctrl_char_spec ''d'' ''Ctrl-D'')
     ''scroll body half-page down (preview pane)'' Navigation_Category [] (Some In_Preview),
   Bind ScrollHalfPageUp (ctrl_char_spec ''u'' ''Ctrl-U'')
     ''scroll body half-page up (preview pane)'' Navigation_Category [] (Some In_Preview),
   Bind ScrollBodyTop (g_chord_spec ''g g'')
     ''scroll body to top (preview pane)'' Navigation_Category [] (Some In_Preview),
   Bind ScrollBodyBottom (plain_char_spec ''G'' ''G'')
     ''scroll body to bottom (preview pane)'' Navigation_Category [] (Some In_Preview)]"

definition MESSAGE_BINDS :: "bind_row list" where
  "MESSAGE_BINDS = [
   Bind ToggleSeen (plain_char_spec ''s'' ''s'')
     (''toggle '' @ [backslash] @ ''Seen'') MessageOps_Category [List_Context] (Some In_Messages),
   Bind ToggleFlagged (plain_char_spec ''*'' ''*'')
     (''toggle '' @ [backslash] @ ''Flagged'') MessageOps_Category [List_Context] (Some In_Messages),
   Bind ToggleDeleted (plain_char_spec ''d'' ''d'')
     (''toggle '' @ [backslash] @ ''Deleted'') MessageOps_Category [List_Context] (Some In_Messages),
   Bind Expunge (plain_char_spec ''e'' ''e'')
     ''EXPUNGE folder'' MessageOps_Category [List_Context] (Some In_Messages),
   Bind MarkFolderRead (leader_char_spec ''R'' ''<Space>R'')
     ''mark all read in folder'' MessageOps_Category [List_Context] None,
   Bind MoveMessage (plain_char_spec ''m'' ''m'')
     ''move to folder'' MessageOps_Category [List_Context] (Some In_Messages),
   Bind OpenThread (plain_char_spec ''T'' ''T'')
     ''thread view'' MessageOps_Category [List_Context] (Some In_Messages),
   Bind ListUnsubscribe (plain_char_spec ''U'' ''U'')
     ''list-unsubscribe'' MessageOps_Category [List_Context] (Some In_Messages),
   Bind OpenIcal (plain_char_spec ''i'' ''i'')
     ''accept/decline invite'' MessageOps_Category [List_Context] (Some In_Messages),
   Bind ReadReceiptSend (plain_char_spec ''Y'' ''Y'')
     ''send read receipt (preview pane only)'' MessageOps_Category [List_Context] (Some Receipt_Pending),
   Bind ReadReceiptDecline (plain_char_spec ''N'' ''N'')
     ''decline read receipt (preview pane; N also steps search backward)'' MessageOps_Category [] (Some Receipt_Pending)]"

definition COMPOSE_BINDS :: "bind_row list" where
  "COMPOSE_BINDS = [
   Bind OpenBlankCompose (plain_char_spec ''c'' ''c'')
     ''new draft'' Compose_Category [List_Context] None,
   Bind OpenReply (plain_char_spec ''r'' ''r'')
     ''reply'' Compose_Category [List_Context] None,
   Bind OpenReplyAll (plain_char_spec ''R'' ''R'')
     ''reply-all'' Compose_Category [List_Context] None,
   Bind OpenForward (plain_char_spec ''f'' ''f'')
     ''forward'' Compose_Category [List_Context] None]"

definition COMPOSER_BINDS :: "bind_row list" where
  "COMPOSER_BINDS = [
   Bind ComposerSend (ctrl_char_spec ''s'' ''Ctrl-S'')
     ''send'' ComposerControls_Category [Composer_Context] None,
   Bind ComposerSaveDraft (ctrl_char_spec ''d'' ''Ctrl-D'')
     ''save draft to server'' ComposerControls_Category [Composer_Context] None,
   Bind ComposerDiscard (ctrl_char_spec ''q'' ''Ctrl-Q'')
     ''discard'' ComposerControls_Category [Composer_Context] None,
   Bind ComposerFocusNext (plain_spec Tab_Key ''Tab'')
     ''next field'' ComposerControls_Category [Composer_Context] None,
   Bind ComposerFocusPrev (plain_spec BackTab_Key ''S-Tab'')
     ''prev field'' ComposerControls_Category [Composer_Context] None,
   Bind ComposerPgpArm (ctrl_char_spec ''g'' ''Ctrl-G'')
     ''arm PGP toggle chord'' ComposerControls_Category [Composer_Context] None,
   Bind ComposerPgpSign ((plain_char_spec ''s'' ''Ctrl-G s'')\<lparr>pgp_chord := True\<rparr>)
     ''toggle PGP sign'' ComposerControls_Category [Composer_Context] None,
   Bind ComposerPgpEncrypt ((plain_char_spec ''e'' ''Ctrl-G e'')\<lparr>pgp_chord := True\<rparr>)
     ''toggle PGP encrypt'' ComposerControls_Category [Composer_Context] None,
   Bind ComposerYank (leader_char_spec ''y'' ''<Space>y'')
     ''yank field to clipboard'' ComposerControls_Category [Composer_Context] None,
   Bind ComposerPaste (leader_char_spec ''p'' ''<Space>p'')
     ''paste from clipboard'' ComposerControls_Category [Composer_Context] None]"

definition OVERLAY_BINDS :: "bind_row list" where
  "OVERLAY_BINDS = [
   Bind OpenSearch (plain_char_spec ''/'' ''/'')
     ''search (FTS)'' Overlays_Category [List_Context] None,
   Bind SearchStepForward (plain_char_spec ''n'' ''n'')
     ''next search match'' Overlays_Category [List_Context] None,
   Bind SearchStepBackward (plain_char_spec ''N'' ''N'')
     ''prev search match'' Overlays_Category [List_Context] None,
   Bind OpenAccountPicker (plain_char_spec ''a'' ''a'')
     ''switch account'' Overlays_Category [List_Context] None,
   Bind OpenContacts (plain_char_spec ''C'' ''C'')
     ''contacts'' Overlays_Category [List_Context] None,
   Bind OpenOutbox (plain_char_spec ''O'' ''O'')
     ''outbox panel'' Overlays_Category [List_Context] None,
   Bind OAuthLogin (plain_char_spec ''L'' ''L'')
     ''oauth login'' Overlays_Category [List_Context] None,
   Bind LeaderOpenFolderPicker (leader_char_spec ''f'' ''<Space>f'')
     ''folder picker'' Overlays_Category [List_Context] None,
   Bind LeaderOpenAccountPicker (leader_char_spec ''b'' ''<Space>b'')
     ''account picker (fuzzy)'' Overlays_Category [List_Context] None,
   Bind LeaderOpenMessagePicker (leader_char_spec ''m'' ''<Space>m'')
     ''message picker'' Overlays_Category [List_Context] None,
   Bind LeaderOpenAttachmentPicker (leader_char_spec ''a'' ''<Space>a'')
     ''attachment picker'' Overlays_Category [List_Context] None,
   Bind LeaderNewAccountWizard (leader_char_spec ''n'' ''<Space>n'')
     ''new account wizard'' Overlays_Category [List_Context] None,
   Bind LeaderOpenSievePicker (leader_char_spec ''S'' ''<Space>S'')
     ''sieve script picker'' Overlays_Category [List_Context] None,
   Bind ManualSync (plain_char_spec ''F'' ''F'')
     ''manual sync'' Overlays_Category [List_Context] None,
   Bind ToggleRawHeaders (plain_char_spec ''H'' ''H'')
     ''toggle raw headers view'' MessageOps_Category [List_Context] (Some Messages_Or_Preview),
   Bind CopyMessage (plain_char_spec ''y'' ''y'')
     ''copy message to folder'' MessageOps_Category [List_Context] (Some In_Messages),
   Bind OpenTemplatePicker (leader_char_spec ''t'' ''<Space>t'')
     ''template picker'' Compose_Category [List_Context] None,
   Bind LeaderOpenFolderCrud (leader_char_spec ''F'' ''<Space>F'')
     ''folder create / rename / delete'' Overlays_Category [List_Context] None]"

definition OUTBOX_BINDS :: "bind_row list" where
  "OUTBOX_BINDS = [
   Bind OutboxDrainAll (plain_char_spec ''D'' ''D'')
     ''drain all queued messages'' Navigation_Category [Outbox_Context] None,
   Bind OutboxDrainOne (plain_char_spec ''d'' ''d'')
     ''drain one message'' Navigation_Category [Outbox_Context] None,
   Bind OutboxDeleteOne (plain_char_spec ''x'' ''x'')
     ''delete selected message'' Navigation_Category [Outbox_Context] None,
   Bind OutboxClose (plain_spec Esc_Key ''Esc'')
     ''close outbox'' Navigation_Category [Outbox_Context] None]"

definition MOVE_PICKER_BINDS :: "bind_row list" where
  "MOVE_PICKER_BINDS = [
   Bind MovePickerClose (plain_spec Esc_Key ''Esc'')
     ''cancel move'' Navigation_Category [MovePicker_Context] None,
   Bind MovePickerConfirm (plain_spec Enter_Key ''Enter'')
     ''move to selected folder'' Navigation_Category [MovePicker_Context] None]"

definition ACCOUNT_PICKER_BINDS :: "bind_row list" where
  "ACCOUNT_PICKER_BINDS = [
   Bind AccountPickerClose (plain_spec Esc_Key ''Esc'')
     ''cancel'' Navigation_Category [AccountPicker_Context] None,
   Bind AccountPickerConfirm (plain_spec Enter_Key ''Enter'')
     ''switch to account'' Navigation_Category [AccountPicker_Context] None]"

definition CONTACTS_BINDS :: "bind_row list" where
  "CONTACTS_BINDS = [
   Bind ContactsClose (plain_spec Esc_Key ''Esc'')
     ''cancel'' Navigation_Category [Contacts_Context] None,
   Bind ContactsConfirm (plain_spec Enter_Key ''Enter'')
     ''compose to contact'' Navigation_Category [Contacts_Context] None]"

definition ICAL_BINDS :: "bind_row list" where
  "ICAL_BINDS = [
   Bind IcalClose (plain_spec Esc_Key ''Esc'')
     ''cancel'' Navigation_Category [Ical_Context] None,
   Bind IcalAccept (plain_char_spec ''a'' ''a'')
     ''accept invite'' Navigation_Category [Ical_Context] None,
   Bind IcalTentative (plain_char_spec ''t'' ''t'')
     ''tentative'' Navigation_Category [Ical_Context] None,
   Bind IcalDecline (plain_char_spec ''d'' ''d'')
     ''decline invite'' Navigation_Category [Ical_Context] None]"

definition THREAD_BINDS :: "bind_row list" where
  "THREAD_BINDS = [
   Bind ThreadClose (plain_spec Esc_Key ''Esc'')
     ''close thread view'' Navigation_Category [Thread_Context] None,
   Bind ThreadConfirm (plain_spec Enter_Key ''Enter'')
     ''jump to message'' Navigation_Category [Thread_Context] None]"

definition SEARCH_BINDS :: "bind_row list" where
  "SEARCH_BINDS = [
   Bind SearchClose (plain_spec Esc_Key ''Esc'')
     ''close search'' Navigation_Category [Search_Context] None,
   Bind SearchConfirm (plain_spec Enter_Key ''Enter'')
     ''run search / jump to result'' Navigation_Category [Search_Context] None]"

definition WIZARD_BINDS :: "bind_row list" where
  "WIZARD_BINDS = [
   Bind WizardClose (plain_spec Esc_Key ''Esc'')
     ''cancel wizard'' Navigation_Category [Wizard_Context, SieveWizard_Context] None,
   Bind WizardSave (leader_char_spec ''s'' ''<Space>s'')
     ''save'' Navigation_Category [Wizard_Context, SieveWizard_Context] None]"

definition ACTIVE_PICKER_BINDS :: "bind_row list" where
  "ACTIVE_PICKER_BINDS = [
   Bind ActivePickerClose (plain_spec Esc_Key ''Esc'')
     ''cancel picker'' Navigation_Category [ActivePicker_Context] None,
   Bind ActivePickerConfirm (plain_spec Enter_Key ''Enter'')
     ''confirm selection'' Navigation_Category [ActivePicker_Context] None]"

definition BINDS :: "bind_row list" where
  "BINDS = GLOBAL_BINDS @ NAVIGATION_BINDS @ SCROLL_BINDS @ MESSAGE_BINDS @
     COMPOSE_BINDS @ COMPOSER_BINDS @ OVERLAY_BINDS @ OUTBOX_BINDS @
     MOVE_PICKER_BINDS @ ACCOUNT_PICKER_BINDS @ CONTACTS_BINDS @ ICAL_BINDS @
     THREAD_BINDS @ SEARCH_BINDS @ WIZARD_BINDS @ ACTIVE_PICKER_BINDS"

section \<open>Lookup\<close>

definition context_match :: "key_context \<Rightarrow> bind_row \<Rightarrow> bool" where
  "context_match ctx row = (if b_contexts row = [] then b_gate row \<noteq> None else ctx \<in> set (b_contexts row))"

definition gate_passes :: "app \<Rightarrow> bind_row \<Rightarrow> bool" where
  "gate_passes a row = (case b_gate row of Some g \<Rightarrow> gate_holds g a | None \<Rightarrow> True)"

definition prefix_match :: "bool \<Rightarrow> bool \<Rightarrow> bool \<Rightarrow> key_spec \<Rightarrow> bool" where
  "prefix_match leader_active pending_pgp g_pending spec =
     (if leader spec then leader_active
      else if pgp_chord spec then pending_pgp
      else if g_chord spec then g_pending
      else \<not> (leader_active \<or> pending_pgp))"

definition row_fires ::
  "app \<Rightarrow> key_context \<Rightarrow> key_event \<Rightarrow> leader_state option \<Rightarrow> bool \<Rightarrow> bool \<Rightarrow> bind_row \<Rightarrow> bool" where
  "row_fires a ctx key lead pending_pgp g_pending row \<longleftrightarrow>
     context_match ctx row \<and> prefix_match (lead = Some Pending) pending_pgp g_pending (b_key row) \<and>
     key = chord (b_key row) \<and> gate_passes a row"

definition from_key ::
  "app \<Rightarrow> key_context \<Rightarrow> key_event \<Rightarrow> leader_state option \<Rightarrow> bool \<Rightarrow> bool \<Rightarrow> action option" where
  "from_key a ctx key lead pending_pgp g_pending =
     map_option b_action (List.find (row_fires a ctx key lead pending_pgp g_pending) BINDS)"

definition all_rows_in :: "key_context \<Rightarrow> (key_spec \<times> string \<times> category) list" where
  "all_rows_in ctx =
     map (\<lambda>r. (b_key r, b_desc r, b_category r)) (filter (\<lambda>r. ctx \<in> set (b_contexts r) \<and> b_contexts r \<noteq> []) BINDS)"

definition pgp_flag_label :: "pgp_flags \<Rightarrow> string" where
  "pgp_flag_label f =
     (case (pgp_sign f, pgp_encrypt f) of
        (True, True) \<Rightarrow> '' [sign+encrypt]'' | (True, False) \<Rightarrow> '' [sign]''
      | (False, True) \<Rightarrow> '' [encrypt]'' | (False, False) \<Rightarrow> [])"

definition current_context :: "app \<Rightarrow> key_context" where
  "current_context a =
     (if folder_crud a \<noteq> None \<or> folder_crud_prompt a \<noteq> None then List_Context
      else if active_picker_open a then ActivePicker_Context
      else if a_composer a \<noteq> None then Composer_Context
      else if a_outbox a \<noteq> None then Outbox_Context
      else if a_search a \<noteq> None then Search_Context
      else if a_thread a \<noteq> None then Thread_Context
      else if a_move_picker a \<noteq> None then MovePicker_Context
      else if account_picker_open a then AccountPicker_Context
      else if a_contacts a \<noteq> None then Contacts_Context
      else if ical_open a then Ical_Context
      else if wizard_open a then Wizard_Context
      else if sieve_wizard_open a then SieveWizard_Context
      else List_Context)"

end
