(* ===== verification/Tui_Keys.thy ===== *)
theory Tui_Keys
  imports Tui_Binds
begin

text \<open>
  What a key does in the terminal client: carrying out actions (apps/inbx/src/tui/binds.rs, \<^verbatim>\<open>invoke\<close>), the
  handlers of the overlays (apps/inbx/src/tui/keys.rs) and the dispatch of the event loop with the results of
  background operations (apps/inbx/src/tui/mod.rs). Actions of parts that are not modelled (opening
  pickers and wizards, composing from a message, invitations, login, the clipboard) are a parameter, and so are
  the key handlers of the pickers and wizards, \<open>foreign_key\<close>.
\<close>

section \<open>Actions\<close>

record effects =
  perform :: "action \<Rightarrow> step"
  copy_to :: "string \<Rightarrow> step"
  edit :: "key_event \<Rightarrow> composer \<Rightarrow> composer"
  foreign_key :: "key_event \<Rightarrow> step"

type_synonym 'a run = "app \<times> (string + 'a)"

definition goes_on :: "unit run \<Rightarrow> bool run" where
  "goes_on r = (case r of (a, Inl e) \<Rightarrow> (a, Inl e) | (a, Inr _) \<Rightarrow> (a, Inr False))"

definition on :: "app \<Rightarrow> bool run" where
  "on a = (a, Inr False)"

definition after_step :: "surroundings \<Rightarrow> app \<Rightarrow> app" where
  "after_step w a =
     (case a_pane a of Folders_Pane \<Rightarrow> reload_messages w a | Messages_Pane \<Rightarrow> refresh_body w a | Preview_Pane \<Rightarrow> a)"

definition scroll_down :: "nat \<Rightarrow> app \<Rightarrow> app" where
  "scroll_down n a = a\<lparr>body_scroll := min (body_scroll a + n) 65535\<rparr>"

definition scroll_up :: "nat \<Rightarrow> app \<Rightarrow> app" where
  "scroll_up n a = a\<lparr>body_scroll := body_scroll a - n\<rparr>"

definition confirm_list :: "surroundings \<Rightarrow> app \<Rightarrow> app" where
  "confirm_list w a0 =
     (let a = a0\<lparr>pending_g := False\<rparr>
      in case a_pane a of
           Folders_Pane \<Rightarrow>
             (let a' = (reload_messages w a)\<lparr>a_pane := Messages_Pane\<rparr>
              in say (''loaded '' @ show_nat (length (a_messages a')) @ '' messages'') a')
         | Messages_Pane \<Rightarrow>
             (let a' = (case current_message a of Some m \<Rightarrow> if maildir_path m = None then fetch_current_body a else a | None \<Rightarrow> a)
              in (refresh_body w a')\<lparr>a_pane := Preview_Pane\<rparr>)
         | Preview_Pane \<Rightarrow> a)"

definition toggle_sign :: "app \<Rightarrow> app" where
  "toggle_sign a0 =
     (let a = (case a_composer a0 of
         None \<Rightarrow> a0
       | Some c \<Rightarrow>
           (let f = (pgp c)\<lparr>pgp_sign := \<not> pgp_sign (pgp c)\<rparr>
            in say (''pgp sign: '' @ (if pgp_sign f then ''on'' else ''off'') @ pgp_flag_label f) (a0\<lparr>a_composer := Some (c\<lparr>pgp := f\<rparr>)\<rparr>)))
      in a\<lparr>pending_pgp_chord := False\<rparr>)"

definition toggle_encrypt :: "app \<Rightarrow> app" where
  "toggle_encrypt a0 =
     (let a = (case a_composer a0 of
         None \<Rightarrow> a0
       | Some c \<Rightarrow>
           (let f = (pgp c)\<lparr>pgp_encrypt := \<not> pgp_encrypt (pgp c)\<rparr>
            in say (''pgp encrypt: '' @ (if pgp_encrypt f then ''on'' else ''off'') @ pgp_flag_label f) (a0\<lparr>a_composer := Some (c\<lparr>pgp := f\<rparr>)\<rparr>)))
      in a\<lparr>pending_pgp_chord := False\<rparr>)"

definition confirm_move_picker :: "surroundings \<Rightarrow> effects \<Rightarrow> step" where
  "confirm_move_picker w e a =
     (case a_move_picker a of
        None \<Rightarrow> ok a
      | Some p \<Rightarrow>
          (case nth_opt (picker_targets a) (Some (case mp_sel p of Some i \<Rightarrow> i | None \<Rightarrow> 0)) of
             None \<Rightarrow> ok a
           | Some t \<Rightarrow>
               (case mp_mode p of
                  Move_Mode \<Rightarrow> move_current_to w t (a\<lparr>a_move_picker := None\<rparr>)
                | Copy_Mode \<Rightarrow> copy_to e t (a\<lparr>a_move_picker := None\<rparr>))))"

definition confirm_thread :: "surroundings \<Rightarrow> app \<Rightarrow> app" where
  "confirm_thread w a =
     (case Option.bind (a_thread a) (\<lambda>t. nth_opt (th_messages t) (th_sel t)) of
        None \<Rightarrow> a
      | Some m \<Rightarrow> jump_to_message w (folder m) (uid m) (a\<lparr>a_thread := None\<rparr>))"

definition toggle_raw_headers :: "surroundings \<Rightarrow> app \<Rightarrow> app" where
  "toggle_raw_headers w a0 =
     (let a = refresh_body w (a0\<lparr>preview_raw_headers := \<not> preview_raw_headers a0\<rparr>)
      in say (if preview_raw_headers a then ''raw headers view (H to toggle back)''
              else ''rendered body view (H to toggle raw headers)'') a)"

fun invoke_action :: "surroundings \<Rightarrow> effects \<Rightarrow> action \<Rightarrow> app \<Rightarrow> bool run" where
  "invoke_action w e Quit a = (a, Inr True)"
| "invoke_action w e ToggleHelp a = on (a\<lparr>show_help := True\<rparr>)"
| "invoke_action w e ManualSync a = on (manual_sync a)"
| "invoke_action w e MoveDown a = on (after_step w (step_list 1 (a\<lparr>pending_g := False\<rparr>)))"
| "invoke_action w e MoveUp a = on (after_step w (step_list (- 1) (a\<lparr>pending_g := False\<rparr>)))"
| "invoke_action w e JumpTop a = on ((jump_top a)\<lparr>pending_g := False\<rparr>)"
| "invoke_action w e JumpBottom a = on (jump_bottom (a\<lparr>pending_g := False\<rparr>))"
| "invoke_action w e PaneCycleForward a = on (cycle_pane True a)"
| "invoke_action w e PaneCycleBackward a = on (cycle_pane False a)"
| "invoke_action w e Confirm a = on (confirm_list w a)"
| "invoke_action w e ScrollDown a = on (scroll_down 1 a)"
| "invoke_action w e ScrollUp a = on (scroll_up 1 a)"
| "invoke_action w e ScrollPageDown a = on (scroll_down 10 a)"
| "invoke_action w e ScrollPageUp a = on (scroll_up 10 a)"
| "invoke_action w e ScrollHalfPageDown a = on (scroll_down 10 a)"
| "invoke_action w e ScrollHalfPageUp a = on (scroll_up 10 a)"
| "invoke_action w e ScrollBodyTop a = on (a\<lparr>body_scroll := 0, pending_g := False\<rparr>)"
| "invoke_action w e ScrollBodyBottom a =
     on (a\<lparr>body_scroll := length (lines (a_body a)) mod 65536 - 1, pending_g := False\<rparr>)"
| "invoke_action w e ToggleSeen a = goes_on (toggle_seen w a)"
| "invoke_action w e ToggleFlagged a = goes_on (toggle_starred w a)"
| "invoke_action w e ToggleDeleted a = goes_on (toggle_deleted w a)"
| "invoke_action w e Expunge a = on (expunge a)"
| "invoke_action w e MarkFolderRead a = on (mark_folder_read a)"
| "invoke_action w e MoveMessage a = on (a\<lparr>a_move_picker := Some (new_move_picker Move_Mode)\<rparr>)"
| "invoke_action w e CopyMessage a = on (a\<lparr>a_move_picker := Some (new_move_picker Copy_Mode)\<rparr>)"
| "invoke_action w e OpenThread a = on (open_thread a)"
| "invoke_action w e ReadReceiptDecline a = on (decline_read_receipt a)"
| "invoke_action w e ComposerDiscard a = on (say ''draft discarded'' (a\<lparr>a_composer := None\<rparr>))"
| "invoke_action w e ComposerFocusNext a = on (a\<lparr>a_composer := map_option focus_next (a_composer a)\<rparr>)"
| "invoke_action w e ComposerFocusPrev a = on (a\<lparr>a_composer := map_option focus_prev (a_composer a)\<rparr>)"
| "invoke_action w e ComposerPgpArm a =
     on (say ''pgp chord: s=sign e=encrypt (any other key cancels)'' (a\<lparr>pending_pgp_chord := True\<rparr>))"
| "invoke_action w e ComposerPgpSign a = on (toggle_sign a)"
| "invoke_action w e ComposerPgpEncrypt a = on (toggle_encrypt a)"
| "invoke_action w e OpenSearch a = on (open_search a)"
| "invoke_action w e SearchStepForward a = on (step_last_search w 1 a)"
| "invoke_action w e SearchStepBackward a = on (step_last_search w (- 1) a)"
| "invoke_action w e OpenOutbox a = on (open_outbox a)"
| "invoke_action w e OutboxDrainAll a = on (drain_outbox_app a)"
| "invoke_action w e OutboxDrainOne a = on (drain_outbox_one w a)"
| "invoke_action w e OutboxDeleteOne a = on (delete_outbox_one a)"
| "invoke_action w e OutboxClose a = on (a\<lparr>a_outbox := None\<rparr>)"
| "invoke_action w e MovePickerClose a = on (a\<lparr>a_move_picker := None\<rparr>)"
| "invoke_action w e MovePickerConfirm a = goes_on (confirm_move_picker w e a)"
| "invoke_action w e ContactsClose a = on (a\<lparr>a_contacts := None\<rparr>)"
| "invoke_action w e ThreadClose a = on (a\<lparr>a_thread := None\<rparr>)"
| "invoke_action w e ThreadConfirm a = on (confirm_thread w a)"
| "invoke_action w e SearchClose a = on (a\<lparr>a_search := None\<rparr>)"
| "invoke_action w e SearchConfirm a = on a"
| "invoke_action w e WizardSave a = on a"
| "invoke_action w e ActivePickerClose a = on a"
| "invoke_action w e ActivePickerConfirm a = on a"
| "invoke_action w e ToggleRawHeaders a = on (toggle_raw_headers w a)"
| "invoke_action w e LeaderOpenFolderCrud a = on (open_folder_crud a)"
| "invoke_action w e act a = goes_on (perform e act a)"

section \<open>The message list\<close>

definition fire :: "surroundings \<Rightarrow> effects \<Rightarrow> action option \<Rightarrow> app \<Rightarrow> unit run" where
  "fire w e act a =
     (case act of
        None \<Rightarrow> ok a
      | Some x \<Rightarrow> (case invoke_action w e x a of (a', Inl m) \<Rightarrow> (a', Inl m) | (a', Inr _) \<Rightarrow> ok a'))"

definition is_space :: "key_event \<Rightarrow> bool" where
  "is_space k \<longleftrightarrow> k_code k = Char '' '' \<and> k_mods k = {}"

definition list_key_plain :: "surroundings \<Rightarrow> effects \<Rightarrow> key_event \<Rightarrow> app \<Rightarrow> bool run" where
  "list_key_plain w e k a =
     (if is_space k then on (a\<lparr>pending_leader := Some Pending\<rparr>)
      else if k_code k = Char ''g'' \<and> k_mods k = {} then
        (if pending_g a then
           (case from_key a List_Context k None False True of
              Some act \<Rightarrow> invoke_action w e act a
            | None \<Rightarrow> on (a\<lparr>pending_g := False\<rparr>))
         else on (a\<lparr>pending_g := True\<rparr>))
      else
        (case from_key a List_Context k (pending_leader a) False (pending_g a) of
           Some act \<Rightarrow>
             (case invoke_action w e act a of
                (a', Inl m) \<Rightarrow> (a', Inl m)
              | (a', Inr quit) \<Rightarrow>
                  (if act = JumpTop \<or> act = ScrollBodyTop then a' else a'\<lparr>pending_g := False\<rparr>, Inr quit))
         | None \<Rightarrow>
             on (if k_code k = Char ''g'' \<or> k_code k = Tab_Key \<or> k_code k = BackTab_Key then a
                 else a\<lparr>pending_g := False\<rparr>)))"

definition handle_list_key :: "surroundings \<Rightarrow> effects \<Rightarrow> key_event \<Rightarrow> app \<Rightarrow> bool run" where
  "handle_list_key w e k a =
     (if show_help a then on (a\<lparr>show_help := False\<rparr>)
      else if pending_leader a = Some Pending then
        (let a1 = a\<lparr>pending_leader := None\<rparr>
         in case from_key a1 List_Context k (Some Pending) False False of
              Some act \<Rightarrow> invoke_action w e act a1
            | None \<Rightarrow> list_key_plain w e k a1)
      else list_key_plain w e k a)"

section \<open>The composer\<close>

definition composer_commands :: "action list" where
  "composer_commands =
     [ComposerSend, ComposerSaveDraft, ComposerDiscard, ComposerFocusNext, ComposerFocusPrev, ComposerPgpArm,
      ComposerYank, ComposerPaste]"

definition composer_key_plain :: "surroundings \<Rightarrow> effects \<Rightarrow> key_event \<Rightarrow> app \<Rightarrow> bool run" where
  "composer_key_plain w e k a =
     (case from_key a Composer_Context k (pending_leader a) False False of
        Some act \<Rightarrow>
          if act \<in> set composer_commands then invoke_action w e act (a\<lparr>pending_leader := None\<rparr>)
          else if is_space k then on (a\<lparr>pending_leader := Some Pending\<rparr>)
          else on (a\<lparr>pending_leader := None, a_composer := map_option (edit e k) (a_composer a)\<rparr>)
      | None \<Rightarrow>
          if is_space k then on (a\<lparr>pending_leader := Some Pending\<rparr>)
          else on (a\<lparr>pending_leader := None, a_composer := map_option (edit e k) (a_composer a)\<rparr>))"

definition handle_composer_key :: "surroundings \<Rightarrow> effects \<Rightarrow> key_event \<Rightarrow> app \<Rightarrow> bool run" where
  "handle_composer_key w e k a =
     (if pending_pgp_chord a then
        (case from_key a Composer_Context k None True False of
           Some act \<Rightarrow>
             if act = ComposerPgpSign \<or> act = ComposerPgpEncrypt then invoke_action w e act a
             else composer_key_plain w e k (say ''pgp chord cancelled'' (a\<lparr>pending_pgp_chord := False\<rparr>))
         | None \<Rightarrow> composer_key_plain w e k (say ''pgp chord cancelled'' (a\<lparr>pending_pgp_chord := False\<rparr>)))
      else composer_key_plain w e k a)"

section \<open>Overlays\<close>

definition goes_up :: "key_event \<Rightarrow> bool" where
  "goes_up k \<longleftrightarrow> (k_code k = Up_Key \<or> k_code k = Char ''k'') \<and> k_mods k = {}"

definition goes_down :: "key_event \<Rightarrow> bool" where
  "goes_down k \<longleftrightarrow> (k_code k = Down_Key \<or> k_code k = Char ''j'') \<and> k_mods k = {}"

definition cursor_up :: "nat \<Rightarrow> nat option \<Rightarrow> nat" where
  "cursor_up len sel = (let cur = (case sel of Some i \<Rightarrow> i | None \<Rightarrow> 0) in if cur = 0 then len - 1 else cur - 1)"

definition cursor_down :: "nat \<Rightarrow> nat option \<Rightarrow> nat" where
  "cursor_down len sel = ((case sel of Some i \<Rightarrow> i | None \<Rightarrow> 0) + 1) mod len"

definition pop_char :: "string \<Rightarrow> string" where
  "pop_char s = concat (butlast (chars s))"

definition handle_outbox_key :: "surroundings \<Rightarrow> effects \<Rightarrow> key_event \<Rightarrow> app \<Rightarrow> unit run" where
  "handle_outbox_key w e k a =
     (let len = (case a_outbox a of Some ob \<Rightarrow> length (ob_entries ob) | None \<Rightarrow> 0);
          moved = (\<lambda>f. ok (if 0 < len then a\<lparr>a_outbox := map_option (\<lambda>ob. ob\<lparr>ob_sel := Some (f len (ob_sel ob))\<rparr>) (a_outbox a)\<rparr> else a))
      in if goes_up k then moved cursor_up
         else if goes_down k then moved cursor_down
         else fire w e (from_key a Outbox_Context k None False False) a)"

definition handle_thread_key :: "surroundings \<Rightarrow> effects \<Rightarrow> key_event \<Rightarrow> app \<Rightarrow> unit run" where
  "handle_thread_key w e k a =
     (let len = (case a_thread a of Some t \<Rightarrow> length (th_messages t) | None \<Rightarrow> 0);
          moved = (\<lambda>f. ok (if 0 < len then a\<lparr>a_thread := map_option (\<lambda>t. t\<lparr>th_sel := Some (f len (th_sel t))\<rparr>) (a_thread a)\<rparr> else a))
      in if goes_up k then moved cursor_up
         else if goes_down k then moved cursor_down
         else fire w e (from_key a Thread_Context k None False False) a)"

definition handle_move_picker_key :: "surroundings \<Rightarrow> effects \<Rightarrow> key_event \<Rightarrow> app \<Rightarrow> unit run" where
  "handle_move_picker_key w e k a =
     (let len = length (picker_targets a);
          moved = (\<lambda>f. ok (if 0 < len then a\<lparr>a_move_picker := map_option (\<lambda>p. p\<lparr>mp_sel := Some (f len (mp_sel p))\<rparr>) (a_move_picker a)\<rparr> else a));
          filtered = (\<lambda>f. ok (a\<lparr>a_move_picker := map_option (\<lambda>p. p\<lparr>mp_filter := f (mp_filter p), mp_sel := Some 0\<rparr>) (a_move_picker a)\<rparr>))
      in if goes_up k then moved cursor_up
         else if goes_down k then moved cursor_down
         else case k_code k of
           Backspace_Key \<Rightarrow> filtered pop_char
         | Char c \<Rightarrow> if Control \<notin> k_mods k then filtered (\<lambda>s. s @ c)
                     else fire w e (from_key a MovePicker_Context k None False False) a
         | _ \<Rightarrow> fire w e (from_key a MovePicker_Context k None False False) a)"

definition handle_contacts_key :: "surroundings \<Rightarrow> effects \<Rightarrow> key_event \<Rightarrow> app \<Rightarrow> unit run" where
  "handle_contacts_key w e k a =
     (let len = length (contacts_filtered a);
          moved = (\<lambda>f. ok (a\<lparr>a_contacts := map_option (\<lambda>c. c\<lparr>cs_sel := Some (f len (cs_sel c))\<rparr>) (a_contacts a)\<rparr>));
          filtered = (\<lambda>f. ok (a\<lparr>a_contacts := map_option (\<lambda>c. c\<lparr>cs_filter := f (cs_filter c), cs_sel := Some 0\<rparr>) (a_contacts a)\<rparr>))
      in if goes_up k \<and> 0 < len then moved cursor_up
         else if goes_down k \<and> 0 < len then moved cursor_down
         else case k_code k of
           Backspace_Key \<Rightarrow> filtered pop_char
         | Char c \<Rightarrow> if Control \<notin> k_mods k then filtered (\<lambda>s. s @ c)
                     else fire w e (from_key a Contacts_Context k None False False) a
         | _ \<Rightarrow> fire w e (from_key a Contacts_Context k None False False) a)"

definition handle_ical_key :: "surroundings \<Rightarrow> effects \<Rightarrow> key_event \<Rightarrow> app \<Rightarrow> unit run" where
  "handle_ical_key w e k a = fire w e (from_key a Ical_Context k None False False) a"

text \<open>Searching: the query is edited, and \<^verbatim>\<open>Enter\<close> runs it or, with results, jumps to the selected one.\<close>

definition search_confirm :: "surroundings \<Rightarrow> app \<Rightarrow> app" where
  "search_confirm w a =
     (case a_search a of
        Some s \<Rightarrow>
          if ss_results s = [] then run_search w a
          else (case ss_sel s of
            None \<Rightarrow> a
          | Some i \<Rightarrow>
              (let m = ss_results s ! i
               in jump_to_message w (folder m) (uid m)
                    (a\<lparr>a_last_search := map_option (\<lambda>l. l\<lparr>ls_cursor := i\<rparr>) (a_last_search a), a_search := None\<rparr>)))
      | None \<Rightarrow> run_search w a)"

definition search_select :: "nat \<Rightarrow> app \<Rightarrow> app" where
  "search_select i a =
     a\<lparr>a_search := map_option (\<lambda>s. s\<lparr>ss_sel := Some i\<rparr>) (a_search a),
       a_last_search := map_option (\<lambda>l. l\<lparr>ls_cursor := i\<rparr>) (a_last_search a)\<rparr>"

definition search_edit :: "(string \<Rightarrow> string) \<Rightarrow> app \<Rightarrow> app" where
  "search_edit f a =
     a\<lparr>a_search := map_option (\<lambda>s. s\<lparr>ss_query := f (ss_query s), ss_results := [], ss_sel := None\<rparr>) (a_search a)\<rparr>"

definition handle_search_key :: "surroundings \<Rightarrow> key_event \<Rightarrow> app \<Rightarrow> app" where
  "handle_search_key w k a =
     (if k_code k = Esc_Key then a\<lparr>a_search := None\<rparr>
      else if k_code k = Enter_Key then search_confirm w a
      else
        (let results = (case a_search a of Some s \<Rightarrow> ss_results s | None \<Rightarrow> []);
             sel = Option.bind (a_search a) ss_sel
         in if results \<noteq> [] \<and> goes_up k then search_select (cursor_up (length results) sel) a
            else if results \<noteq> [] \<and> goes_down k then search_select (cursor_down (length results) sel) a
            else case k_code k of
              Backspace_Key \<Rightarrow> search_edit pop_char a
            | Char c \<Rightarrow> search_edit (\<lambda>q. q @ c) a
            | _ \<Rightarrow> a))"

definition pick_folder_crud :: "nat \<Rightarrow> app \<Rightarrow> app" where
  "pick_folder_crud i a = confirm_folder_crud (a\<lparr>folder_crud := map_option (\<lambda>_. Some i) (folder_crud a)\<rparr>)"

definition handle_folder_crud_key :: "key_event \<Rightarrow> app \<Rightarrow> app" where
  "handle_folder_crud_key k a =
     (if k_code k = Esc_Key then say ''folder: cancelled'' (a\<lparr>folder_crud := None\<rparr>)
      else if k_code k = Enter_Key then confirm_folder_crud a
      else if goes_up k then a\<lparr>folder_crud := map_option (\<lambda>s. Some (cursor_up 3 s)) (folder_crud a)\<rparr>
      else if goes_down k then a\<lparr>folder_crud := map_option (\<lambda>s. Some (cursor_down 3 s)) (folder_crud a)\<rparr>
      else if k_code k = Char ''c'' \<and> k_mods k = {} then pick_folder_crud 0 a
      else if k_code k = Char ''r'' \<and> k_mods k = {} then pick_folder_crud 1 a
      else if k_code k = Char ''d'' \<and> k_mods k = {} then pick_folder_crud 2 a
      else a)"

fun edit_prompt :: "(string \<Rightarrow> string) \<Rightarrow> folder_crud_prompt \<Rightarrow> folder_crud_prompt" where
  "edit_prompt f (Create_Prompt n) = Create_Prompt (f n)"
| "edit_prompt f (Rename_Prompt n to) = Rename_Prompt n (f to)"
| "edit_prompt f (Delete_Prompt n c) = Delete_Prompt n c"

fun prompt_ready :: "folder_crud_prompt option \<Rightarrow> bool" where
  "prompt_ready (Some (Delete_Prompt _ confirmed)) = confirmed"
| "prompt_ready (Some (Create_Prompt n)) = (n \<noteq> [])"
| "prompt_ready (Some (Rename_Prompt _ to)) = (to \<noteq> [])"
| "prompt_ready None = False"

definition middle_dot :: string where
  "middle_dot = [CHR 0xC2, CHR 0xB7]"

definition show_prompt :: "app \<Rightarrow> app" where
  "show_prompt a =
     (case folder_crud_prompt a of
        Some (Create_Prompt n) \<Rightarrow> say (''folder create: '' @ n @ ''_ (Enter confirm '' @ middle_dot @ '' Esc cancel)'') a
      | Some (Rename_Prompt n to) \<Rightarrow>
          say (''folder rename '' @ quoted n @ '' '' @ right_arrow @ '' '' @ to @ ''_ (Enter confirm '' @ middle_dot @ '' Esc cancel)'') a
      | Some (Delete_Prompt n _) \<Rightarrow> say (''folder delete '' @ quoted n @ '': y to confirm '' @ middle_dot @ '' Esc cancel'') a
      | None \<Rightarrow> a)"

definition prompt_edited :: "(string \<Rightarrow> string) \<Rightarrow> app \<Rightarrow> app" where
  "prompt_edited f a = show_prompt (a\<lparr>folder_crud_prompt := map_option (edit_prompt f) (folder_crud_prompt a)\<rparr>)"

definition handle_folder_crud_prompt_key :: "key_event \<Rightarrow> app \<Rightarrow> app" where
  "handle_folder_crud_prompt_key k a =
     (case k_code k of
        Esc_Key \<Rightarrow> say ''folder: cancelled'' (a\<lparr>folder_crud_prompt := None\<rparr>)
      | Enter_Key \<Rightarrow>
          if prompt_ready (folder_crud_prompt a) then apply_folder_crud_prompt a
          else (case folder_crud_prompt a of
            Some (Delete_Prompt _ False) \<Rightarrow> say ''folder delete: press y to confirm, Esc to cancel'' a
          | _ \<Rightarrow> a)
      | Backspace_Key \<Rightarrow> prompt_edited pop_char a
      | Char c \<Rightarrow>
          (if c = ''y'' \<and> k_mods k = {} then
             (case folder_crud_prompt a of
                Some (Delete_Prompt n _) \<Rightarrow> apply_folder_crud_prompt (a\<lparr>folder_crud_prompt := Some (Delete_Prompt n True)\<rparr>)
              | _ \<Rightarrow> prompt_edited (\<lambda>s. s @ ''y'') a)
           else if Control \<notin> k_mods k then prompt_edited (\<lambda>s. s @ c) a
           else show_prompt a)
      | _ \<Rightarrow> show_prompt a)"

section \<open>Results of background operations\<close>

text \<open>
  The disconnection of the daemon, its heartbeat and loaded grammars only touch state that is not part of
  the model (the handle of the fallback task, a time stamp, a cache).
\<close>

datatype task_result =
    Sync_Done "string option" nat string nat
  | Body_Fetched int "string option"
  | Outbox_Drained nat nat
  | Sieve_Scripts "string + string list"
  | Sieve_Body string "string + string"
  | Sieve_Saved string "string + unit"
  | Folder_Op "string + string"
  | Watch_Signal
  | Folder_Updated bool
  | Ipc_Hello
  | Composer_Sent "string + nat"
  | Expunge_Done "string + nat \<times> nat \<times> string"
  | Mark_Read_Done "string + nat \<times> string"
  | Unsubscribe_Done "string + string"
  | Receipt_Done "string + string"
  | Login_Done "string + unit"
  | Sync_Disconnected
  | Ipc_Heartbeat int
  | Grammar_Ready

definition em_dash :: string where
  "em_dash = [CHR 0xE2, CHR 0x80, CHR 0x94]"

definition either_text :: "string + string \<Rightarrow> string" where
  "either_text r = (case r of Inl e \<Rightarrow> e | Inr t \<Rightarrow> t)"

definition folder_op_done :: "string \<Rightarrow> app \<Rightarrow> app" where
  "folder_op_done msg a =
     (let fs = list_folders (a_store a)
      in say msg (a\<lparr>a_folders := fs, folder_sel := (if fs \<noteq> [] \<and> folder_sel a = None then Some 0 else folder_sel a)\<rparr>))"

fun handle_task_result :: "surroundings \<Rightarrow> task_result \<Rightarrow> app \<Rightarrow> app" where
  "handle_task_result w (Sync_Done err new f n) a =
     (let a1 = complete_pending a;
          a2 = reload_messages w (if err = None then reload_folders a1 else a1)
      in say (case err of
           Some e \<Rightarrow> ''sync error: '' @ e
         | None \<Rightarrow> ''synced '' @ f @ '' ('' @ show_nat n @ '' msgs, '' @ show_nat new @ '' new)'') a2)"
| "handle_task_result w (Body_Fetched u err) a =
     (case err of
        Some e \<Rightarrow> say (''fetch body error: '' @ e) (complete_pending a)
      | None \<Rightarrow> say (''fetched body uid '' @ show_int u) (refresh_body w (reload_messages w (complete_pending a))))"
| "handle_task_result w (Outbox_Drained sent failed) a =
     say (''outbox drain: '' @ show_nat sent @ '' sent, '' @ show_nat failed @ '' failed'') (reload_outbox (complete_pending a))"
| "handle_task_result w (Sieve_Scripts r) a =
     (case r of
        Inr [] \<Rightarrow> say ''sieve: no scripts found'' (complete_pending a)
      | Inr _ \<Rightarrow> say (''<Space>S sieve: Enter edit '' @ middle_dot @ '' Esc cancel'')
          ((complete_pending a)\<lparr>active_picker_open := True\<rparr>)
      | Inl e \<Rightarrow> say (''sieve list failed: '' @ e) (complete_pending a))"
| "handle_task_result w (Sieve_Body n r) a =
     (case r of
        Inr _ \<Rightarrow> say (''sieve: editing '' @ quoted n @ '' '' @ em_dash @ '' <Space>s save '' @ middle_dot @ '' Esc cancel'')
          ((complete_pending a)\<lparr>sieve_wizard_open := True\<rparr>)
      | Inl e \<Rightarrow> say (''sieve get failed: '' @ e) (complete_pending a))"
| "handle_task_result w (Sieve_Saved n r) a =
     (case r of
        Inr _ \<Rightarrow> say (''sieve: saved '' @ n) (complete_pending a)
      | Inl e \<Rightarrow> say (''sieve save failed: '' @ e) ((complete_pending a)\<lparr>sieve_wizard_open := True\<rparr>))"
| "handle_task_result w Sync_Disconnected a = a"
| "handle_task_result w (Ipc_Heartbeat ts) a = a"
| "handle_task_result w Grammar_Ready a = a"
| "handle_task_result w (Folder_Op r) a =
     (case r of
        Inr msg \<Rightarrow> folder_op_done msg (complete_pending a)
      | Inl e \<Rightarrow> say (''folder op failed: '' @ e) (complete_pending a))"
| "handle_task_result w Watch_Signal a = manual_sync a"
| "handle_task_result w (Folder_Updated same_account) a =
     (if same_account then reload_messages w (reload_folders a) else a)"
| "handle_task_result w Ipc_Hello a = reload_messages w (reload_folders a)"
| "handle_task_result w (Composer_Sent r) a =
     (case r of
        Inr n \<Rightarrow> say (''sent ('' @ show_nat n @ '' bytes)'') ((complete_pending a)\<lparr>a_composer := None\<rparr>)
      | Inl e \<Rightarrow> say e (complete_pending a))"
| "handle_task_result w (Expunge_Done r) a =
     (case r of
        Inr (n, m, f) \<Rightarrow> say (''expunged '' @ show_nat n @ '' (server) / '' @ show_nat m @ '' (local) in '' @ f)
          (reload_messages w (complete_pending a))
      | Inl e \<Rightarrow> say (''expunge failed: '' @ e) (complete_pending a))"
| "handle_task_result w (Mark_Read_Done r) a =
     (case r of
        Inr (n, f) \<Rightarrow> say (''marked '' @ show_nat n @ '' read in '' @ f) (reload_messages w (complete_pending a))
      | Inl e \<Rightarrow> say (''mark all read failed: '' @ e) (complete_pending a))"
| "handle_task_result w (Unsubscribe_Done r) a = say (either_text r) (complete_pending a)"
| "handle_task_result w (Receipt_Done r) a = say (either_text r) (complete_pending a)"
| "handle_task_result w (Login_Done r) a =
     say (case r of Inr _ \<Rightarrow> ''oauth login complete'' | Inl e \<Rightarrow> ''oauth login failed: '' @ e) (complete_pending a)"


section \<open>The event loop\<close>

text \<open>A key goes to the topmost overlay; \<open>Inr True\<close> ends the loop.\<close>

definition handle_key :: "surroundings \<Rightarrow> effects \<Rightarrow> key_event \<Rightarrow> app \<Rightarrow> bool run" where
  "handle_key w e k a =
     (if active_picker_open a then goes_on (foreign_key e k a)
      else if a_composer a \<noteq> None then handle_composer_key w e k a
      else if a_outbox a \<noteq> None then goes_on (handle_outbox_key w e k a)
      else if a_search a \<noteq> None then on (handle_search_key w k a)
      else if a_thread a \<noteq> None then goes_on (handle_thread_key w e k a)
      else if a_move_picker a \<noteq> None then goes_on (handle_move_picker_key w e k a)
      else if account_picker_open a then goes_on (foreign_key e k a)
      else if a_contacts a \<noteq> None then goes_on (handle_contacts_key w e k a)
      else if ical_open a then goes_on (handle_ical_key w e k a)
      else if folder_crud a \<noteq> None then on (handle_folder_crud_key k a)
      else if folder_crud_prompt a \<noteq> None then on (handle_folder_crud_prompt_key k a)
      else if wizard_open a then goes_on (foreign_key e k a)
      else if sieve_wizard_open a then goes_on (foreign_key e k a)
      else handle_list_key w e k a)"

datatype ui_event = Key_Event key_event | Task_Event task_result | Tick

fun app_event_loop :: "surroundings \<Rightarrow> effects \<Rightarrow> ui_event list \<Rightarrow> app \<Rightarrow> unit run" where
  "app_event_loop w e [] a = ok a"
| "app_event_loop w e (Tick # es) a = app_event_loop w e es a"
| "app_event_loop w e (Task_Event r # es) a = app_event_loop w e es (handle_task_result w r a)"
| "app_event_loop w e (Key_Event k # es) a =
     (case handle_key w e k a of
        (a', Inl m) \<Rightarrow> (a', Inl m)
      | (a', Inr quit) \<Rightarrow> if quit then ok a' else app_event_loop w e es a')"

end
