(* ===== verification/Tui_Props.thy ===== *)
theory Tui_Props
  imports Tui_Keys
begin

text \<open>
  The key bindings of the terminal client: outside the preview pane every binding of the help screen leads
  to its own action; which bindings no key reaches; what the composer makes of keys that the table claims.
  Also the names under which attachments are saved.
\<close>

section \<open>Lookup in the table\<close>

lemma find_filter_same:
  assumes "\<And>x. P x \<Longrightarrow> Q x"
  shows "List.find P (filter Q xs) = List.find P xs"
  using assms by (induction xs) auto

text \<open>
  Two rows clash when the prefix and the key of the second one let the first one fire in a context they share;
  a table is clear when clashing rows have the same action.
\<close>

definition clash :: "bind_row \<Rightarrow> bind_row \<Rightarrow> bool" where
  "clash s r =
     (if chord (b_key s) = chord (b_key r) then
        prefix_match (leader (b_key r)) (pgp_chord (b_key r)) (g_chord (b_key r)) (b_key s) \<and>
        list_ex (\<lambda>c. List.member (b_contexts r) c) (b_contexts s)
      else False)"

fun clear_table :: "bind_row list \<Rightarrow> bool" where
  "clear_table [] = True"
| "clear_table (s # rs) \<longleftrightarrow> list_all (\<lambda>r. if clash s r then b_action s = b_action r else True) rs \<and> clear_table rs"

definition outside_preview :: "bind_row \<Rightarrow> bool" where
  "outside_preview r \<longleftrightarrow> b_gate r \<noteq> Some In_Preview \<and> b_gate r \<noteq> Some Receipt_Pending"

lemma BINDS_clear: "clear_table (filter outside_preview BINDS)"
  by code_simp

lemma outside_preview_contexts: "list_all (\<lambda>r. b_contexts r \<noteq> []) (filter outside_preview BINDS)"
  by code_simp

text \<open>The event that the keys of a row amount to, with its prefix pressed.\<close>

definition pressed :: "app \<Rightarrow> key_context \<Rightarrow> key_spec \<Rightarrow> action option" where
  "pressed a ctx s = from_key a ctx (chord s) (if leader s then Some Pending else None) (pgp_chord s) (g_chord s)"

lemma find_clear:
  assumes "clear_table rows" "list_all (\<lambda>r. b_contexts r \<noteq> []) rows" "row \<in> set rows" "ctx \<in> set (b_contexts row)"
    "fires = row_fires a ctx (chord (b_key row)) (if leader (b_key row) then Some Pending else None)
       (pgp_chord (b_key row)) (g_chord (b_key row))"
    "fires row"
  shows "map_option b_action (List.find fires rows) = Some (b_action row)"
  using assms(1-3)
proof (induction rows)
  case (Cons s rs)
  show ?case
  proof (cases "fires s")
    case True
    then have "s = row \<or> clash s row"
      using Cons.prems(2) assms(4,5)
      by (auto simp: clash_def row_fires_def context_match_def list_ex_iff List.member_iff split: if_splits)
    moreover have "s = row \<or> row \<in> set rs" using Cons.prems(3) by auto
    ultimately have "b_action s = b_action row"
      using Cons.prems(1) by (auto simp: list_all_iff)
    then show ?thesis using True by simp
  next
    case False
    then have "row \<in> set rs" using Cons.prems(3) assms(6) by auto
    then show ?thesis using Cons False by simp
  qed
qed simp
lemma row_fires_itself:
  assumes "ctx \<in> set (b_contexts row)" "gate_passes a row"
  shows "row_fires a ctx (chord (b_key row)) (if leader (b_key row) then Some Pending else None)
    (pgp_chord (b_key row)) (g_chord (b_key row)) row"
  using assms by (auto simp: row_fires_def context_match_def prefix_match_def)

lemma row_fires_outside_preview: "a_pane a \<noteq> Preview_Pane \<Longrightarrow> row_fires a ctx k l p g r \<Longrightarrow> outside_preview r"
  by (auto simp: row_fires_def gate_passes_def outside_preview_def)


lemmas table_defs = BINDS_def GLOBAL_BINDS_def NAVIGATION_BINDS_def SCROLL_BINDS_def MESSAGE_BINDS_def COMPOSE_BINDS_def
  COMPOSER_BINDS_def OVERLAY_BINDS_def OUTBOX_BINDS_def MOVE_PICKER_BINDS_def ACCOUNT_PICKER_BINDS_def
  CONTACTS_BINDS_def ICAL_BINDS_def THREAD_BINDS_def SEARCH_BINDS_def WIZARD_BINDS_def ACTIVE_PICKER_BINDS_def

lemmas spec_defs = plain_spec_def plain_char_spec_def ctrl_char_spec_def leader_char_spec_def g_chord_spec_def

lemmas lookup_defs = from_key_def row_fires_def context_match_def prefix_match_def gate_passes_def LIST_LIKE_def

lemma find_masked:
  assumes "n < length rows" "list_all (\<lambda>r. b_action r \<noteq> act) (take (Suc n) rows)"
    "\<And>r. r \<in> set rows \<Longrightarrow> b_action r = act \<Longrightarrow> fires r \<Longrightarrow> fires (rows ! n)"
  shows "map_option b_action (List.find fires rows) \<noteq> Some act"
proof
  assume "map_option b_action (List.find fires rows) = Some act"
  then obtain i where i: "i < length rows" "fires (rows ! i)" "b_action (rows ! i) = act" "\<forall>j<i. \<not> fires (rows ! j)"
    by (auto simp: find_Some_iff)
  then have "fires (rows ! n)" using assms(3) nth_mem by blast
  then have "i < Suc n" using i(4) by (meson not_less_eq)
  then have "rows ! i = take (Suc n) rows ! i" "i < length (take (Suc n) rows)" using i(1) by auto
  then have "rows ! i \<in> set (take (Suc n) rows)" by (metis nth_mem)
  then show False using assms(2) i(3) by (auto simp: list_all_iff)
qed

lemma singleton_filterD:
  assumes "filter P xs = [r]" "x \<in> set xs" "P x"
  shows "x = r"
proof -
  have "x \<in> set (filter P xs)" using assms(2,3) by simp
  then have "x \<in> set [r]" unfolding assms(1) .
  then show ?thesis by simp
qed

lemma scroll_rows:
  "filter (\<lambda>r. b_action r = ScrollDown) BINDS = [SCROLL_BINDS ! 0]"
  "filter (\<lambda>r. b_action r = ScrollUp) BINDS = [SCROLL_BINDS ! 1]"
  by (simp_all add: table_defs)

lemma move_rows: "BINDS ! 3 = NAVIGATION_BINDS ! 0" "BINDS ! 4 = NAVIGATION_BINDS ! 1" "5 < length BINDS"
  by (simp_all add: table_defs)

lemma before_moves:
  "list_all (\<lambda>r. b_action r \<noteq> ScrollDown) (take 4 BINDS)" "list_all (\<lambda>r. b_action r \<noteq> ScrollUp) (take 5 BINDS)"
  by (simp_all add: table_defs)

lemma no_shifted_row: "list_all (\<lambda>r. Shift \<notin> k_mods (chord (b_key r))) BINDS"
  by (simp add: table_defs spec_defs)

lemma no_space_row: "list_all (\<lambda>r. k_code (chord (b_key r)) \<noteq> Char '' '') BINDS"
  by (simp add: table_defs spec_defs)

lemma ctrl_d_in_preview:
  "a_pane a = Preview_Pane \<Longrightarrow>
   from_key a Composer_Context \<lparr>k_code = Char ''d'', k_mods = {Control}\<rparr> None False False = Some ScrollHalfPageDown"
  by (simp add: lookup_defs table_defs spec_defs)

lemma ctrl_d_elsewhere:
  "a_pane a \<noteq> Preview_Pane \<Longrightarrow>
   from_key a Composer_Context \<lparr>k_code = Char ''d'', k_mods = {Control}\<rparr> None False False = Some ComposerSaveDraft"
  by (simp add: lookup_defs table_defs spec_defs)

lemma row_fires_weaken:
  assumes "row_fires a ctx k l p g r" "b_key s = b_key r" "b_gate s = None" "ctx \<in> set (b_contexts s)"
  shows "row_fires a ctx k l p g s"
  using assms by (auto simp: row_fires_def context_match_def gate_passes_def)

lemma same_keys:
  "b_key (NAVIGATION_BINDS ! 0) = b_key (SCROLL_BINDS ! 0)" "b_key (NAVIGATION_BINDS ! 1) = b_key (SCROLL_BINDS ! 1)"
  "b_gate (NAVIGATION_BINDS ! 0) = None" "b_gate (NAVIGATION_BINDS ! 1) = None"
  "List_Context \<in> set (b_contexts (NAVIGATION_BINDS ! 0))" "List_Context \<in> set (b_contexts (NAVIGATION_BINDS ! 1))"
  by (simp_all add: SCROLL_BINDS_def NAVIGATION_BINDS_def LIST_LIKE_def)

lemma scroll_down_unreachable: "from_key a List_Context k l p g \<noteq> Some ScrollDown"
  unfolding from_key_def
proof (rule find_masked [of 3])
  show "row_fires a List_Context k l p g (BINDS ! 3)"
    if "r \<in> set BINDS" "b_action r = ScrollDown" "row_fires a List_Context k l p g r" for r
    using that(3) unfolding singleton_filterD [OF scroll_rows(1) that(1,2)] move_rows
    by (rule row_fires_weaken) (fact same_keys)+
qed (use move_rows(3) before_moves(1) in simp_all)

lemma scroll_up_unreachable: "from_key a List_Context k l p g \<noteq> Some ScrollUp"
  unfolding from_key_def
proof (rule find_masked [of 4])
  show "row_fires a List_Context k l p g (BINDS ! 4)"
    if "r \<in> set BINDS" "b_action r = ScrollUp" "row_fires a List_Context k l p g r" for r
    using that(3) unfolding singleton_filterD [OF scroll_rows(2) that(1,2)] move_rows
    by (rule row_fires_weaken) (fact same_keys)+
qed (use move_rows(3) before_moves(2) in simp_all)

lemma space_unbound: "k_code k = Char '' '' \<Longrightarrow> from_key a ctx k l p g = None"
proof -
  assume k: "k_code k = Char '' ''"
  have "\<not> row_fires a ctx k l p g r" if "r \<in> set BINDS" for r
    using no_space_row that k by (auto simp: list_all_iff row_fires_def)
  then show ?thesis by (simp add: from_key_def find_None_iff)
qed

definition space_key :: key_event where
  "space_key = \<lparr>k_code = Char '' '', k_mods = {}\<rparr>"

definition ctrl_d :: key_event where
  "ctrl_d = \<lparr>k_code = Char ''d'', k_mods = {Control}\<rparr>"

definition blank_app :: app where
  "blank_app = \<lparr>a_store = empty_db, a_folders = [], folder_unread = [], folder_sel = None, a_messages = [], msg_sel = None,
     a_pane = Folders_Pane, pending_g = False, pending_leader = None, pending_pgp_chord = False, a_body = [],
     body_scroll = 0, preview_raw_headers = False, a_status = [], a_composer = None, show_help = False,
     a_move_picker = None, a_outbox = None, a_search = None, a_thread = None, a_contacts = None,
     a_last_search = None, folder_crud = None, folder_crud_prompt = None, active_picker_open = False,
     account_picker_open = False, ical_open = False, wizard_open = False, sieve_wizard_open = False,
     busy = False, pending_op_count = 0, receipt_responded = [], current_receipt = None\<rparr>"

definition idle_effects :: effects where
  "idle_effects = \<lparr>perform = (\<lambda>_. ok), copy_to = (\<lambda>_. ok), edit = (\<lambda>_ c. c), foreign_key = (\<lambda>_. ok)\<rparr>"

definition quiet_surroundings :: surroundings where
  "quiet_surroundings = \<lparr>read_path = (\<lambda>_. Inl ''missing''), rendered_text = (\<lambda>_. []), receipt_request = (\<lambda>_. None),
     remote_set_flags = (\<lambda>_ _ _ _. Inr ()), remote_move = (\<lambda>_ _ _. Inr ()), send_queued = (\<lambda>_. Inr ()),
     full_text = (\<lambda>_ rows. rows), clock = 0\<rparr>"


text \<open>
  The rows for scrolling the preview line by line are unreachable: in the list context no key, with
  whatever prefix, in whatever pane, is looked up as scrolling one line down or up, because the rows that
  move the selection come first and have no gate, although the comment above them says they are gated.
\<close>

theorem line_scroll_unreachable: "from_key a List_Context k l p g \<notin> {Some ScrollDown, Some ScrollUp}"
  using scroll_down_unreachable scroll_up_unreachable by simp

text \<open>
  A key event that carries the shift modifier reaches no binding, in any context and after any prefix.
  The terminal library reports upper-case letters and the backwards tab with that modifier, so the
  bindings on upper-case letters depend on a terminal that does not.
\<close>

theorem shifted_keys_are_dead:
  assumes "Shift \<in> k_mods k"
  shows "from_key a ctx k l p g = None"
proof -
  have "\<not> row_fires a ctx k l p g r" if "r \<in> set BINDS" for r
    using no_shifted_row that assms by (auto simp: list_all_iff row_fires_def)
  then show ?thesis by (simp add: from_key_def find_None_iff)
qed

lemma shifted_keys_are_dead_witness:
  "from_key blank_app List_Context \<lparr>k_code = Char ''G'', k_mods = {Shift}\<rparr> None False False = None"
  by (rule shifted_keys_are_dead) simp

text \<open>
  C38. Typing a space in the composer never reaches the editor: it arms the leader and changes nothing else,
  whichever field has the focus and whatever was pressed before (unless the PGP chord is pending).
\<close>

theorem composer_swallows_space:
  "\<not> pending_pgp_chord a \<Longrightarrow> handle_composer_key w e space_key a = on (a\<lparr>pending_leader := Some Pending\<rparr>)"
  by (simp add: handle_composer_key_def composer_key_plain_def space_key_def space_unbound is_space_def)

lemma composer_swallows_space_witness:
  "handle_composer_key quiet_surroundings idle_effects space_key (blank_app\<lparr>pending_leader := Some Pending\<rparr>) =
     on (blank_app\<lparr>pending_leader := Some Pending\<rparr>)"
  using composer_swallows_space [of "blank_app\<lparr>pending_leader := Some Pending\<rparr>" quiet_surroundings idle_effects] by (simp add: blank_app_def)

text \<open>
  With the preview pane behind the composer, the key that saves a draft to the server is looked up as
  scrolling the preview, so the composer hands it to its editor and no draft is saved.
\<close>

theorem save_draft_shadowed_in_preview:
  assumes "a_pane a = Preview_Pane" "\<not> pending_pgp_chord a" "pending_leader a = None"
  shows "handle_composer_key w e ctrl_d a =
    on (a\<lparr>pending_leader := None, a_composer := map_option (edit e ctrl_d) (a_composer a)\<rparr>)"
  using assms by (simp add: handle_composer_key_def composer_key_plain_def ctrl_d_def ctrl_d_in_preview
    composer_commands_def is_space_def)

lemma save_draft_shadowed_in_preview_witness:
  "handle_composer_key quiet_surroundings idle_effects ctrl_d (blank_app\<lparr>a_pane := Preview_Pane\<rparr>) = on (blank_app\<lparr>a_pane := Preview_Pane\<rparr>)"
  using save_draft_shadowed_in_preview [of "blank_app\<lparr>a_pane := Preview_Pane\<rparr>" quiet_surroundings idle_effects] by (simp add: blank_app_def)

section \<open>Attachments and search\<close>

lemma path_file_name_Some:
  assumes "path_file_name p = Some x"
  shows "x \<noteq> [] \<and> CHR ''/'' \<notin> set x"
proof -
  let ?parts = "filter (\<lambda>x. x \<noteq> [] \<and> x \<noteq> ''.'') (split_on (CHR ''/'') p)"
  have "?parts \<noteq> []" "x = last ?parts"
    using assms by (auto simp: path_file_name_def split: list.splits if_splits)
  then have "x \<in> set ?parts" by (metis last_in_set)
  then show ?thesis using split_on_pieces by fastforce
qed

text \<open>
  C19. A saved attachment stays in its directory: whatever name the message gives it, the file name used is
  not empty, holds no slash and is neither of the two directory entries.
\<close>

theorem attachment_stays_in_directory:
  "attachment_file_name n \<noteq> [] \<and> CHR ''/'' \<notin> set (attachment_file_name n) \<and>
   attachment_file_name n \<noteq> ''.'' \<and> attachment_file_name n \<noteq> ''..''"
  using path_file_name_Some [of n] by (auto simp: attachment_file_name_def split: option.split)

lemma search_step_back:
  assumes "c < n"
  shows "Option.bind (search_step n c 1) (\<lambda>d. search_step n d (- 1)) = Some c"
proof -
  have "(int (nat ((int c + 1) mod int n)) - 1) mod int n = (int c + 1 - 1) mod int n"
    using assms by (simp add: mod_diff_left_eq)
  then show ?thesis using assms by (simp add: search_step_def)
qed

end
