(* ===== verification/Tui_Invariant.thy ===== *)
theory Tui_Invariant
  imports Tui_Props
begin

text \<open>
  The selections of the terminal client over whole runs of its event loop: no list is ever indexed out of
  range and at most one background operation is pending. The folder selection is no part of it: it may
  point past the end of the list, which every reader allows for; the message list may then belong to
  another folder than the selected one.
\<close>

section \<open>Well-formed states\<close>

text \<open>
  Each selection lies inside its list; the results shown by the search overlay are those of the last search,
  whose cursor points at one of them; one operation runs in the background at most, and then the
  client shows it is busy.
\<close>

definition sel_ok :: "nat \<Rightarrow> nat option \<Rightarrow> bool" where
  "sel_ok n s \<longleftrightarrow> (case s of None \<Rightarrow> True | Some i \<Rightarrow> i < n)"

definition last_search_ok :: "last_search \<Rightarrow> bool" where
  "last_search_ok l \<longleftrightarrow> ls_cursor l < length (ls_results l)"

definition search_ok :: "last_search option \<Rightarrow> search_state \<Rightarrow> bool" where
  "search_ok l s \<longleftrightarrow> sel_ok (length (ss_results s)) (ss_sel s) \<and>
     (ss_results s = [] \<or> map_option ls_results l = Some (ss_results s))"

definition wf_app :: "app \<Rightarrow> bool" where
  "wf_app a \<longleftrightarrow>
     sel_ok (length (a_messages a)) (msg_sel a) \<and>
     pred_option (\<lambda>ob. sel_ok (length (ob_entries ob)) (ob_sel ob)) (a_outbox a) \<and>
     pred_option (\<lambda>t. sel_ok (length (th_messages t)) (th_sel t)) (a_thread a) \<and>
     pred_option last_search_ok (a_last_search a) \<and>
     pred_option (search_ok (a_last_search a)) (a_search a) \<and>
     pending_op_count a \<le> 1 \<and> (busy a \<longleftrightarrow> pending_op_count a = 1)"

named_theorems wf_rules

lemma search_ok_cursor [simp]: "search_ok (Some (l\<lparr>ls_cursor := n\<rparr>)) = search_ok (Some l)"
  by (simp add: search_ok_def fun_eq_iff)

lemma sel_ok_simps [simp]: "sel_ok n None" "sel_ok n (Some i) \<longleftrightarrow> i < n"
  by (simp_all add: sel_ok_def)

lemma wf_app_update [simp]:
  "wf_app (a\<lparr>a_store := x1\<rparr>) = wf_app a" "wf_app (a\<lparr>a_folders := x2\<rparr>) = wf_app a"
  "wf_app (a\<lparr>folder_unread := x3\<rparr>) = wf_app a" "wf_app (a\<lparr>folder_sel := x4\<rparr>) = wf_app a"
  "wf_app (a\<lparr>a_pane := x5\<rparr>) = wf_app a" "wf_app (a\<lparr>pending_g := x6\<rparr>) = wf_app a"
  "wf_app (a\<lparr>pending_leader := x7\<rparr>) = wf_app a" "wf_app (a\<lparr>pending_pgp_chord := x8\<rparr>) = wf_app a"
  "wf_app (a\<lparr>a_body := x9\<rparr>) = wf_app a" "wf_app (a\<lparr>body_scroll := x10\<rparr>) = wf_app a"
  "wf_app (a\<lparr>preview_raw_headers := x11\<rparr>) = wf_app a" "wf_app (a\<lparr>a_status := x12\<rparr>) = wf_app a"
  "wf_app (a\<lparr>a_composer := x13\<rparr>) = wf_app a" "wf_app (a\<lparr>show_help := x14\<rparr>) = wf_app a"
  "wf_app (a\<lparr>a_move_picker := x15\<rparr>) = wf_app a" "wf_app (a\<lparr>a_contacts := x16\<rparr>) = wf_app a"
  "wf_app (a\<lparr>folder_crud := x17\<rparr>) = wf_app a" "wf_app (a\<lparr>folder_crud_prompt := x18\<rparr>) = wf_app a"
  "wf_app (a\<lparr>receipt_responded := x19\<rparr>) = wf_app a" "wf_app (a\<lparr>current_receipt := x20\<rparr>) = wf_app a"
  "wf_app (a\<lparr>active_picker_open := x21\<rparr>) = wf_app a" "wf_app (a\<lparr>sieve_wizard_open := x22\<rparr>) = wf_app a"
  "wf_app (say m a) = wf_app a"
  by (simp_all add: wf_app_def say_def)

lemma wf_app_close [wf_rules]:
  "wf_app a \<Longrightarrow> wf_app (a\<lparr>a_outbox := None\<rparr>)"
  "wf_app a \<Longrightarrow> wf_app (a\<lparr>a_thread := None\<rparr>)"
  "wf_app a \<Longrightarrow> wf_app (a\<lparr>a_search := None\<rparr>)"
  by (simp_all add: wf_app_def)

lemma find_idx_in_list: "find_idx P xs = Some i \<Longrightarrow> i < length xs"
  by (induction xs arbitrary: i) (auto split: if_splits)

lemma search_step_less: "search_step n c d = Some i \<Longrightarrow> i < n"
  by (auto simp: search_step_def nat_less_iff split: if_splits)

lemma resolve_message_in_range: "sel_ok (length ms) (resolve_message_selection g s f ms)"
  by (auto simp: resolve_message_selection_def find_idx_in_list split: option.splits bool.splits)

lemma spawn_pending_wf: "spawn_pending a = (a', b) \<Longrightarrow> wf_app a \<Longrightarrow> wf_app a'"
  by (auto simp: spawn_pending_def split: if_splits) (simp add: wf_app_def)

lemma complete_pending_wf [wf_rules]: "wf_app a \<Longrightarrow> wf_app (complete_pending a)"
  by (auto simp: complete_pending_def wf_app_def Let_def)

lemmas wf_spawning = option.splits prod.splits bool.splits if_splits

lemma fetch_current_body_wf [wf_rules]: "wf_app a \<Longrightarrow> wf_app (fetch_current_body a)"
  by (auto simp: fetch_current_body_def spawn_pending_wf split: wf_spawning)

lemma refresh_body_wf [wf_rules]: "wf_app a \<Longrightarrow> wf_app (refresh_body w a)"
  by (simp add: refresh_body_def Let_def wf_rules split: option.split)

lemma set_messages_wf: "wf_app a \<Longrightarrow> sel_ok (length ms) s \<Longrightarrow> wf_app (a\<lparr>a_messages := ms, msg_sel := s\<rparr>)"
  by (simp add: wf_app_def)

lemma set_msg_sel_wf: "wf_app a \<Longrightarrow> sel_ok (length (a_messages a)) s \<Longrightarrow> wf_app (a\<lparr>msg_sel := s\<rparr>)"
  by (simp add: wf_app_def)

lemma reload_messages_wf [wf_rules]: "wf_app a \<Longrightarrow> wf_app (reload_messages w a)"
  by (simp add: reload_messages_def Let_def wf_rules set_messages_wf resolve_message_in_range)

lemma reload_folders_wf [wf_rules]: "wf_app a \<Longrightarrow> wf_app (reload_folders a)"
  by (simp add: reload_folders_def Let_def)

lemma step_list_wf [wf_rules]: "wf_app a \<Longrightarrow> wf_app (step_list d a)"
  by (auto simp: step_list_def search_step_less set_msg_sel_wf split: pane.splits option.splits)

lemma jump_wf [wf_rules]: "wf_app a \<Longrightarrow> wf_app (jump_top a)" "wf_app a \<Longrightarrow> wf_app (jump_bottom a)"
  by (auto simp: jump_top_def jump_bottom_def set_msg_sel_wf split: pane.splits)

lemma cycle_pane_wf [wf_rules]: "wf_app a \<Longrightarrow> wf_app (cycle_pane f a)"
  by (simp add: cycle_pane_def)

lemma jump_to_message_wf [wf_rules]: "wf_app a \<Longrightarrow> wf_app (jump_to_message w f u a)"
  by (auto simp: jump_to_message_def Let_def find_idx_in_list intro!: wf_rules set_msg_sel_wf split: option.split)

lemma open_search_wf [wf_rules]: "wf_app a \<Longrightarrow> wf_app (open_search a)"
  by (auto simp: open_search_def build_search_state_def new_search_state_def wf_app_def search_ok_def last_search_ok_def
    split: option.split)

lemma run_search_wf [wf_rules]: "wf_app a \<Longrightarrow> wf_app (run_search w a)"
  by (auto simp: run_search_def Let_def wf_app_def search_ok_def last_search_ok_def say_def split: option.split)

lemma step_last_search_wf [wf_rules]: "wf_app a \<Longrightarrow> wf_app (step_last_search w d a)"
  by (auto simp: step_last_search_def Let_def wf_app_def [of "a\<lparr>a_last_search := _\<rparr>"] intro!: wf_rules split: option.split)
    (auto simp: wf_app_def last_search_ok_def search_step_less)

lemma open_thread_wf [wf_rules]: "wf_app a \<Longrightarrow> wf_app (open_thread a)"
  by (auto simp: open_thread_def Let_def wf_app_def say_def find_idx_in_list split: option.split)

lemma toggle_flag_wf: "wf_app a \<Longrightarrow> wf_app (fst (toggle_flag w x a))"
  by (auto simp: toggle_flag_def Let_def ok_def wf_rules split: option.split sum.split)

lemma move_current_to_wf: "wf_app a \<Longrightarrow> wf_app (fst (move_current_to w d a))"
  by (auto simp: move_current_to_def ok_def wf_rules split: option.split sum.split)

lemma spawners_wf [wf_rules]:
  "wf_app a \<Longrightarrow> wf_app (manual_sync a)" "wf_app a \<Longrightarrow> wf_app (expunge a)" "wf_app a \<Longrightarrow> wf_app (mark_folder_read a)"
  "wf_app a \<Longrightarrow> wf_app (drain_outbox_app a)"
  by (auto simp: manual_sync_def expunge_def mark_folder_read_def drain_outbox_app_def Let_def spawn_pending_wf
    split: wf_spawning)

lemma decline_wf [wf_rules]: "wf_app a \<Longrightarrow> wf_app (decline_read_receipt a)"
  by (simp add: decline_read_receipt_def split: option.split)

lemma outbox_wf [wf_rules]:
  "wf_app a \<Longrightarrow> wf_app (open_outbox a)" "wf_app a \<Longrightarrow> wf_app (reload_outbox a)"
  by (auto simp: open_outbox_def reload_outbox_def Let_def wf_app_def say_def min_less_iff_disj split: option.split)

lemma outbox_ops_wf [wf_rules]:
  "wf_app a \<Longrightarrow> wf_app (drain_outbox_one w a)" "wf_app a \<Longrightarrow> wf_app (delete_outbox_one a)"
  by (auto simp: drain_outbox_one_def delete_outbox_one_def intro!: wf_rules split: option.split sum.split)

lemma folder_crud_wf [wf_rules]:
  "wf_app a \<Longrightarrow> wf_app (open_folder_crud a)" "wf_app a \<Longrightarrow> wf_app (confirm_folder_crud a)"
  by (simp_all add: open_folder_crud_def confirm_folder_crud_def Let_def split: option.split)

lemma apply_folder_crud_prompt_wf [wf_rules]:
  assumes "wf_app a"
  shows "wf_app (apply_folder_crud_prompt a)"
proof -
  have "wf_app (a\<lparr>folder_crud_prompt := None\<rparr>)" using assms by simp
  then have "wf_app a'" if "spawn_pending (a\<lparr>folder_crud_prompt := None\<rparr>) = (a', b)" for a' b
    using spawn_pending_wf that by blast
  then show ?thesis
    using assms by (auto simp: apply_folder_crud_prompt_def Let_def split: wf_spawning folder_crud_prompt.splits)
qed

section \<open>Keys keep the selections in range\<close>

definition keeps :: "(app \<Rightarrow> app \<times> 'b) \<Rightarrow> bool" where
  "keeps f \<longleftrightarrow> (\<forall>a. wf_app a \<longrightarrow> wf_app (fst (f a)))"

definition tame :: "effects \<Rightarrow> bool" where
  "tame e \<longleftrightarrow> (\<forall>act. keeps (perform e act)) \<and> (\<forall>t. keeps (copy_to e t)) \<and> (\<forall>k. keeps (foreign_key e k))"

lemma tame_wf:
  assumes "tame e" "wf_app a"
  shows "wf_app (fst (perform e act a))" "wf_app (fst (copy_to e t a))" "wf_app (fst (foreign_key e k a))"
  using assms by (auto simp: tame_def keeps_def)

lemma run_simps [simp]: "fst (goes_on r) = fst r" "fst (on a) = a" "fst (ok a) = a"
  by (auto simp: goes_on_def on_def ok_def split: prod.split sum.split)

lemma after_step_wf [wf_rules]: "wf_app a \<Longrightarrow> wf_app (after_step w a)"
  by (simp add: after_step_def wf_rules split: pane.split)

lemma scroll_wf [wf_rules]: "wf_app a \<Longrightarrow> wf_app (scroll_down n a)" "wf_app a \<Longrightarrow> wf_app (scroll_up n a)"
  by (simp_all add: scroll_down_def scroll_up_def)

lemma confirm_list_wf [wf_rules]: "wf_app a \<Longrightarrow> wf_app (confirm_list w a)"
  by (simp add: confirm_list_def Let_def wf_rules split: pane.split option.split)

lemma pgp_toggles_wf [wf_rules]: "wf_app a \<Longrightarrow> wf_app (toggle_sign a)" "wf_app a \<Longrightarrow> wf_app (toggle_encrypt a)"
  by (simp_all add: toggle_sign_def toggle_encrypt_def Let_def split: option.split)

lemma confirm_thread_wf [wf_rules]: "wf_app a \<Longrightarrow> wf_app (confirm_thread w a)"
  by (auto simp: confirm_thread_def intro!: wf_rules split: option.split)

lemma toggle_raw_headers_wf [wf_rules]: "wf_app a \<Longrightarrow> wf_app (toggle_raw_headers w a)"
  by (simp add: toggle_raw_headers_def Let_def wf_rules)

lemma confirm_move_picker_wf: "tame e \<Longrightarrow> wf_app a \<Longrightarrow> wf_app (fst (confirm_move_picker w e a))"
  by (simp add: confirm_move_picker_def move_current_to_wf tame_wf split: option.split move_picker_mode.split)

lemma invoke_action_wf:
  assumes "tame e" "wf_app a"
  shows "wf_app (fst (invoke_action w e act a))"
  using assms
  by (cases act) (simp_all add: wf_rules tame_wf toggle_flag_wf toggle_seen_def toggle_starred_def toggle_deleted_def
    confirm_move_picker_wf)

lemma fire_wf: "tame e \<Longrightarrow> wf_app a \<Longrightarrow> wf_app (fst (fire w e act a))"
  using invoke_action_wf [of e a w]
  by (auto simp: fire_def split: option.split prod.split sum.split) (metis fst_conv)+

lemma run_case_wf:
  assumes "wf_app (fst r)" "\<And>a' q. wf_app a' \<Longrightarrow> wf_app (f a' q)"
  shows "wf_app (fst (case r of (a', Inl m) \<Rightarrow> (a', Inl m) | (a', Inr q) \<Rightarrow> (f a' q, Inr q)))"
  using assms by (cases r) (auto split: sum.split)

lemma list_key_plain_wf:
  assumes "tame e" "wf_app a"
  shows "wf_app (fst (list_key_plain w e k a))"
proof -
  have i: "wf_app (fst (invoke_action w e act a))" for act
    by (rule invoke_action_wf [OF assms])
  then have "wf_app (fst (case invoke_action w e act a of
      (a', Inl m) \<Rightarrow> (a', Inl m)
    | (a', Inr quit) \<Rightarrow> (if act = JumpTop \<or> act = ScrollBodyTop then a' else a'\<lparr>pending_g := False\<rparr>, Inr quit)))" for act
    by (rule run_case_wf) simp
  then show ?thesis
    unfolding list_key_plain_def using i assms(2)
    by (simp only: fst_conv if_distrib [of fst] if_distrib [of wf_app] option.case_distrib [of fst]
      option.case_distrib [of wf_app] run_simps wf_app_update simp_thms if_cancel split: option.split)
qed

lemma handle_list_key_wf: "tame e \<Longrightarrow> wf_app a \<Longrightarrow> wf_app (fst (handle_list_key w e k a))"
  by (simp add: handle_list_key_def Let_def list_key_plain_wf invoke_action_wf split: option.split)

lemma composer_key_plain_wf: "tame e \<Longrightarrow> wf_app a \<Longrightarrow> wf_app (fst (composer_key_plain w e k a))"
  by (simp add: composer_key_plain_def invoke_action_wf split: option.split)

lemma handle_composer_key_wf: "tame e \<Longrightarrow> wf_app a \<Longrightarrow> wf_app (fst (handle_composer_key w e k a))"
  by (simp add: handle_composer_key_def composer_key_plain_wf invoke_action_wf split: option.split)

lemma cursor_less: "0 < n \<Longrightarrow> cursor_down n s < n" "0 < n \<Longrightarrow> sel_ok n s \<Longrightarrow> cursor_up n s < n"
  by (auto simp: cursor_down_def cursor_up_def Let_def split: option.splits)

lemma handle_outbox_key_wf: "tame e \<Longrightarrow> wf_app a \<Longrightarrow> wf_app (fst (handle_outbox_key w e k a))"
  by (cases "a_outbox a") (auto simp: handle_outbox_key_def Let_def fire_wf, auto simp: wf_app_def cursor_less)

lemma handle_thread_key_wf: "tame e \<Longrightarrow> wf_app a \<Longrightarrow> wf_app (fst (handle_thread_key w e k a))"
  by (cases "a_thread a") (auto simp: handle_thread_key_def Let_def fire_wf, auto simp: wf_app_def cursor_less)

lemma handle_move_picker_key_wf: "tame e \<Longrightarrow> wf_app a \<Longrightarrow> wf_app (fst (handle_move_picker_key w e k a))"
  by (simp add: handle_move_picker_key_def Let_def fire_wf split: key_code.split)

lemma handle_contacts_key_wf: "tame e \<Longrightarrow> wf_app a \<Longrightarrow> wf_app (fst (handle_contacts_key w e k a))"
  by (simp add: handle_contacts_key_def Let_def fire_wf split: key_code.split)

lemma search_select_wf:
  assumes "wf_app a" "a_search a = Some s" "i < length (ss_results s)"
  shows "wf_app (search_select i a)"
  using assms by (auto simp: search_select_def wf_app_def search_ok_def last_search_ok_def)

lemma search_edit_wf [wf_rules]: "wf_app a \<Longrightarrow> wf_app (search_edit f a)"
  by (cases "a_search a") (auto simp: search_edit_def wf_app_def search_ok_def)

lemma search_confirm_wf [wf_rules]:
  assumes "wf_app a"
  shows "wf_app (search_confirm w a)"
proof -
  have "wf_app (a\<lparr>a_last_search := map_option (\<lambda>l. l\<lparr>ls_cursor := i\<rparr>) (a_last_search a), a_search := None\<rparr>)"
    if "a_search a = Some s" "ss_results s \<noteq> []" "ss_sel s = Some i" for s i
    using assms that by (auto simp: wf_app_def search_ok_def last_search_ok_def)
  then show ?thesis
    using assms by (auto simp: search_confirm_def Let_def intro!: run_search_wf jump_to_message_wf split: option.split)
qed

lemma handle_search_key_wf:
  assumes "wf_app a"
  shows "wf_app (handle_search_key w k a)"
proof (cases "a_search a")
  case None
  then show ?thesis using assms by (auto simp: handle_search_key_def Let_def wf_rules split: key_code.split)
next
  case (Some s)
  then have "sel_ok (length (ss_results s)) (ss_sel s)" using assms by (simp add: wf_app_def search_ok_def)
  then have "wf_app (search_select (cursor_up (length (ss_results s)) (ss_sel s)) a)"
    "wf_app (search_select (cursor_down (length (ss_results s)) (ss_sel s)) a)" if "ss_results s \<noteq> []"
    using that assms Some by (auto intro!: search_select_wf simp: cursor_less)
  then show ?thesis using assms Some by (auto simp: handle_search_key_def Let_def wf_rules split: key_code.split)
qed

lemma handle_folder_crud_key_wf: "wf_app a \<Longrightarrow> wf_app (handle_folder_crud_key k a)"
  by (simp add: handle_folder_crud_key_def pick_folder_crud_def wf_rules)

lemma show_prompt_wf [wf_rules]: "wf_app a \<Longrightarrow> wf_app (show_prompt a)" "wf_app a \<Longrightarrow> wf_app (prompt_edited f a)"
  by (simp_all add: prompt_edited_def show_prompt_def split: option.split folder_crud_prompt.split)

lemma handle_folder_crud_prompt_key_wf: "wf_app a \<Longrightarrow> wf_app (handle_folder_crud_prompt_key k a)"
  by (auto simp: handle_folder_crud_prompt_key_def intro!: wf_rules split: key_code.split option.split
    folder_crud_prompt.split bool.split)

lemma handle_key_wf: "tame e \<Longrightarrow> wf_app a \<Longrightarrow> wf_app (fst (handle_key w e k a))"
  by (simp add: handle_key_def tame_wf handle_composer_key_wf handle_outbox_key_wf handle_search_key_wf
    handle_thread_key_wf handle_move_picker_key_wf handle_contacts_key_wf handle_ical_key_def fire_wf
    handle_folder_crud_key_wf handle_folder_crud_prompt_key_wf handle_list_key_wf)

lemma folder_op_done_wf [wf_rules]: "wf_app a \<Longrightarrow> wf_app (folder_op_done m a)"
  by (simp add: folder_op_done_def Let_def)

lemma handle_task_result_wf: "wf_app a \<Longrightarrow> wf_app (handle_task_result w r a)"
  by (cases r) (simp_all add: Let_def wf_rules split: option.split sum.split prod.split list.split)


lemma tame_idle: "tame idle_effects"
  by (simp add: tame_def keeps_def idle_effects_def)


section \<open>Acting on a message of another folder\<close>

lemma spawn_pending_store: "spawn_pending a = (a', b) \<Longrightarrow> a_store a' = a_store a"
  by (auto simp: spawn_pending_def say_def split: if_splits)

lemma reload_store [simp]:
  "a_store (say m a) = a_store a" "a_store (fetch_current_body a) = a_store a"
  "a_store (refresh_body w a) = a_store a" "a_store (reload_messages w a) = a_store a"
proof -
  show "a_store (say m a) = a_store a" for m a by (simp add: say_def)
  then show f: "a_store (fetch_current_body a) = a_store a" for a
    by (auto simp: fetch_current_body_def spawn_pending_store split: option.split prod.split bool.split)
  show r: "a_store (refresh_body w a) = a_store a" for w a
    by (simp add: refresh_body_def Let_def f split: option.split)
  show "a_store (reload_messages w a) = a_store a" by (simp add: reload_messages_def Let_def r)
qed

definition to_last_folder_and_delete :: "surroundings \<Rightarrow> effects \<Rightarrow> app \<Rightarrow> app" where
  "to_last_folder_and_delete w e a =
     (let a1 = fst (invoke_action w e JumpBottom a); a2 = fst (invoke_action w e PaneCycleForward a1)
      in fst (invoke_action w e ToggleDeleted a2))"

text \<open>
  C18. Jumping to the end of the folder list moves the folder selection but leaves the messages of the folder
  before it on the screen: moving on to them and deleting the selected one flags the message of that
  uid in the last folder, whichever folder the selected message belongs to.
\<close>

theorem jump_then_delete_hits_other_folder:
  assumes "a_pane a = Folders_Pane" "a_folders a \<noteq> []" "current_message a = Some m"
    "\<not> contains (flags m) (backslash # ''Deleted'')" "remote_set_flags w = (\<lambda>_ _ _ _. Inr ())"
  shows "a_store (to_last_folder_and_delete w e a) =
    mutate_flags (fname (last (a_folders a))) [uid m] [backslash # ''Deleted''] [] (a_store a)"
  using assms
  by (simp add: to_last_folder_and_delete_def jump_bottom_def cycle_pane_def toggle_deleted_def toggle_flag_def
    current_folder_def current_message_def nth_opt_def last_conv_nth on_def ok_def goes_on_def Let_def split: option.splits if_splits)

definition plain_folder :: "string \<Rightarrow> folder_row" where
  "plain_folder n = \<lparr>fname = n, delim = None, special_use = None, attrs = None, folder_uidvalidity = Some 1,
     uidnext = None, delta_link = None, last_sync_unix = None, snapshot_generation = 0, latest_reserved_generation = 0\<rparr>"

definition plain_message :: "string \<Rightarrow> int \<Rightarrow> message_row" where
  "plain_message f u = \<lparr>folder = f, uid = u, uidvalidity = 1, message_id = None, subject = None, from_addr = None,
     to_addrs = None, date_unix = None, flags = [], maildir_path = None, headers_only = 1, fetched_at_unix = 0,
     in_reply_to = None, refs = None, thread_id = None, provider_id = None\<rparr>"

definition two_folders :: app where
  "two_folders = blank_app\<lparr>a_folders := [plain_folder ''INBOX'', plain_folder ''Trash''], folder_sel := Some 0,
     a_messages := [plain_message ''INBOX'' 7], msg_sel := Some 0\<rparr>"

lemma jump_then_delete_hits_other_folder_witness:
  "current_message two_folders = Some (plain_message ''INBOX'' 7) \<and>
   a_store (to_last_folder_and_delete quiet_surroundings idle_effects two_folders) =
     mutate_flags ''Trash'' [7] [backslash # ''Deleted''] [] (a_store two_folders)"
proof -
  have m: "current_message two_folders = Some (plain_message ''INBOX'' 7)"
    by (simp add: two_folders_def blank_app_def current_message_def nth_opt_def)
  have "a_store (to_last_folder_and_delete quiet_surroundings idle_effects two_folders) =
     mutate_flags (fname (last (a_folders two_folders))) [uid (plain_message ''INBOX'' 7)] [backslash # ''Deleted''] []
       (a_store two_folders)"
    by (rule jump_then_delete_hits_other_folder [OF _ _ m])
      (simp_all add: two_folders_def blank_app_def plain_message_def quiet_surroundings_def contains_def)
  then show ?thesis using m by (simp add: two_folders_def blank_app_def plain_folder_def plain_message_def)
qed

end
