(* ===== verification/Spec2Isabelle.thy ===== *)
theory Spec2Isabelle
  imports Sync_Props Caldav Wkd Mbox_Props Sieve_Props Auth_Results Render_Props Composer_Props
    Iso_Dates Jmap_Events Graph_Props Tui_Invariant
begin

text \<open>
  A model of inbx, a mail client for the terminal: a local index of mail folders in SQLite,
  a sync engine that fills it from IMAP, JMAP or Microsoft Graph, contacts and calendars
  from DAV servers, server-side filters, and OpenPGP for what is sent and read.

  \<^bold>\<open>Conventions.\<close> Strings and byte vectors are lists of bytes; a Rust \<^verbatim>\<open>str\<close> is such a list in
  UTF-8, and the string functions of the standard library are modelled in Rust_Str with
  their byte positions. A fallible function returns a sum with the error on the left, an
  expression that can panic an outcome (Rust_Panic), a function with state the new state.
  Integers that wrap are words; others are unbounded with the code's casts and checks
  written out. Third-party code (the mail parser, HTTP, OpenPGP, base64, SHA-1) is a
  parameter of the functions that call it; where a property needs one of its guarantees,
  the property states it as a hypothesis.

  \<^bold>\<open>The store\<close> (crates/inbx-store). Sql_Table models tables as lists of rows in row-id order and the
  statements the code issues; its locale of a keyed table says what an upsert on a UNIQUE
  key promises, and each store interprets it on its own table. Store_Schema holds the row
  types, the database and its invariant, with the clocks and errors. Store_Snapshot is the
  transaction of \<^verbatim>\<open>apply_snapshot\<close> and the reservation of generations; Snapshot_Props shows that
  it is atomic and that a superseded listing is refused, Snapshot_Mirror that a complete
  listing is mirrored, bodies kept. Store_Folders, Store_Messages and Store_Outbox are the
  other operations (folders and their counts, flags, the search index and its trigger,
  bodies in Maildir files, re-keying, the retry schedule of queued mail), with
  Messages_Props. Store_Threading is the container algorithm of threading.rs with its two
  recursive queries; Threading_Forest shows that containers stay a forest, so that the
  queries return, and Threading_Props that ingesting gives the root and moves threads.

  \<^bold>\<open>The sync engine\<close> (crates/inbx-sync, apps/inbx-sync). Sync_Engine composes the store's operations
  as \<^verbatim>\<open>sync_once\<close> and one turn of the account loop do; the provider is a record of its calls.
  Sync_Props shows that a cycle returns on every path with the invariant of the whole
  database, and that after a successful cycle the index mirrors the server.

  \<^bold>\<open>Contacts, calendars, keys.\<close> Contacts is crates/inbx-contacts/src/lib.rs, Dav the XML scraping of
  crates/inbx-dav and the vCards of carddav.rs, Caldav the incremental pull of
  crates/inbx-ical/src/caldav.rs, Wkd the key discovery of crates/inbx-pgp/src/wkd.rs.

  \<^bold>\<open>Files and filters.\<close> Mbox and Mbox_Props are the mbox reader and writer of apps/inbx/src/mbox.rs and the export
  loop of main.rs, on the dates of Civil_Date; Sieve and Sieve_Props the ManageSieve client of
  crates/inbx-net/src/sieve.rs, with the lossy decoding of Utf8_Lossy.

  \<^bold>\<open>OpenPGP mail.\<close> Pgp_Mime assembles signed and encrypted messages and the Autocrypt header
  (crates/inbx-pgp/src/mime.rs), Pgp_Render takes them apart, verifies and decrypts
  (crates/inbx-render/src/lib.rs); Pgp_Props and Pgp_Decrypt compose the two.

  \<^bold>\<open>Reading mail\<close> (crates/inbx-render). Mail_View is what the code asks the mail parser for. Auth_Results
  (auth.rs) reads the verdicts of the receiving server, Edit_Distance and Phishing
  (phishing.rs) the warnings on senders and links, Html_Images (lib.rs) is the scanner that blocks remote
  images. Render composes them with the badges of pgp.rs into \<^verbatim>\<open>render_message_with_pgp\<close>;
  Render_Props shows when a message is shown as verified.

  \<^bold>\<open>Writing mail\<close> (crates/inbx-composer). Composer is the state of a message in flight, its focus, fields,
  replies, forwards and drafts, and the way to the wire through the MIME writer and Pgp_Mime.
  Templates is the directory of stored messages: its locale of a named store says what such
  a store promises, and the directory is an instance that refines a map. Composer_Props has
  the reachable states and their focus, the recipients of a reply, and what the encrypt flag means.

  \<^bold>\<open>Web mail backends\<close> (crates/inbx-net). Json is the JSON value of the requests and answers. For JMAP (jmap.rs)
  Jmap_Events is the reader of the push stream, Jmap_Mailboxes the tree of mailboxes and its
  paths, Jmap_Client the session, calls and checked answers, Jmap_Provider listings and headers,
  Jmap_Changes flags, moves, drafts, sending, expunging and folders; an operation passes on the
  state of the server, which is whatever the HTTP functions make of it. Jmap_Props states what RFC 8620
  promises of a server and shows that listings are then complete and mirrored, that expunging
  ends and that a created folder exists. Graph_Client is the Microsoft backend (graph.rs);
  its walks over linked pages are partial functions into options, and Graph_Props shows
  that they return within the page limit, that a limit cuts a prefix, and that a
  listing is mirrored. Iso_Dates has the timestamp parsers of both and of the command line, and their
  agreement on the dates that exist.

  \<^bold>\<open>The terminal client\<close> (apps/inbx/src/tui). Tui_App is its state with the operations of app.rs, Tui_Binds the key
  binding table of binds.rs with its lookup, Tui_Keys what actions and keys do and the event loop
  over a sequence of keys and background results (keys.rs, mod.rs). Tui_Props has
  which keys reach which action, and Tui_Invariant that every run keeps the selections in range
  and one operation pending at most, and where the selected folder and the messages on screen come apart.
  Overlays whose content is not modelled (fuzzy pickers, accounts, invitations, wizards) are
  present or not, and their handlers are parameters.

  \<^bold>\<open>Termination.\<close> Every loop of the code is a total function with a measure, except those that may run
  forever, which are partial functions into options: the two recursive queries on containers
  (cyclic tables; the forest invariant gives that they return), the expunge loop of
  JMAP (it ends against a server that destroys what it is asked to) and the page
  walks of Graph (they end whatever the server answers). No fuel is used.

  \<^bold>\<open>Not modelled.\<close> The network sessions themselves (IMAP, SMTP, HTTP, OAuth, proxies, TLS), the
  waiting for pushes, the IPC socket, drawing the terminal and the forms of widget
  libraries, the background jobs of the terminal client, the command line, the
  configuration files, read receipts, invitations, the two key sources (gpg processes and the rpgp crate), and opening
  the SQLite files with their migrations.
\<close>

end
